theory Spec2Isabelle
  imports
    Complex_Main
    "HOL-Library.Multiset"
    "HOL-Library.AList"
    "HOL-Library.Char_ord"
    "HOL-Library.List_Lexorder"
begin

section \<open>Python values used by postagger.py\<close>

text \<open>
  Exceptions of the source become values: every function that can raise returns
  \<open>error + 'a\<close>, with \<open>Inl\<close> carrying the exception.
\<close>

datatype error =
  IndexError | KeyError | AssertionError | TypeError | ValueError | ZeroDivisionError
  | RuntimeError | OSError

text \<open>
  A Python \<open>dict\<close> from strings to integers is an association list in insertion order:
  \<open>d[k] = v\<close> is \<open>AList.update k v d\<close> (a present key keeps its place and takes the new
  value), \<open>len(d)\<close> is \<open>length d\<close>, \<open>d.get(k)\<close> is \<open>map_of d k\<close>.
\<close>

type_synonym dict = "(string \<times> int) list"

text \<open>A two-dimensional \<open>LongTensor\<close> is the list of its rows.\<close>

type_synonym tensor = "int list list"

definition py_index :: "'a list \<Rightarrow> nat \<Rightarrow> error + 'a" where
  "py_index xs i = (if i < length xs then Inr (xs ! i) else Inl IndexError)"

fun sequence :: "(error + 'a) list \<Rightarrow> error + 'a list" where
  "sequence [] = Inr []"
| "sequence (r # rs) =
    (case r of
       Inl e \<Rightarrow> Inl e
     | Inr v \<Rightarrow> (case sequence rs of Inl e \<Rightarrow> Inl e | Inr vs \<Rightarrow> Inr (v # vs)))"

text \<open>The comprehension \<open>[xs[i] for i in idxs]\<close>: the first index out of range raises.\<close>

definition py_gather :: "'a list \<Rightarrow> nat list \<Rightarrow> error + 'a list" where
  "py_gather xs idxs = sequence (map (py_index xs) idxs)"

text \<open>The slice \<open>xs[start:stop]\<close>, with Python's clamping and negative bounds.\<close>

definition py_slice :: "'a list \<Rightarrow> int \<Rightarrow> int \<Rightarrow> 'a list" where
  "py_slice xs start stop =
    (let n = int (length xs);
         s = (if start < 0 then max 0 (n + start) else min n start);
         e = (if stop < 0 then max 0 (n + stop) else min n stop)
     in take (nat (e - s)) (drop (nat s) xs))"

text \<open>\<open>max(lens)\<close>: \<open>ValueError\<close> on the empty list.\<close>

fun py_max :: "nat list \<Rightarrow> error + nat" where
  "py_max [] = Inl ValueError"
| "py_max (x # xs) = Inr (fold max xs x)"

section \<open>create_one_batch (lines 129-154)\<close>

text \<open>
  Lines 131-133: \<open>lst = list(range(batch_size))\<close>, stably sorted by descending length
  when \<open>sort\<close> holds (\<open>sort_key\<close> is a stable insertion sort, as \<open>list.sort\<close> is stable).
\<close>

definition batch_order :: "string list list \<Rightarrow> bool \<Rightarrow> nat list" where
  "batch_order x sort_flag =
    (if sort_flag then sort_key (\<lambda>l. - int (length (x ! l))) [0..<length x] else [0..<length x])"

text \<open>
  One row of a tensor under \<open>for j, v in enumerate(row): t[i][j] = v\<close>. The value is
  computed first (it may raise \<open>KeyError\<close>), then the cell is assigned
  (\<open>IndexError\<close> beyond the row's width).
\<close>

fun fill_row :: "int list \<Rightarrow> nat \<Rightarrow> (error + int) list \<Rightarrow> error + int list" where
  "fill_row row j [] = Inr row"
| "fill_row row j (v # vs) =
    (case v of
       Inl e \<Rightarrow> Inl e
     | Inr a \<Rightarrow> if j < length row then fill_row (row[j := a]) (Suc j) vs else Inl IndexError)"

text \<open>
  \<open>torch.LongTensor(batch_size, max_len).fill_(fill)\<close> followed by the two nested
  \<open>enumerate\<close> loops; \<open>rows\<close> has exactly \<open>batch_size\<close> entries, so the row index is
  always in range.
\<close>

definition fill_tensor :: "nat \<Rightarrow> int \<Rightarrow> (error + int) list list \<Rightarrow> error + tensor" where
  "fill_tensor max_len fill rows =
    sequence (map (\<lambda>r. fill_row (replicate max_len fill) 0 r) rows)"

text \<open>\<open>word2id.get(x_ij, oov_id)\<close> and \<open>label2id[y_ij]\<close>.\<close>

definition word_id :: "dict \<Rightarrow> int \<Rightarrow> string \<Rightarrow> int" where
  "word_id word2id oov_id w = (case map_of word2id w of Some v \<Rightarrow> v | None \<Rightarrow> oov_id)"

definition label_id :: "dict \<Rightarrow> string \<Rightarrow> error + int" where
  "label_id label2id t = (case map_of label2id t of Some v \<Rightarrow> Inr v | None \<Rightarrow> Inl KeyError)"

text \<open>
  \<open>use_cuda\<close> only moves the tensors to another device and is left out. Line 137 reads
  the lengths from the already reordered \<open>x\<close> through \<open>lst\<close> once more, as the source does.
  \<open>fill_(None)\<close> for a missing pad label is a \<open>TypeError\<close>.
\<close>

definition create_one_batch ::
  "string list list \<Rightarrow> string list list \<Rightarrow> dict \<Rightarrow> dict \<Rightarrow> bool \<Rightarrow> string \<Rightarrow> string \<Rightarrow> string
    \<Rightarrow> error + (tensor \<times> tensor \<times> nat list)" where
  "create_one_batch x y word2id label2id sort_flag oov pad label_pad =
    (let lst = batch_order x sort_flag;
         x1 = map (\<lambda>i. x ! i) lst
     in case py_gather y lst of
          Inl e \<Rightarrow> Inl e
        | Inr y1 \<Rightarrow>
     let lens = map (\<lambda>i. length (x1 ! i)) lst
     in case py_max lens of
          Inl e \<Rightarrow> Inl e
        | Inr max_len \<Rightarrow>
     (case (map_of word2id oov, map_of word2id pad) of
        (Some oov_id, Some pad_id) \<Rightarrow>
          (case fill_tensor max_len pad_id (map (map (\<lambda>w. Inr (word_id word2id oov_id w))) x1) of
             Inl e \<Rightarrow> Inl e
           | Inr batch_x \<Rightarrow>
          (case map_of label2id label_pad of
             None \<Rightarrow> Inl TypeError
           | Some label_pad_id \<Rightarrow>
          (case fill_tensor max_len label_pad_id (map (map (label_id label2id)) y1) of
             Inl e \<Rightarrow> Inl e
           | Inr batch_y \<Rightarrow> Inr (batch_x, batch_y, lens))))
      | _ \<Rightarrow> Inl AssertionError))"

section \<open>create_batches (lines 157-196)\<close>

text \<open>
  \<open>random.shuffle\<close> acts on the interpreter's generator: the generator state \<open>'r\<close> is
  threaded explicitly, and \<open>shuffle\<close> returns the reordered list with the next state.
  All that is known of it is that the result is a permutation of its argument.
\<close>

type_synonym 'r shuffler = "'r \<Rightarrow> nat list \<Rightarrow> nat list \<times> 'r"

definition shuffle_ok :: "'r shuffler \<Rightarrow> bool" where
  "shuffle_ok shuffle = (\<forall>r l. mset (fst (shuffle r l)) = mset l)"

text \<open>Lines 158-162: the order of the examples.\<close>

definition example_order ::
  "'r shuffler \<Rightarrow> 'r \<Rightarrow> string list list \<Rightarrow> bool \<Rightarrow> bool \<Rightarrow> nat list \<times> 'r" where
  "example_order shuffle rng x sort_flag shuffle_flag =
    (let (lst, rng1) = (if shuffle_flag then shuffle rng [0..<length x] else ([0..<length x], rng))
     in (if sort_flag then sort_key (\<lambda>i. - int (length (x ! i))) lst else lst, rng1))"

text \<open>Line 168, with Python's floor division.\<close>

definition nbatch_of :: "nat \<Rightarrow> int \<Rightarrow> error + int" where
  "nbatch_of n batch_size =
    (if batch_size = 0 then Inl ZeroDivisionError else Inr ((int n - 1) div batch_size + 1))"

text \<open>
  Lines 172-181: the loop over \<open>range(nbatch)\<close>. \<open>batches_text\<close> stays empty when no
  text was given.
\<close>

definition build_batches ::
  "string list list \<Rightarrow> string list list \<Rightarrow> int \<Rightarrow> dict \<Rightarrow> dict \<Rightarrow> bool \<Rightarrow> nat
    \<Rightarrow> error + (tensor \<times> tensor \<times> nat list) list" where
  "build_batches x y batch_size word2id label2id sort_flag nbatch =
    sequence (map (\<lambda>i.
        create_one_batch
          (py_slice x (int i * batch_size) ((int i + 1) * batch_size))
          (py_slice y (int i * batch_size) ((int i + 1) * batch_size))
          word2id label2id sort_flag ''<oov>'' ''<pad>'' ''<pad>'')
      [0..<nbatch])"

definition build_text ::
  "string list list option \<Rightarrow> int \<Rightarrow> nat \<Rightarrow> string list list list" where
  "build_text text batch_size nbatch =
    (case text of
       None \<Rightarrow> []
     | Some t \<Rightarrow> map (\<lambda>i. py_slice t (int i * batch_size) ((int i + 1) * batch_size)) [0..<nbatch])"

text \<open>
  Lines 183-191: the reorder of the batches. Line 189 indexes \<open>batches_text\<close> through
  \<open>pos_lst\<close> whether or not a text was given, and line 191 does so again when one was.
\<close>

definition reorder_batches ::
  "nat list \<Rightarrow> tensor list \<Rightarrow> tensor list \<Rightarrow> nat list list \<Rightarrow> string list list list \<Rightarrow> bool
    \<Rightarrow> error + (tensor list \<times> tensor list \<times> nat list list \<times> string list list list option)" where
  "reorder_batches pos_lst batches_x batches_y batches_lens batches_text has_text =
    (case py_gather batches_x pos_lst of Inl e \<Rightarrow> Inl e | Inr rx \<Rightarrow>
     case py_gather batches_y pos_lst of Inl e \<Rightarrow> Inl e | Inr ry \<Rightarrow>
     case py_gather batches_text pos_lst of Inl e \<Rightarrow> Inl e | Inr rt \<Rightarrow>
     case py_gather batches_lens pos_lst of Inl e \<Rightarrow> Inl e | Inr rl \<Rightarrow>
     if has_text
     then (case py_gather rt pos_lst of Inl e \<Rightarrow> Inl e | Inr bt2 \<Rightarrow> Inr (rx, ry, rl, Some bt2))
     else Inr (rx, ry, rl, None))"

text \<open>
  The whole function. The result's last component is \<open>None\<close> where the source returns
  the three-tuple. Line 193 divides by \<open>len(x)\<close>.
\<close>

definition create_batches ::
  "'r shuffler \<Rightarrow> 'r \<Rightarrow> string list list \<Rightarrow> string list list \<Rightarrow> int \<Rightarrow> dict \<Rightarrow> dict \<Rightarrow> bool \<Rightarrow> bool
    \<Rightarrow> string list list option
    \<Rightarrow> error + ((tensor list \<times> tensor list \<times> nat list list \<times> string list list list option) \<times> 'r)"
  where
  "create_batches shuffle rng x y batch_size word2id label2id sort_flag shuffle_flag text =
    (let (lst, rng1) = example_order shuffle rng x sort_flag shuffle_flag
     in case py_gather x lst of Inl e \<Rightarrow> Inl e | Inr x1 \<Rightarrow>
        case py_gather y lst of Inl e \<Rightarrow> Inl e | Inr y1 \<Rightarrow>
        case (case text of None \<Rightarrow> Inr None
              | Some t \<Rightarrow> (case py_gather t lst of Inl e \<Rightarrow> Inl e | Inr t1 \<Rightarrow> Inr (Some t1))) of
          Inl e \<Rightarrow> Inl e
        | Inr text1 \<Rightarrow>
        case nbatch_of (length x1) batch_size of Inl e \<Rightarrow> Inl e | Inr nb \<Rightarrow>
        let nbatch = nat nb in
        case build_batches x1 y1 batch_size word2id label2id sort_flag nbatch of
          Inl e \<Rightarrow> Inl e
        | Inr batches \<Rightarrow>
        let batches_x = map fst batches;
            batches_y = map (fst \<circ> snd) batches;
            batches_lens = map (snd \<circ> snd) batches;
            batches_text = build_text text1 batch_size nbatch
        in case (if sort_flag
                 then (let (pos_lst, rng2) = shuffle rng1 [0..<nbatch]
                       in case reorder_batches pos_lst batches_x batches_y batches_lens batches_text
                                 (text1 \<noteq> None) of
                            Inl e \<Rightarrow> Inl e
                          | Inr r \<Rightarrow> Inr (r, rng2))
                 else Inr ((batches_x, batches_y, batches_lens,
                            (case text1 of None \<Rightarrow> None | Some _ \<Rightarrow> Some batches_text)), rng1)) of
             Inl e \<Rightarrow> Inl e
           | Inr r \<Rightarrow> if length x1 = 0 then Inl ZeroDivisionError else Inr r)"

text \<open>A row of values followed by the fill value up to the width of the tensor.\<close>

definition pad_row :: "nat \<Rightarrow> int \<Rightarrow> int list \<Rightarrow> int list" where
  "pad_row max_len fill vs = vs @ replicate (max_len - length vs) fill"


section \<open>make_dict (lines 61-103)\<close>

text \<open>
  A string is a list of characters of HOL, the code points 0 to 255; the texts modelled
  are those within this range. \<open>str.strip()\<close> removes from both ends the characters
  of which \<open>str.isspace\<close> is true, which in this range are the space, the controls
  0x09 to 0x0D and 0x1C to 0x1F, the next-line control 0x85 and the no-break space 0xA0;
  \<open>str.split('\\n')\<close> keeps empty fields; \<open>s.replace(ab, '')\<close> for a two-character
  pattern removes its occurrences from left to right.
\<close>

definition is_space :: "char \<Rightarrow> bool" where
  "is_space c = (c \<in> set [CHR '' '', CHR 0x09, CHR 0x0A, CHR 0x0B, CHR 0x0C, CHR 0x0D,
                           CHR 0x1C, CHR 0x1D, CHR 0x1E, CHR 0x1F, CHR 0x85, CHR 0xA0])"

definition strip :: "string \<Rightarrow> string" where
  "strip s = rev (dropWhile is_space (rev (dropWhile is_space s)))"

fun split_on :: "char \<Rightarrow> string \<Rightarrow> string list" where
  "split_on c [] = [[]]"
| "split_on c (x # xs) =
    (if x = c then [] # split_on c xs
     else (case split_on c xs of w # ws \<Rightarrow> (x # w) # ws | [] \<Rightarrow> [[x]]))"

fun remove2 :: "char \<Rightarrow> char \<Rightarrow> string \<Rightarrow> string" where
  "remove2 a b (x # y # zs) = (if x = a \<and> y = b then remove2 a b zs else x # remove2 a b (y # zs))"
| "remove2 a b zs = zs"

text \<open>Lines 76-78, before the result is made a set.\<close>

definition purify :: "string list \<Rightarrow> string list" where
  "purify l = map (\<lambda>item. remove2 CHR ''I'' CHR ''-'' (remove2 CHR ''B'' CHR ''-'' item)) l"

text \<open>
  \<open>sorted(list(s))\<close> for a set \<open>s\<close> given by a list of its elements: the order of
  \<open>list(s)\<close> is not fixed, the sorted list of its distinct elements is. Strings are
  compared as Python compares them, lexicographically by character code.
\<close>

definition sorted_set :: "string list \<Rightarrow> string list" where
  "sorted_set xs = sort (remdups xs)"

text \<open>
  The run configuration \<open>opt\<close>, with the fields that the functions modelled here read
  (\<open>opt.model\<close> is \<open>opt_model opt\<close>, and so on).
\<close>

record options =
  opt_label_set_path :: string
  opt_model :: string
  opt_output :: "string option"
  opt_batch_size :: int
  opt_max_epoch :: int
  opt_lr :: real
  opt_lr_decay :: real

text \<open>
  Lines 80-91: the sorted label set, read from the label file (a file system maps a path
  to the text that \<open>reader.read()\<close> returns for it, and a missing file raises) or
  collected from the three tag sets; iterating over a tag set that was left \<open>None\<close> is
  a \<open>TypeError\<close>. The text of the file is stripped as a whole and then split, so
  its lines are taken as they are, neither stripped one by one nor deduplicated.
\<close>

definition flatten :: "string list list option \<Rightarrow> error + string list" where
  "flatten l = (case l of None \<Rightarrow> Inl TypeError | Some ll \<Rightarrow> Inr (concat ll))"

definition label_set_of ::
  "(string \<rightharpoonup> string) \<Rightarrow> 'a options_scheme
    \<Rightarrow> string list list option \<Rightarrow> string list list option \<Rightarrow> string list list option
    \<Rightarrow> error + string list" where
  "label_set_of fs opt train_y dev_y test_y =
    (if opt_label_set_path opt \<noteq> []
     then (case fs (opt_label_set_path opt) of
             None \<Rightarrow> Inl OSError
           | Some content \<Rightarrow> Inr (sort (split_on CHR 0x0A (strip content))))
     else (case flatten train_y of Inl e \<Rightarrow> Inl e | Inr a \<Rightarrow>
           case flatten dev_y of Inl e \<Rightarrow> Inl e | Inr b \<Rightarrow>
           case flatten test_y of Inl e \<Rightarrow> Inl e | Inr c \<Rightarrow>
             Inr (sorted_set (purify a @ purify b @ purify c))))"

text \<open>Line 95-96: \<open>for word in ...: word2id[word] = len(word2id)\<close>.\<close>

fun add_words :: "dict \<Rightarrow> string list \<Rightarrow> dict" where
  "add_words d [] = d"
| "add_words d (word # rest) = add_words (AList.update word (int (length d)) d) rest"

text \<open>Lines 99-101.\<close>

fun add_labels :: "dict \<Rightarrow> string list \<Rightarrow> dict" where
  "add_labels d [] = d"
| "add_labels d (label # rest) =
    (let d1 = AList.update (''B-'' @ label) (int (length d)) d;
         d2 = AList.update (''I-'' @ label) (int (length d1)) d1
     in add_labels d2 rest)"

text \<open>Line 102: \<open>dict\<close> of a list of pairs, a later pair replacing an earlier one.\<close>

definition invert_dict :: "dict \<Rightarrow> (int \<times> string) list" where
  "invert_dict d = fold (\<lambda>(label, idx) m. AList.update idx label m) d []"

definition make_dict ::
  "(string \<rightharpoonup> string) \<Rightarrow> 'a options_scheme \<Rightarrow> string list list
    \<Rightarrow> string list list option \<Rightarrow> string list list option \<Rightarrow> string list list option
    \<Rightarrow> error + (dict \<times> dict \<times> (int \<times> string) list)" where
  "make_dict fs opt train_x train_y dev_y test_y =
    (case label_set_of fs opt train_y dev_y test_y of
       Inl e \<Rightarrow> Inl e
     | Inr label_set \<Rightarrow>
       let word_set = sorted_set (concat train_x);
           word2id = add_words [] ([''<oov>'', ''<pad>''] @ word_set);
           label2id0 = AList.update ''<pad>'' (int (length ([] :: dict))) [];
           label2id1 = AList.update ''O'' (int (length label2id0)) label2id0;
           label2id = add_labels label2id1 label_set;
           id2label = invert_dict label2id
       in Inr (word2id, label2id, id2label))"

section \<open>ClassifyLayer.forward (lines 213-230)\<close>

text \<open>
  Scores are real numbers (a float that is not a number is outside the model). The
  index part of \<open>torch.max(t, 2)\<close> is the position of the first largest entry of
  each innermost row, and the reduction of an empty row raises.
\<close>

fun argmax_from :: "nat \<Rightarrow> real \<Rightarrow> nat \<Rightarrow> real list \<Rightarrow> nat" where
  "argmax_from best_i best_v i [] = best_i"
| "argmax_from best_i best_v i (v # vs) =
    (if best_v < v then argmax_from i v (Suc i) vs else argmax_from best_i best_v (Suc i) vs)"

fun argmax :: "real list \<Rightarrow> error + int" where
  "argmax [] = Inl RuntimeError"
| "argmax (v # vs) = Inr (int (argmax_from 0 v 1 vs))"

definition max_dim2 :: "real list list list \<Rightarrow> error + tensor" where
  "max_dim2 t = sequence (map (\<lambda>row. sequence (map argmax row)) t)"

text \<open>
  \<open>hidden\<close> is the value of \<open>self.hidden2tag(x)\<close>; the log-softmax and the loss
  criterion of the layer are parameters. \<open>tag_result.add_(1)\<close> on line 226 stands
  after the \<open>if\<close>, outside both branches.
\<close>

definition ClassifyLayer_forward ::
  "(real list list list \<Rightarrow> real list list list) \<Rightarrow> (real list list list \<Rightarrow> tensor \<Rightarrow> real)
    \<Rightarrow> dict \<Rightarrow> string \<Rightarrow> bool \<Rightarrow> real list list list \<Rightarrow> tensor \<Rightarrow> error + (tensor \<times> real)" where
  "ClassifyLayer_forward logsoftmax criterion label2id label_pad training hidden y =
    (let tag_scores = (if training then logsoftmax hidden else hidden)
     in case map_of label2id label_pad of
          None \<Rightarrow> Inl KeyError
        | Some pad_id \<Rightarrow>
     (case (if pad_id = 0 then max_dim2 (map (map (drop 1)) tag_scores) else max_dim2 tag_scores) of
        Inl e \<Rightarrow> Inl e
      | Inr tag_result \<Rightarrow>
          Inr (map (map (\<lambda>i. i + 1)) tag_result,
               if training then criterion tag_scores y else 0)))"

section \<open>eval_model (lines 296-335)\<close>

text \<open>
  What a run does to the outside world is a list of events, in order. The model and the
  scorer are collaborators from outside this file: the state of the model is a value of
  type \<open>'m\<close>, one optimisation step and the forward pass in evaluation mode are
  functions on it, and the scorer (the perl script together with the reading of its
  second output line) maps the lines of the rendered file to precision, recall and F1.
\<close>

datatype 'm event =
    Open string
  | Write string
  | Close string
  | RunScorer string
  | Remove string
  | MakeDirs string
  | DumpWord2id string dict
  | DumpLabel2id string dict
  | DumpConfig string options
  | SaveModel string 'm
  | TrainStep tensor tensor
  | LogTrain nat nat
  | LogValid nat real
  | LogNewRecord
  | LogTest nat real real real

record 'm env =
  env_train_step :: "real \<Rightarrow> 'm \<Rightarrow> tensor \<Rightarrow> tensor \<Rightarrow> error + 'm"
  env_forward_eval :: "'m \<Rightarrow> tensor \<Rightarrow> tensor \<Rightarrow> error + tensor"
  env_scorer :: "string list \<Rightarrow> error + (real \<times> real \<times> real)"
  env_tmp_path :: string

text \<open>
  Line 314: \<open>'{1} {2} {3}'.format(k + 1, word, true_tag, predict_tag)\<close>. The format
  string refers to the arguments 1, 2 and 3; argument 0, the index, is passed and not
  printed.
\<close>

definition format_line :: "nat \<Rightarrow> string \<Rightarrow> string \<Rightarrow> string \<Rightarrow> string" where
  "format_line idx word true_tag predict_tag = word @ '' '' @ true_tag @ '' '' @ predict_tag"

definition id2label_get :: "(int \<times> string) list \<Rightarrow> int \<Rightarrow> error + string" where
  "id2label_get id2label i = (case map_of id2label i of None \<Rightarrow> Inl KeyError | Some l \<Rightarrow> Inr l)"

text \<open>Lines 309-316: the lines of one sentence, then the empty line.\<close>

definition render_sentence ::
  "(int \<times> string) list \<Rightarrow> string list \<Rightarrow> int list \<Rightarrow> int list \<Rightarrow> error + string list" where
  "render_sentence id2label words trues preds =
    (case sequence (map (\<lambda>(k, word, true_tag, predict_tag).
            case id2label_get id2label true_tag of
              Inl e \<Rightarrow> Inl e
            | Inr tt \<Rightarrow>
           (case id2label_get id2label predict_tag of
              Inl e \<Rightarrow> Inl e
            | Inr pt \<Rightarrow> Inr (format_line (k + 1) word tt pt)))
          (enumerate 0 (zip words (zip trues preds)))) of
       Inl e \<Rightarrow> Inl e
     | Inr ls \<Rightarrow> Inr (ls @ [[]]))"

text \<open>Lines 305-316 for one batch: the forward pass, then every row of the batch.\<close>

definition render_batch ::
  "'m env \<Rightarrow> 'm \<Rightarrow> (int \<times> string) list \<Rightarrow> tensor \<Rightarrow> tensor \<Rightarrow> string list list
    \<Rightarrow> error + string list" where
  "render_batch env m id2label x y txt =
    (case env_forward_eval env m x y of
       Inl e \<Rightarrow> Inl e
     | Inr output_data \<Rightarrow>
      (case sequence (map (\<lambda>bid.
              case py_index txt bid of Inl e \<Rightarrow> Inl e | Inr words \<Rightarrow>
              case py_index y bid of Inl e \<Rightarrow> Inl e | Inr trues \<Rightarrow>
              case py_index output_data bid of Inl e \<Rightarrow> Inl e | Inr preds \<Rightarrow>
                render_sentence id2label words trues preds)
            [0..<length x]) of
         Inl e \<Rightarrow> Inl e
       | Inr ls \<Rightarrow> Inr (concat ls)))"

text \<open>
  The whole function: the file is opened, written batch by batch over
  \<open>zip(valid_x, valid_y, valid_lens, valid_text)\<close>, closed, given to the scorer and
  removed. The result carries the events of the call.
\<close>

definition eval_model ::
  "'m env \<Rightarrow> 'm \<Rightarrow> tensor list \<Rightarrow> tensor list \<Rightarrow> nat list list \<Rightarrow> string list list list
    \<Rightarrow> (int \<times> string) list \<Rightarrow> 'a options_scheme
    \<Rightarrow> error + ((real \<times> real \<times> real) \<times> 'm event list)" where
  "eval_model env m valid_x valid_y valid_lens valid_text id2label opt =
    (let output_path = (case opt_output opt of Some p \<Rightarrow> p | None \<Rightarrow> env_tmp_path env)
     in case sequence (map (\<lambda>(x, y, lens, txt). render_batch env m id2label x y txt)
               (zip valid_x (zip valid_y (zip valid_lens valid_text)))) of
          Inl e \<Rightarrow> Inl e
        | Inr ls \<Rightarrow>
         (case env_scorer env (concat ls) of
            Inl e \<Rightarrow> Inl e
          | Inr prf \<Rightarrow>
              Inr (prf, [Open output_path] @ map Write (concat ls)
                        @ [Close output_path, RunScorer output_path, Remove output_path])))"

section \<open>train_model (lines 338-385)\<close>

text \<open>Lines 350-354: the batches of the training set in the order of this epoch.\<close>

definition epoch_order ::
  "'r shuffler \<Rightarrow> 'r \<Rightarrow> tensor list \<Rightarrow> tensor list \<Rightarrow> nat list list
    \<Rightarrow> error + ((tensor \<times> tensor \<times> nat list) list \<times> 'r)" where
  "epoch_order shuffle rng train_x train_y train_lens =
    (let (lst, rng1) = shuffle rng [0..<length train_x]
     in case py_gather train_x lst of Inl e \<Rightarrow> Inl e | Inr gx \<Rightarrow>
        case py_gather train_y lst of Inl e \<Rightarrow> Inl e | Inr gy \<Rightarrow>
        case py_gather train_lens lst of Inl e \<Rightarrow> Inl e | Inr gl \<Rightarrow>
          Inr (zip gx (zip gy gl), rng1))"

text \<open>
  Lines 356-370: one optimisation step per batch (forward pass, loss, backward pass,
  gradient clipping and optimizer step are the collaborator \<open>env_train_step\<close>, which
  is given the learning rate); the trace records the step with its batch. Every time
  \<open>cnt * opt.batch_size % 1024 == 0\<close> a line is logged, which divides by
  \<open>n_tags = sum(lens)\<close>.
\<close>

fun train_batches ::
  "'m env \<Rightarrow> real \<Rightarrow> int \<Rightarrow> nat \<Rightarrow> nat \<Rightarrow> 'm \<Rightarrow> (tensor \<times> tensor \<times> nat list) list
    \<Rightarrow> error + ('m \<times> 'm event list)" where
  "train_batches env lr bs epoch cnt m [] = Inr (m, [])"
| "train_batches env lr bs epoch cnt m ((x, y, lens) # rest) =
    (case env_train_step env lr m x y of
       Inl e \<Rightarrow> Inl e
     | Inr m1 \<Rightarrow>
       if (int (cnt + 1) * bs) mod 1024 = 0 \<and> sum_list lens = 0 then Inl ZeroDivisionError
       else (case train_batches env lr bs epoch (cnt + 1) m1 rest of
               Inl e \<Rightarrow> Inl e
             | Inr (m2, ev) \<Rightarrow>
                 Inr (m2, TrainStep x y
                          # (if (int (cnt + 1) * bs) mod 1024 = 0 then [LogTrain epoch (cnt + 1)] else [])
                          @ ev)))"

text \<open>\<open>os.path.join\<close> of a directory and a file name.\<close>

definition path_join :: "string \<Rightarrow> string \<Rightarrow> string" where
  "path_join a b = (if a = [] then b else if last a = CHR ''/'' then a @ b else a @ ''/'' @ b)"

text \<open>
  The validation and the test set are passed as the four lists that \<open>create_batches\<close>
  returned for them, kept together here.
\<close>

type_synonym batches = "tensor list \<times> tensor list \<times> nat list list \<times> string list list list"

text \<open>
  The function returns \<open>best_valid\<close> and \<open>test_f1_score\<close>; the model returns them
  together with the trained model, the generator state and the events of the call.
\<close>

definition train_model ::
  "'m env \<Rightarrow> 'r shuffler \<Rightarrow> 'r \<Rightarrow> real \<Rightarrow> nat \<Rightarrow> 'm
    \<Rightarrow> tensor list \<times> tensor list \<times> nat list list \<Rightarrow> batches \<Rightarrow> batches
    \<Rightarrow> (int \<times> string) list \<Rightarrow> real \<Rightarrow> real \<Rightarrow> 'a options_scheme
    \<Rightarrow> error + (real \<times> real \<times> 'm \<times> 'r \<times> 'm event list)" where
  "train_model env shuffle rng lr epoch m train valid test ix2label best_valid test_f1_score opt =
    (case train of (train_x, train_y, train_lens) \<Rightarrow>
     case valid of (valid_x, valid_y, valid_lens, valid_text) \<Rightarrow>
     case test of (test_x, test_y, test_lens, test_text) \<Rightarrow>
     case epoch_order shuffle rng train_x train_y train_lens of
       Inl e \<Rightarrow> Inl e
     | Inr (ordered, rng1) \<Rightarrow>
     case train_batches env lr (opt_batch_size opt) epoch 0 m ordered of
       Inl e \<Rightarrow> Inl e
     | Inr (m1, ev_train) \<Rightarrow>
     case eval_model env m1 valid_x valid_y valid_lens valid_text ix2label opt of
       Inl e \<Rightarrow> Inl e
     | Inr ((dev_precision, dev_recall, dev_f1_score), ev_dev) \<Rightarrow>
     if dev_f1_score > best_valid
     then (case eval_model env m1 test_x test_y test_lens test_text ix2label opt of
             Inl e \<Rightarrow> Inl e
           | Inr ((test_precision, test_recall, test_f1), ev_test) \<Rightarrow>
               Inr (dev_f1_score, test_f1, m1, rng1,
                    ev_train @ ev_dev @ [LogValid epoch dev_f1_score]
                    @ [SaveModel (path_join (opt_model opt) ''model.pl'') m1]
                    @ ev_test @ [LogNewRecord, LogTest epoch test_precision test_recall test_f1]))
     else Inr (best_valid, test_f1_score, m1, rng1,
               ev_train @ ev_dev @ [LogValid epoch dev_f1_score]))"

section \<open>train_and_test (lines 388-456)\<close>

text \<open>
  The variables of the epoch loop, and the events of every call of \<open>train_model\<close>, one
  list per epoch.
\<close>

record ('m, 'r) loop_state =
  st_rng :: 'r
  st_lr :: real
  st_model :: 'm
  st_best_valid :: real
  st_test_result :: real
  st_trace :: "'m event list list"

text \<open>Lines 441-454, over the epochs \<open>range(opt.max_epoch)\<close>.\<close>

fun epoch_loop ::
  "'m env \<Rightarrow> 'r shuffler \<Rightarrow> 'a options_scheme
    \<Rightarrow> tensor list \<times> tensor list \<times> nat list list \<Rightarrow> batches \<Rightarrow> batches \<Rightarrow> (int \<times> string) list
    \<Rightarrow> nat list \<Rightarrow> ('m, 'r) loop_state \<Rightarrow> error + ('m, 'r) loop_state" where
  "epoch_loop env shuffle opt train valid test id2label [] st = Inr st"
| "epoch_loop env shuffle opt train valid test id2label (epoch # rest) st =
    (case train_model env shuffle (st_rng st) (st_lr st) epoch (st_model st) train valid test
            id2label (st_best_valid st) (st_test_result st) opt of
       Inl e \<Rightarrow> Inl e
     | Inr (best_valid, test_result, m, rng, ev) \<Rightarrow>
         epoch_loop env shuffle opt train valid test id2label rest
           \<lparr>st_rng = rng,
            st_lr = (if opt_lr_decay opt > 0 then st_lr st * opt_lr_decay opt else st_lr st),
            st_model = m, st_best_valid = best_valid, st_test_result = test_result,
            st_trace = st_trace st @ [ev]\<rparr>)"

text \<open>
  The whole run. The loaded data sets are arguments; the embedding layer and the model
  built on it come from the collaborators \<open>load_embedding\<close> and \<open>Model\<close>;
  \<open>makedirs_fails\<close> says that \<open>os.makedirs\<close> raises an error other than "exists".
  The training set is batched once, with the defaults \<open>sort=True, shuffle=True\<close>, before
  the loop. The result is the events before the loop and the final state of the loop.
\<close>

definition train_and_test ::
  "'m env \<Rightarrow> 'r shuffler \<Rightarrow> 'r \<Rightarrow> (string \<rightharpoonup> string) \<Rightarrow> (dict \<Rightarrow> error + 'm)
    \<Rightarrow> ('m \<Rightarrow> nat \<Rightarrow> dict \<Rightarrow> error + 'm) \<Rightarrow> bool \<Rightarrow> options
    \<Rightarrow> string list list \<Rightarrow> string list list \<Rightarrow> string list list \<Rightarrow> string list list
    \<Rightarrow> string list list \<Rightarrow> string list list
    \<Rightarrow> error + ('m event list \<times> ('m, 'r) loop_state)" where
  "train_and_test env shuffle rng fs load_embedding Model makedirs_fails opt
      train_x train_y dev_x dev_y test_x test_y =
    (case make_dict fs opt train_x (Some train_y) (Some dev_y) (Some test_y) of
       Inl e \<Rightarrow> Inl e
     | Inr (word2id, label2id, id2label) \<Rightarrow>
     case load_embedding word2id of
       Inl e \<Rightarrow> Inl e
     | Inr embedding_layer \<Rightarrow>
     case create_batches shuffle rng train_x train_y (opt_batch_size opt) word2id label2id
            True True (Some train_x) of
       Inl e \<Rightarrow> Inl e
     | Inr ((tr_x, tr_y, tr_lens, tr_text), rng1) \<Rightarrow>
     case create_batches shuffle rng1 dev_x dev_y (opt_batch_size opt) word2id label2id
            False False (Some dev_x) of
       Inl e \<Rightarrow> Inl e
     | Inr ((dv_x, dv_y, dv_lens, dv_text), rng2) \<Rightarrow>
     case create_batches shuffle rng2 test_x test_y (opt_batch_size opt) word2id label2id
            False False (Some test_x) of
       Inl e \<Rightarrow> Inl e
     | Inr ((te_x, te_y, te_lens, te_text), rng3) \<Rightarrow>
     case Model embedding_layer (length label2id) label2id of
       Inl e \<Rightarrow> Inl e
     | Inr m \<Rightarrow>
     if makedirs_fails then Inl OSError
     else
       (case epoch_loop env shuffle opt (tr_x, tr_y, tr_lens)
               (dv_x, dv_y, dv_lens, the dv_text) (te_x, te_y, te_lens, the te_text) id2label
               [0..<nat (opt_max_epoch opt)]
               \<lparr>st_rng = rng3, st_lr = opt_lr opt, st_model = m,
                st_best_valid = - 100000000, st_test_result = - 100000000, st_trace = []\<rparr> of
          Inl e \<Rightarrow> Inl e
        | Inr st \<Rightarrow>
            Inr ([MakeDirs (opt_model opt),
                  DumpWord2id (path_join (opt_model opt) ''word2id.dict'') word2id,
                  DumpLabel2id (path_join (opt_model opt) ''label2id.dict'') label2id,
                  DumpConfig (path_join (opt_model opt) ''config.dict'') opt], st)))"

section \<open>Notions used to state the properties of the run\<close>

text \<open>What a list of events holds of each kind.\<close>

definition dev_f1s :: "'m event list \<Rightarrow> real list" where
  "dev_f1s ev = concat (map (\<lambda>e. case e of LogValid ep f \<Rightarrow> [f] | _ \<Rightarrow> []) ev)"

definition saves :: "'m event list \<Rightarrow> (string \<times> 'm) list" where
  "saves ev = concat (map (\<lambda>e. case e of SaveModel p m \<Rightarrow> [(p, m)] | _ \<Rightarrow> []) ev)"

definition test_f1s :: "'m event list \<Rightarrow> real list" where
  "test_f1s ev = concat (map (\<lambda>e. case e of LogTest ep p r f \<Rightarrow> [f] | _ \<Rightarrow> []) ev)"

definition steps :: "'m event list \<Rightarrow> (tensor \<times> tensor) list" where
  "steps ev = concat (map (\<lambda>e. case e of TrainStep x y \<Rightarrow> [(x, y)] | _ \<Rightarrow> []) ev)"

definition dumps :: "'m event list \<Rightarrow> 'm event list" where
  "dumps ev = filter (\<lambda>e. case e of DumpWord2id p d \<Rightarrow> True | DumpLabel2id p d \<Rightarrow> True
                              | DumpConfig p c \<Rightarrow> True | MakeDirs p \<Rightarrow> True | _ \<Rightarrow> False) ev"

text \<open>
  The rendering of one sentence as the properties below state it: one line per token, the
  word, the gold tag and the predicted tag separated by single spaces, for as many
  positions as the words, the gold row and the predicted row all have, then an empty line.
\<close>

definition sentence_lines ::
  "(int \<times> string) list \<Rightarrow> string list \<Rightarrow> int list \<Rightarrow> int list \<Rightarrow> string list" where
  "sentence_lines id2label words trues preds =
    map (\<lambda>(word, true_tag, predict_tag).
           word @ '' '' @ the (map_of id2label true_tag) @ '' '' @ the (map_of id2label predict_tag))
        (zip words (zip trues preds)) @ [[]]"

text \<open>
  The label entries as the specification describes them: for each base label in order,
  its \<open>B-\<close> and \<open>I-\<close> variants at adjacent ids, counting from \<open>n\<close>.
\<close>

fun bio_pairs :: "int \<Rightarrow> string list \<Rightarrow> dict" where
  "bio_pairs n [] = []"
| "bio_pairs n (label # rest) =
    (''B-'' @ label, n) # (''I-'' @ label, n + 1) # bio_pairs (n + 2) rest"

text \<open>
  The base label of a tag as the specification describes it: the tag without its \<open>B-\<close>
  or \<open>I-\<close> prefix, and the tag itself when it has neither.
\<close>

definition strip_bio_prefix :: "string \<Rightarrow> string" where
  "strip_bio_prefix t = (if take 2 t = ''B-'' \<or> take 2 t = ''I-'' then drop 2 t else t)"

text \<open>The two characters \<open>a\<close>, \<open>b\<close> occur one after the other in a string.\<close>

fun occurs2 :: "char \<Rightarrow> char \<Rightarrow> string \<Rightarrow> bool" where
  "occurs2 a b (x # y # zs) = ((x = a \<and> y = b) \<or> occurs2 a b (y # zs))"
| "occurs2 a b zs = False"

section \<open>Notions used to state the properties of the batches\<close>





section \<open>Properties of the batching functions\<close>

lemma sequence_map_Inr: "sequence (map Inr vs) = Inr vs"
  by (induction vs) auto

lemma sequence_Inr_iff: "sequence rs = Inr vs \<longleftrightarrow> rs = map Inr vs"
proof
  show "sequence rs = Inr vs \<Longrightarrow> rs = map Inr vs"
    by (induction rs arbitrary: vs) (auto split: sum.splits)
qed (simp add: sequence_map_Inr)

lemma sequence_map_ok:
  "(\<And>a. a \<in> set xs \<Longrightarrow> f a = Inr (g a)) \<Longrightarrow> sequence (map f xs) = Inr (map g xs)"
  by (induction xs) auto

lemma py_gather_ok:
  "(\<And>i. i \<in> set idxs \<Longrightarrow> i < length xs) \<Longrightarrow> py_gather xs idxs = Inr (map (\<lambda>i. xs ! i) idxs)"
  unfolding py_gather_def by (rule sequence_map_ok) (simp add: py_index_def)

lemma py_gather_Inr:
  "py_gather xs idxs = Inr ys \<Longrightarrow> ys = map (\<lambda>i. xs ! i) idxs \<and> (\<forall>i\<in>set idxs. i < length xs)"
  unfolding py_gather_def
  by (induction idxs arbitrary: ys) (auto simp: py_index_def split: sum.splits if_splits)

lemma py_gather_IndexError:
  "i \<in> set idxs \<Longrightarrow> \<not> i < length xs \<Longrightarrow> py_gather xs idxs = Inl IndexError"
  unfolding py_gather_def
  by (induction idxs) (auto simp: py_index_def split: sum.splits)

lemma py_gather_Inl: "py_gather xs idxs = Inl e \<Longrightarrow> e = IndexError"
  unfolding py_gather_def
  by (induction idxs) (auto simp: py_index_def split: sum.splits if_splits)


lemma py_max_Max: "xs \<noteq> [] \<Longrightarrow> py_max xs = Inr (Max (set xs))"
  by (cases xs) (simp_all flip: Max.set_eq_fold)

lemma fill_row_ok:
  "j + length vs \<le> length row \<Longrightarrow>
   fill_row row j (map Inr vs) = Inr (take j row @ vs @ drop (j + length vs) row)"
proof (induction vs arbitrary: row j)
  case Nil
  then show ?case by simp
next
  case (Cons a vs)
  then have "j < length row" by simp
  moreover have "take (Suc j) (row[j := a]) = take j row @ [a]"
    using \<open>j < length row\<close> by (simp add: take_Suc_conv_app_nth)
  ultimately show ?case using Cons by simp
qed

lemma fill_row_replicate:
  "length vs \<le> max_len \<Longrightarrow>
   fill_row (replicate max_len fill) 0 (map Inr vs) = Inr (pad_row max_len fill vs)"
  using fill_row_ok [of 0 vs "replicate max_len fill"] by (simp add: pad_row_def)

lemma fill_tensor_ok:
  assumes "\<And>r. r \<in> set rows \<Longrightarrow> length r \<le> max_len"
  shows "fill_tensor max_len fill (map (map Inr) rows) = Inr (map (pad_row max_len fill) rows)"
  unfolding fill_tensor_def map_map
  by (rule sequence_map_ok) (simp add: fill_row_replicate assms)

lemma mset_batch_order: "mset (batch_order x s) = mset [0..<length x]"
  by (simp add: batch_order_def)

lemma set_batch_order: "set (batch_order x s) = {0..<length x}"
  using mset_batch_order [of x s] by (metis mset_eq_setD set_upt)

lemma length_batch_order: "length (batch_order x s) = length x"
  by (simp add: batch_order_def)

lemma distinct_batch_order: "distinct (batch_order x s)"
  using mset_batch_order [of x s] by (metis distinct_upt mset_eq_imp_distinct_iff)

lemma label_rows_Inr:
  assumes "\<And>t. t \<in> set ts \<Longrightarrow> map_of label2id t \<noteq> None"
  shows "map (label_id label2id) ts = map Inr (map (\<lambda>t. the (map_of label2id t)) ts)"
proof -
  have "label_id label2id t = Inr (the (map_of label2id t))" if "t \<in> set ts" for t
    using assms [OF that] by (auto simp: label_id_def)
  then show ?thesis by simp
qed

lemma set_batch_lens:
  "set (map (\<lambda>i. length (map (\<lambda>k. x ! k) (batch_order x s) ! i)) (batch_order x s)) = length ` set x"
proof -
  let ?lst = "batch_order x s"
  have "set (map (\<lambda>i. length (map (\<lambda>k. x ! k) ?lst ! i)) ?lst)
        = (\<lambda>i. length (x ! (?lst ! i))) ` {0..<length x}"
    by (auto simp: set_batch_order length_batch_order)
  also have "\<dots> = (\<lambda>k. length (x ! k)) ` ((\<lambda>i. ?lst ! i) ` {0..<length x})"
    by (simp add: image_image)
  also have "(\<lambda>i. ?lst ! i) ` {0..<length x} = set ?lst"
    using length_batch_order [of x s] by (metis atLeast0LessThan nth_image take_all order_refl)
  also have "(\<lambda>k. length (x ! k)) ` set ?lst = length ` set x"
    unfolding set_batch_order
    by (metis (no_types, lifting) image_cong image_image map_nth set_map set_upt)
  finally show ?thesis .
qed

lemma create_one_batch_ok:
  assumes ne: "x \<noteq> []" and len: "length x \<le> length y"
    and oov: "map_of word2id oov = Some oov_id" and pad: "map_of word2id pad = Some pad_id"
    and lpad: "map_of label2id label_pad = Some label_pad_id"
    and ylen: "\<And>i. i < length x \<Longrightarrow> length (y ! i) \<le> Max (length ` set x)"
    and known: "\<And>i t. i < length x \<Longrightarrow> t \<in> set (y ! i) \<Longrightarrow> map_of label2id t \<noteq> None"
  shows "create_one_batch x y word2id label2id s oov pad label_pad =
      Inr (map (\<lambda>k. pad_row (Max (length ` set x)) pad_id (map (word_id word2id oov_id) (x ! k)))
             (batch_order x s),
           map (\<lambda>k. pad_row (Max (length ` set x)) label_pad_id
                  (map (\<lambda>t. the (map_of label2id t)) (y ! k))) (batch_order x s),
           map (\<lambda>i. length (map (\<lambda>k. x ! k) (batch_order x s) ! i)) (batch_order x s))"
proof -
  let ?lst = "batch_order x s"
  let ?M = "Max (length ` set x)"
  let ?lens = "map (\<lambda>i. length (map (\<lambda>k. x ! k) ?lst ! i)) ?lst"
  have in_range: "\<And>k. k \<in> set ?lst \<Longrightarrow> k < length x"
    by (simp add: set_batch_order)
  have gy: "py_gather y ?lst = Inr (map (\<lambda>i. y ! i) ?lst)"
    using in_range len by (intro py_gather_ok) fastforce
  have "length ?lens = length x" by (simp add: length_batch_order)
  with ne have "?lens \<noteq> []" by (metis length_0_conv)
  then have "py_max ?lens = Inr (Max (set ?lens))"
    by (rule py_max_Max)
  then have mx: "py_max ?lens = Inr ?M"
    by (simp only: set_batch_lens)
  have fx: "fill_tensor ?M pad_id (map (map (\<lambda>w. Inr (word_id word2id oov_id w))) (map (\<lambda>k. x ! k) ?lst))
      = Inr (map (\<lambda>k. pad_row ?M pad_id (map (word_id word2id oov_id) (x ! k))) ?lst)"
  proof -
    let ?rows = "map (\<lambda>k. map (word_id word2id oov_id) (x ! k)) ?lst"
    have bd: "\<And>r. r \<in> set ?rows \<Longrightarrow> length r \<le> ?M"
      using in_range by (auto intro!: Max_ge)
    have "fill_tensor ?M pad_id (map (map (\<lambda>w. Inr (word_id word2id oov_id w))) (map (\<lambda>k. x ! k) ?lst))
        = fill_tensor ?M pad_id (map (map Inr) ?rows)"
      by (simp add: comp_def)
    also have "\<dots> = Inr (map (pad_row ?M pad_id) ?rows)"
      by (rule fill_tensor_ok) (rule bd)
    also have "\<dots> = Inr (map (\<lambda>k. pad_row ?M pad_id (map (word_id word2id oov_id) (x ! k))) ?lst)"
      by (simp add: comp_def)
    finally show ?thesis .
  qed
  have fy: "fill_tensor ?M label_pad_id (map (map (label_id label2id)) (map (\<lambda>i. y ! i) ?lst))
      = Inr (map (\<lambda>k. pad_row ?M label_pad_id (map (\<lambda>t. the (map_of label2id t)) (y ! k))) ?lst)"
  proof -
    let ?rows = "map (\<lambda>k. map (\<lambda>t. the (map_of label2id t)) (y ! k)) ?lst"
    have bd: "\<And>r. r \<in> set ?rows \<Longrightarrow> length r \<le> ?M"
      using in_range ylen by auto
    have "map (map (label_id label2id)) (map (\<lambda>i. y ! i) ?lst) = map (map Inr) ?rows"
      using in_range known by (fastforce simp: label_id_def)
    then have "fill_tensor ?M label_pad_id (map (map (label_id label2id)) (map (\<lambda>i. y ! i) ?lst))
        = fill_tensor ?M label_pad_id (map (map Inr) ?rows)"
      by (simp only:)
    also have "\<dots> = Inr (map (pad_row ?M label_pad_id) ?rows)"
      by (rule fill_tensor_ok) (rule bd)
    also have "\<dots> = Inr (map (\<lambda>k. pad_row ?M label_pad_id (map (\<lambda>t. the (map_of label2id t)) (y ! k))) ?lst)"
      by (simp add: comp_def)
    finally show ?thesis .
  qed
  show ?thesis
    unfolding create_one_batch_def Let_def
    by (simp only: gy mx fx fy oov pad lpad sum.case option.case prod.case)
qed

lemma nth_pad_row_lt: "j < length vs \<Longrightarrow> pad_row m f vs ! j = vs ! j"
  by (simp add: pad_row_def nth_append)

lemma nth_pad_row_ge: "length vs \<le> j \<Longrightarrow> j < m \<Longrightarrow> pad_row m f vs ! j = f"
  by (simp add: pad_row_def nth_append)

lemma length_pad_row: "length vs \<le> m \<Longrightarrow> length (pad_row m f vs) = m"
  by (simp add: pad_row_def)

text \<open>
  Claim C3. For a non-empty batch of examples whose tags are all known to \<open>label2id\<close>
  and whose tag sequences are as long as their token sequences, \<open>create_one_batch\<close>
  returns; row \<open>i\<close> of either tensor belongs to the example at position
  \<open>batch_order x sort_flag ! i\<close>; in the token tensor the cells below that example's
  length hold the \<open>word2id\<close> entry of the token, or the out-of-vocabulary id when the
  token has none, and the cells from the length up to the longest length of the batch hold
  the pad id; in the label tensor the cells below the length hold the \<open>label2id\<close>
  entry of the tag and the cells beyond hold the pad-label id. Nothing is asked of the tokens.
\<close>

theorem create_one_batch_padding:
  assumes ne: "x \<noteq> []" and len: "length x \<le> length y"
    and oov: "map_of word2id oov = Some oov_id" and pad: "map_of word2id pad = Some pad_id"
    and lpad: "map_of label2id label_pad = Some label_pad_id"
    and ex: "\<forall>(tokens, tags) \<in> set (zip x y).
               length tags = length tokens \<and> (\<forall>t \<in> set tags. map_of label2id t \<noteq> None)"
  shows "\<exists>batch_x batch_y lens.
      create_one_batch x y word2id label2id sort_flag oov pad label_pad = Inr (batch_x, batch_y, lens)
      \<and> length batch_x = length x \<and> length batch_y = length x
      \<and> (\<forall>i<length x.
            let k = batch_order x sort_flag ! i; true_length = length (x ! k);
                max_len = Max (length ` set x)
            in length (batch_x ! i) = max_len \<and> length (batch_y ! i) = max_len
               \<and> (\<forall>j<true_length. batch_x ! i ! j =
                     (case map_of word2id (x ! k ! j) of Some v \<Rightarrow> v | None \<Rightarrow> oov_id))
               \<and> (\<forall>j. true_length \<le> j \<and> j < max_len \<longrightarrow> batch_x ! i ! j = pad_id)
               \<and> (\<forall>j<true_length. map_of label2id (y ! k ! j) = Some (batch_y ! i ! j))
               \<and> (\<forall>j. true_length \<le> j \<and> j < max_len \<longrightarrow> batch_y ! i ! j = label_pad_id))"
proof -
  let ?lst = "batch_order x sort_flag"
  let ?M = "Max (length ` set x)"
  have pair: "length (y ! i) = length (x ! i) \<and> (\<forall>t \<in> set (y ! i). map_of label2id t \<noteq> None)"
    if "i < length x" for i
  proof -
    have "(x ! i, y ! i) \<in> set (zip x y)"
      using that len by (auto simp: set_zip)
    with ex show ?thesis by blast
  qed
  have xM: "length (x ! i) \<le> ?M" if "i < length x" for i
    using that by (auto intro!: Max_ge)
  have eq: "create_one_batch x y word2id label2id sort_flag oov pad label_pad =
      Inr (map (\<lambda>k. pad_row ?M pad_id (map (word_id word2id oov_id) (x ! k))) ?lst,
           map (\<lambda>k. pad_row ?M label_pad_id (map (\<lambda>t. the (map_of label2id t)) (y ! k))) ?lst,
           map (\<lambda>i. length (map (\<lambda>k. x ! k) ?lst ! i)) ?lst)"
    using pair xM by (intro create_one_batch_ok [OF ne len oov pad lpad]) auto
  have cells: "let k = ?lst ! i; true_length = length (x ! k); max_len = ?M
      in length (map (\<lambda>k. pad_row ?M pad_id (map (word_id word2id oov_id) (x ! k))) ?lst ! i) = max_len
       \<and> length (map (\<lambda>k. pad_row ?M label_pad_id (map (\<lambda>t. the (map_of label2id t)) (y ! k))) ?lst ! i) = max_len
       \<and> (\<forall>j<true_length. map (\<lambda>k. pad_row ?M pad_id (map (word_id word2id oov_id) (x ! k))) ?lst ! i ! j =
             (case map_of word2id (x ! k ! j) of Some v \<Rightarrow> v | None \<Rightarrow> oov_id))
       \<and> (\<forall>j. true_length \<le> j \<and> j < max_len \<longrightarrow>
             map (\<lambda>k. pad_row ?M pad_id (map (word_id word2id oov_id) (x ! k))) ?lst ! i ! j = pad_id)
       \<and> (\<forall>j<true_length. map_of label2id (y ! k ! j) =
             Some (map (\<lambda>k. pad_row ?M label_pad_id (map (\<lambda>t. the (map_of label2id t)) (y ! k))) ?lst ! i ! j))
       \<and> (\<forall>j. true_length \<le> j \<and> j < max_len \<longrightarrow>
             map (\<lambda>k. pad_row ?M label_pad_id (map (\<lambda>t. the (map_of label2id t)) (y ! k))) ?lst ! i ! j = label_pad_id)"
    if i: "i < length x" for i
  proof -
    let ?k = "?lst ! i"
    have il: "i < length ?lst" using i by (simp add: length_batch_order)
    then have "?k \<in> set ?lst" by simp
    then have k: "?k < length x" by (simp add: set_batch_order)
    note pk = pair [OF k] and mk = xM [OF k]
    have known: "map_of label2id (y ! ?k ! j) = Some (the (map_of label2id (y ! ?k ! j)))"
      if "j < length (x ! ?k)" for j
    proof -
      from that pk have "y ! ?k ! j \<in> set (y ! ?k)" by simp
      with pk show ?thesis by auto
    qed
    show ?thesis
      unfolding Let_def
      using il pk mk known
      by (simp add: nth_pad_row_lt nth_pad_row_ge length_pad_row word_id_def)
  qed
  show ?thesis
    unfolding eq using cells by (simp add: length_batch_order)
qed

theorem create_one_batch_padding_witness:
  "\<exists>batch_x batch_y lens.
     create_one_batch [[''a''], [''q'', ''b'']] [[''O''], [''O'', ''B-X'']]
       [(''<oov>'', 0), (''<pad>'', 1), (''a'', 2), (''b'', 3)]
       [(''<pad>'', 0), (''O'', 1), (''B-X'', 2)] True ''<oov>'' ''<pad>'' ''<pad>''
       = Inr (batch_x, batch_y, lens)
     \<and> batch_x ! 0 ! 0 = 0 \<and> batch_x ! 0 ! 1 = 3 \<and> batch_x ! 1 ! 0 = 2 \<and> batch_x ! 1 ! 1 = 1
     \<and> batch_y ! 0 ! 0 = 1 \<and> batch_y ! 0 ! 1 = 2 \<and> batch_y ! 1 ! 0 = 1 \<and> batch_y ! 1 ! 1 = 0"
proof -
  let ?x = "[[''a''], [''q'', ''b'']]"
  let ?y = "[[''O''], [''O'', ''B-X'']]"
  let ?w = "[(''<oov>'', 0::int), (''<pad>'', 1), (''a'', 2), (''b'', 3)]"
  let ?l = "[(''<pad>'', 0::int), (''O'', 1), (''B-X'', 2)]"
  have bo: "batch_order ?x True = [1, 0]"
    by (simp add: batch_order_def upt_rec)
  have mx: "Max (length ` set ?x) = 2"
    by simp
  have "\<exists>batch_x batch_y lens.
      create_one_batch ?x ?y ?w ?l True ''<oov>'' ''<pad>'' ''<pad>'' = Inr (batch_x, batch_y, lens)
      \<and> length batch_x = length ?x \<and> length batch_y = length ?x
      \<and> (\<forall>i<length ?x.
            let k = batch_order ?x True ! i; true_length = length (?x ! k);
                max_len = Max (length ` set ?x)
            in length (batch_x ! i) = max_len \<and> length (batch_y ! i) = max_len
               \<and> (\<forall>j<true_length. batch_x ! i ! j =
                     (case map_of ?w (?x ! k ! j) of Some v \<Rightarrow> v | None \<Rightarrow> 0))
               \<and> (\<forall>j. true_length \<le> j \<and> j < max_len \<longrightarrow> batch_x ! i ! j = 1)
               \<and> (\<forall>j<true_length. map_of ?l (?y ! k ! j) = Some (batch_y ! i ! j))
               \<and> (\<forall>j. true_length \<le> j \<and> j < max_len \<longrightarrow> batch_y ! i ! j = 0))"
    by (rule create_one_batch_padding) simp_all
  then obtain batch_x batch_y lens where
    r: "create_one_batch ?x ?y ?w ?l True ''<oov>'' ''<pad>'' ''<pad>'' = Inr (batch_x, batch_y, lens)"
    and c: "\<forall>i<length ?x.
            let k = batch_order ?x True ! i; true_length = length (?x ! k);
                max_len = Max (length ` set ?x)
            in length (batch_x ! i) = max_len \<and> length (batch_y ! i) = max_len
               \<and> (\<forall>j<true_length. batch_x ! i ! j =
                     (case map_of ?w (?x ! k ! j) of Some v \<Rightarrow> v | None \<Rightarrow> 0))
               \<and> (\<forall>j. true_length \<le> j \<and> j < max_len \<longrightarrow> batch_x ! i ! j = 1)
               \<and> (\<forall>j<true_length. map_of ?l (?y ! k ! j) = Some (batch_y ! i ! j))
               \<and> (\<forall>j. true_length \<le> j \<and> j < max_len \<longrightarrow> batch_y ! i ! j = 0)"
    by blast
  have c0: "batch_x ! 0 ! 0 = 0 \<and> batch_x ! 0 ! 1 = 3 \<and> batch_y ! 0 ! 0 = 1 \<and> batch_y ! 0 ! 1 = 2"
    using c [rule_format, of 0] unfolding bo mx Let_def
    by (simp add: less_Suc_eq numeral_2_eq_2 all_conj_distrib)
  have c1: "batch_x ! 1 ! 0 = 2 \<and> batch_x ! 1 ! 1 = 1 \<and> batch_y ! 1 ! 0 = 1 \<and> batch_y ! 1 ! 1 = 0"
    using c [rule_format, of 1] unfolding bo mx Let_def
    by (simp add: less_Suc_eq numeral_2_eq_2 all_conj_distrib)
  from r c0 c1 show ?thesis by blast
qed

lemma mset_example_order:
  assumes "shuffle_ok shuffle"
  shows "mset (fst (example_order shuffle rng x s f)) = mset [0..<length x]"
  using assms unfolding example_order_def shuffle_ok_def
  by (auto simp: split_def Let_def simp del: mset_upt)

lemma set_example_order:
  assumes "shuffle_ok shuffle"
  shows "set (fst (example_order shuffle rng x s f)) = {0..<length x}"
  using mset_example_order [OF assms, of rng x s f] by (metis mset_eq_setD set_upt)

lemma length_example_order:
  assumes "shuffle_ok shuffle"
  shows "length (fst (example_order shuffle rng x s f)) = length x"
  using mset_example_order [OF assms, of rng x s f] by (metis mset_eq_length length_upt diff_zero)







lemma nbatch_of_pos:
  assumes "1 \<le> bs" "0 < n"
  shows "nbatch_of n bs = Inr (int ((n - 1) div nat bs + 1))"
proof -
  have "int ((n - 1) div nat bs) = int (n - 1) div int (nat bs)"
    by (rule zdiv_int)
  moreover have "int (n - 1) = int n - 1" using assms by (simp add: of_nat_diff)
  moreover have "int (nat bs) = bs" using assms by simp
  ultimately have "(int n - 1) div bs = int ((n - 1) div nat bs)" by simp
  moreover have "bs \<noteq> 0" using assms by simp
  ultimately show ?thesis by (simp add: nbatch_of_def)
qed






lemma reorder_batches_no_text:
  assumes "set pos = {0..<nb}" "0 < nb" "length bx = nb" "length bys = nb"
  shows "reorder_batches pos bx bys bl [] False = Inl IndexError"
proof -
  have r: "\<And>i. i \<in> set pos \<Longrightarrow> i < nb" using assms(1) by simp
  have g: "py_gather zs pos = Inr (map (\<lambda>i. zs ! i) pos)" if "length zs = nb" for zs :: "'z list"
    using r that by (intro py_gather_ok) simp
  have "0 \<in> set pos" using assms(1,2) by simp
  then have "py_gather ([] :: string list list list) pos = Inl IndexError"
    by (rule py_gather_IndexError) simp
  then show ?thesis
    unfolding reorder_batches_def
    by (simp only: g [OF assms(3)] g [OF assms(4)] sum.case)
qed



lemma mset_map_perm: "mset pos = mset idx \<Longrightarrow> mset (map f pos) = mset (map f idx)"
  by simp


















lemma sequence_length: "sequence rs = Inr vs \<Longrightarrow> length vs = length rs"
  by (simp add: sequence_Inr_iff)

lemma build_batches_length:
  "build_batches x y bs word2id label2id s nb = Inr batches \<Longrightarrow> length batches = nb"
  unfolding build_batches_def by (drule sequence_length) simp

text \<open>
  Claim C5, evaluated on three examples already in descending length, batch size 1, with
  the generator rotating \<open>[0, 1, 2]\<close> to \<open>[1, 2, 0]\<close>: the token, label and length
  batches are reordered once, the text batches twice, so output position 0 holds the
  tensor of the two-token example and the text of the one-token example.
\<close>

theorem create_batches_text_misaligned:
  "create_batches (\<lambda>r l. (rotate1 l, r)) (0::nat)
      [[''a'', ''b'', ''c''], [''d'', ''e''], [''f'']]
      [[''O'', ''O'', ''O''], [''O'', ''O''], [''O'']] 1
      [(''<oov>'', 0), (''<pad>'', 1), (''a'', 2), (''b'', 3), (''c'', 4), (''d'', 5), (''e'', 6), (''f'', 7)]
      [(''<pad>'', 0), (''O'', 1)] True False
      (Some [[''a'', ''b'', ''c''], [''d'', ''e''], [''f'']])
    = Inr (([[[5, 6]], [[7]], [[2, 3, 4]]],
            [[[1, 1]], [[1]], [[1, 1, 1]]],
            [[2], [1], [3]],
            Some [[[''f'']], [[''a'', ''b'', ''c'']], [[''d'', ''e'']]]), 0)"
  by code_simp

text \<open>
  Claim C10. For a non-empty corpus and a batch size of at least 1, \<open>create_batches\<close>
  with \<open>sort=True\<close> and no text never returns batches: it raises; when the batches
  themselves are built without error, what it raises is the \<open>IndexError\<close> of the reorder
  step; so a call that returns had a text or was not sorted.
\<close>

theorem create_batches_sorted_without_text:
  fixes shuffle :: "'r shuffler" and rng :: 'r
  assumes sh: "shuffle_ok shuffle" and ne: "x \<noteq> []" and bs: "1 \<le> batch_size"
  shows "(\<exists>e. create_batches shuffle rng x y batch_size word2id label2id True shuffle_flag None = Inl e)
    \<and> ((\<exists>batches.
           build_batches
             (map (\<lambda>i. x ! i) (fst (example_order shuffle rng x True shuffle_flag)))
             (map (\<lambda>i. y ! i) (fst (example_order shuffle rng x True shuffle_flag)))
             batch_size word2id label2id True ((length x - 1) div nat batch_size + 1) = Inr batches)
         \<longrightarrow> create_batches shuffle rng x y batch_size word2id label2id True shuffle_flag None
               = Inl IndexError)
    \<and> (\<forall>sort_flag text r.
           create_batches shuffle rng x y batch_size word2id label2id sort_flag shuffle_flag text = Inr r
           \<longrightarrow> text \<noteq> None \<or> \<not> sort_flag)"
proof -
  define lst where "lst = fst (example_order shuffle rng x True shuffle_flag)"
  define rng1 where "rng1 = snd (example_order shuffle rng x True shuffle_flag)"
  define nb where "nb = (length x - 1) div nat batch_size + 1"
  define pos where "pos = fst (shuffle rng1 [0..<nb])"
  define rng2 where "rng2 = snd (shuffle rng1 [0..<nb])"
  let ?x1 = "map (\<lambda>i. x ! i) lst" and ?y1 = "map (\<lambda>i. y ! i) lst"
  let ?cb = "create_batches shuffle rng x y batch_size word2id label2id True shuffle_flag None"
  have eo: "example_order shuffle rng x True shuffle_flag = (lst, rng1)"
    by (simp add: lst_def rng1_def)
  have setl: "set lst = {0..<length x}" and lenl: "length lst = length x"
    unfolding lst_def by (rule set_example_order [OF sh], rule length_example_order [OF sh])
  have gx: "py_gather x lst = Inr ?x1"
    by (rule py_gather_ok) (simp add: setl)
  have lenx1: "length ?x1 = length x" using lenl by simp
  have nbo: "nbatch_of (length x) batch_size = Inr (int nb)"
    unfolding nb_def using ne by (intro nbatch_of_pos [OF bs]) simp
  have "mset pos = mset [0..<nb]"
    using sh unfolding pos_def shuffle_ok_def by blast
  then have setp: "set pos = {0..<nb}" by (metis mset_eq_setD set_upt)
  have sp: "shuffle rng1 [0..<nb] = (pos, rng2)"
    by (simp add: pos_def rng2_def)
  have nbpos: "0 < nb" by (simp add: nb_def)
  have main: "(\<exists>e. ?cb = Inl e)
      \<and> ((\<exists>batches. build_batches ?x1 ?y1 batch_size word2id label2id True nb = Inr batches)
           \<longrightarrow> ?cb = Inl IndexError)"
  proof (cases "py_gather y lst")
    case (Inl e)
    then have "e = IndexError" by (rule py_gather_Inl)
    with Inl have "?cb = Inl IndexError"
      unfolding create_batches_def
      by (simp only: eo gx prod.case sum.case Let_def)
    then show ?thesis by simp
  next
    case (Inr y1)
    then have y1: "y1 = ?y1" by (simp add: py_gather_Inr)
    show ?thesis
    proof (cases "build_batches ?x1 ?y1 batch_size word2id label2id True nb")
      case (Inl e)
      then have "?cb = Inl e"
        unfolding create_batches_def
        by (simp only: eo gx Inr y1 lenx1 nbo nat_int prod.case sum.case option.case Let_def)
      with Inl show ?thesis by simp
    next
      case bb: (Inr batches)
      then have lb: "length batches = nb" by (rule build_batches_length)
      have ro: "reorder_batches pos (map fst batches) (map (fst \<circ> snd) batches)
          (map (snd \<circ> snd) batches) [] False = Inl IndexError"
        by (rule reorder_batches_no_text [OF setp nbpos]) (simp_all add: lb)
      have "?cb = Inl IndexError"
        unfolding create_batches_def
        by (simp only: eo gx Inr y1 lenx1 nbo nat_int bb prod.case sum.case option.case Let_def
              if_True build_text_def sp ro simp_thms if_False)
      then show ?thesis by simp
    qed
  qed
  have "text \<noteq> None \<or> \<not> sort_flag"
    if "create_batches shuffle rng x y batch_size word2id label2id sort_flag shuffle_flag text = Inr r"
    for sort_flag "text" r
  proof (rule ccontr)
    assume "\<not> (text \<noteq> None \<or> \<not> sort_flag)"
    then have "text = None" sort_flag by simp_all
    with that main show False by auto
  qed
  with main show ?thesis
    unfolding lst_def nb_def by blast
qed

theorem create_batches_sorted_without_text_witness:
  "create_batches (\<lambda>r l. (rev l, r)) (0::nat) [[''a'', ''b''], [''c'']] [[''O'', ''O''], [''O'']] 1
      [(''<oov>'', 0), (''<pad>'', 1), (''a'', 2)] [(''<pad>'', 0), (''O'', 1)] True True None
    = Inl IndexError"
proof -
  let ?sh = "\<lambda>(r::nat) (l::nat list). (rev l, r)"
  let ?x = "[[''a'', ''b''], [''c'']]" and ?y = "[[''O'', ''O''], [''O'']]"
  let ?w = "[(''<oov>'', 0::int), (''<pad>'', 1), (''a'', 2)]" and ?l = "[(''<pad>'', 0::int), (''O'', 1)]"
  have sh: "shuffle_ok ?sh" by (simp add: shuffle_ok_def)
  have ne: "?x \<noteq> []" by simp
  have bs: "(1::int) \<le> 1" by simp
  have "\<not> isl (build_batches
             (map (\<lambda>i. ?x ! i) (fst (example_order ?sh 0 ?x True True)))
             (map (\<lambda>i. ?y ! i) (fst (example_order ?sh 0 ?x True True)))
             1 ?w ?l True ((length ?x - 1) div nat 1 + 1))"
    by code_simp
  then have bb: "\<exists>batches.
           build_batches
             (map (\<lambda>i. ?x ! i) (fst (example_order ?sh 0 ?x True True)))
             (map (\<lambda>i. ?y ! i) (fst (example_order ?sh 0 ?x True True)))
             1 ?w ?l True ((length ?x - 1) div nat 1 + 1) = Inr batches"
    by (metis sum.collapse(2))
  from create_batches_sorted_without_text [OF sh ne bs, of 0 ?y ?w ?l True] bb
  show ?thesis by blast
qed



section \<open>Properties of make_dict\<close>

lemma update_fresh: "k \<notin> fst ` set d \<Longrightarrow> AList.update k v d = d @ [(k, v)]"
  by (induction d) auto

lemma fst_bio_pairs: "map fst (bio_pairs n ls) = concat (map (\<lambda>l. [''B-'' @ l, ''I-'' @ l]) ls)"
  by (induction ls arbitrary: n) auto

lemma snd_bio_pairs_ge: "(l, i) \<in> set (bio_pairs n ls) \<Longrightarrow> n \<le> i"
  by (induction ls arbitrary: n) (auto, force)

lemma distinct_snd_bio_pairs: "distinct (map snd (bio_pairs n ls))"
proof (induction ls arbitrary: n)
  case Nil
  then show ?case by simp
next
  case (Cons l ls)
  have "n \<notin> snd ` set (bio_pairs (n + 2) ls)" "n + 1 \<notin> snd ` set (bio_pairs (n + 2) ls)"
    using snd_bio_pairs_ge [of _ _ "n + 2" ls] by fastforce+
  with Cons show ?case by simp
qed

lemma length_bio_pairs: "length (bio_pairs n ls) = 2 * length ls"
  by (induction ls arbitrary: n) auto

lemma add_labels_fresh:
  assumes "distinct ls"
    and "\<And>l. l \<in> set ls \<Longrightarrow> ''B-'' @ l \<notin> fst ` set d \<and> ''I-'' @ l \<notin> fst ` set d"
  shows "add_labels d ls = d @ bio_pairs (int (length d)) ls"
  using assms
proof (induction ls arbitrary: d)
  case Nil
  then show ?case by simp
next
  case (Cons l ls)
  let ?d1 = "d @ [(''B-'' @ l, int (length d))]"
  let ?d2 = "?d1 @ [(''I-'' @ l, int (length ?d1))]"
  have f: "''B-'' @ l \<notin> fst ` set d" "''I-'' @ l \<notin> fst ` set d"
    using Cons.prems(2) [of l] by simp_all
  have u1: "AList.update (''B-'' @ l) (int (length d)) d = ?d1"
    using f(1) by (rule update_fresh)
  have "''I-'' @ l \<notin> fst ` set ?d1" using f(2) by auto
  then have u2: "AList.update (''I-'' @ l) (int (length ?d1)) ?d1 = ?d2"
    by (rule update_fresh)
  have ih: "add_labels ?d2 ls = ?d2 @ bio_pairs (int (length ?d2)) ls"
  proof (rule Cons.IH)
    show "distinct ls" using Cons.prems(1) by simp
    fix l' assume l': "l' \<in> set ls"
    then have "l' \<noteq> l" using Cons.prems(1) by auto
    with Cons.prems(2) [of l'] l'
    show "''B-'' @ l' \<notin> fst ` set ?d2 \<and> ''I-'' @ l' \<notin> fst ` set ?d2" by auto
  qed
  have "add_labels d (l # ls) = add_labels ?d2 ls"
    by (simp only: add_labels.simps Let_def u1 u2)
  also note ih
  also have "?d2 @ bio_pairs (int (length ?d2)) ls = d @ bio_pairs (int (length d)) (l # ls)"
    by (simp add: add.commute)
  finally show ?case .
qed

lemma distinct_bio_keys:
  assumes "distinct ls"
  shows "distinct (concat (map (\<lambda>l. [''B-'' @ l, ''I-'' @ l]) ls))"
  using assms by (induction ls) auto

lemma invert_fold:
  assumes "distinct (map snd d)" and "snd ` set d \<inter> fst ` set acc = {}"
  shows "fold (\<lambda>(label, idx) m. AList.update idx label m) d acc = acc @ map (\<lambda>(l, i). (i, l)) d"
  using assms
proof (induction d arbitrary: acc)
  case Nil
  then show ?case by simp
next
  case (Cons p d)
  obtain l i where p: "p = (l, i)" by (cases p)
  have "i \<notin> fst ` set acc" using Cons.prems(2) p by auto
  then have u: "AList.update i l acc = acc @ [(i, l)]" by (rule update_fresh)
  have "fold (\<lambda>(label, idx) m. AList.update idx label m) d (acc @ [(i, l)])
      = (acc @ [(i, l)]) @ map (\<lambda>(l, i). (i, l)) d"
  proof (rule Cons.IH)
    show "distinct (map snd d)" using Cons.prems(1) by simp
    show "snd ` set d \<inter> fst ` set (acc @ [(i, l)]) = {}"
      using Cons.prems p by auto
  qed
  then show ?case by (simp add: p u)
qed

lemma invert_dict_distinct:
  assumes "distinct (map snd d)"
  shows "invert_dict d = map (\<lambda>(l, i). (i, l)) d"
  unfolding invert_dict_def using invert_fold [OF assms, of "[]"] by simp

lemma invert_dict_inverse:
  assumes "distinct (map fst d)" "distinct (map snd d)"
  shows "map_of d l = Some i \<longleftrightarrow> map_of (invert_dict d) i = Some l"
proof -
  have "map fst (map (\<lambda>(l, i). (i, l)) d) = map snd d" by (induction d) auto
  then have "distinct (map fst (map (\<lambda>(l, i). (i, l)) d))" using assms(2) by (simp only:)
  then have "map_of (map (\<lambda>(l, i). (i, l)) d) i = Some l \<longleftrightarrow> (i, l) \<in> set (map (\<lambda>(l, i). (i, l)) d)"
    by (rule map_of_eq_Some_iff)
  also have "\<dots> \<longleftrightarrow> (l, i) \<in> set d" by auto
  also have "\<dots> \<longleftrightarrow> map_of d l = Some i" using assms(1) by (simp add: map_of_eq_Some_iff)
  finally show ?thesis by (simp add: invert_dict_distinct [OF assms(2)])
qed

lemma label_set_of_sorted:
  assumes "label_set_of fs opt train_y dev_y test_y = Inr ls"
  shows "sorted ls" and "opt_label_set_path opt = [] \<Longrightarrow> distinct ls"
  using assms
  by (auto simp: label_set_of_def sorted_set_def flatten_def purify_def
           split: if_splits option.splits sum.splits)

lemma remove2_absent: "\<not> occurs2 a b s \<Longrightarrow> remove2 a b s = s"
  by (induction a b s rule: remove2.induct) auto

lemma purify_tag:
  assumes "\<not> occurs2 CHR ''B'' CHR ''-'' (strip_bio_prefix t)"
    and "\<not> occurs2 CHR ''I'' CHR ''-'' (strip_bio_prefix t)"
  shows "remove2 CHR ''I'' CHR ''-'' (remove2 CHR ''B'' CHR ''-'' t) = strip_bio_prefix t"
proof -
  consider (b) l where "t = ''B-'' @ l" | (i) l where "t = ''I-'' @ l"
    | (n) "take 2 t \<noteq> ''B-''" "take 2 t \<noteq> ''I-''"
    by (metis append_take_drop_id)
  then show ?thesis
  proof cases
    case b
    then have s: "strip_bio_prefix t = l" by (simp add: strip_bio_prefix_def)
    have "remove2 CHR ''B'' CHR ''-'' t = remove2 CHR ''B'' CHR ''-'' l" by (simp add: b)
    also have "\<dots> = l" using assms(1) unfolding s by (rule remove2_absent)
    finally show ?thesis using assms(2) unfolding s by (simp add: remove2_absent)
  next
    case i
    then have s: "strip_bio_prefix t = l" by (simp add: strip_bio_prefix_def)
    have l: "remove2 CHR ''B'' CHR ''-'' l = l" using assms(1) unfolding s by (rule remove2_absent)
    have "remove2 CHR ''B'' CHR ''-'' t = ''I-'' @ l"
      using l by (cases l) (simp_all add: i)
    then have "remove2 CHR ''I'' CHR ''-'' (remove2 CHR ''B'' CHR ''-'' t) = remove2 CHR ''I'' CHR ''-'' l"
      by simp
    also have "\<dots> = l" using assms(2) unfolding s by (rule remove2_absent)
    finally show ?thesis by (simp only: s)
  next
    case n
    then have s: "strip_bio_prefix t = t" by (simp add: strip_bio_prefix_def)
    show ?thesis using assms unfolding s by (simp add: remove2_absent)
  qed
qed

lemma label_set_of_file:
  assumes "label_set_of fs opt train_y dev_y test_y = Inr ls" and "opt_label_set_path opt \<noteq> []"
  shows "\<exists>content. fs (opt_label_set_path opt) = Some content
           \<and> ls = sort (split_on CHR 0x0A (strip content))"
  using assms by (auto simp: label_set_of_def split: option.splits)

lemma label_set_of_tags:
  assumes "label_set_of fs opt train_y dev_y test_y = Inr ls" and "opt_label_set_path opt = []"
  shows "\<exists>a b c. train_y = Some a \<and> dev_y = Some b \<and> test_y = Some c
           \<and> ls = sorted_set (purify (concat a) @ purify (concat b) @ purify (concat c))"
  using assms
  by (auto simp: label_set_of_def flatten_def split: option.splits sum.splits)

text \<open>
  Claim C4, as amended. Whenever the label set is obtained (the label file is readable, or
  the three tag sets are given) and, on the label-file path, the list of base labels has
  no repeated element, \<open>make_dict\<close> returns a \<open>label2id\<close> that is the pad label at id 0,
  \<open>O\<close> at id 1, then for each base label in sorted order its \<open>B-\<close> and \<open>I-\<close> variants
  at adjacent ids; the base labels are sorted and distinct; \<open>label2id\<close> has
  \<open>2 + 2 * |base labels|\<close> entries; and \<open>id2label\<close> is its inverse. The base labels
  are, on the label-file path, the sorted fields between the newlines of the text of the
  file after white space is stripped from the two ends of the whole text (the lines are
  neither stripped one by one nor deduplicated); on the other path they are the tags of
  the three splits, each with every occurrence of \<open>B-\<close> and then of \<open>I-\<close> removed from
  it, deduplicated (here distinctness needs no assumption), which is the set of the tags
  without their BIO prefix whenever no tag has \<open>B-\<close> or \<open>I-\<close> after its prefix.
\<close>

theorem make_dict_label2id:
  assumes ls: "label_set_of fs opt train_y dev_y test_y = Inr label_set"
    and d: "opt_label_set_path opt \<noteq> [] \<Longrightarrow> distinct label_set"
  shows "\<exists>word2id label2id id2label.
      make_dict fs opt train_x train_y dev_y test_y = Inr (word2id, label2id, id2label)
    \<and> label2id = (''<pad>'', 0) # (''O'', 1) # bio_pairs 2 label_set
    \<and> sorted label_set \<and> distinct label_set
    \<and> int (length label2id) = 2 + 2 * int (card (set label_set))
    \<and> (\<forall>l i. map_of label2id l = Some i \<longleftrightarrow> map_of id2label i = Some l)
    \<and> (opt_label_set_path opt \<noteq> [] \<longrightarrow>
          (\<exists>content. fs (opt_label_set_path opt) = Some content
             \<and> label_set = sort (split_on CHR 0x0A (strip content))))
    \<and> (opt_label_set_path opt = [] \<longrightarrow>
          (\<exists>a b c. train_y = Some a \<and> dev_y = Some b \<and> test_y = Some c
             \<and> set label_set
                 = (\<lambda>t. remove2 CHR ''I'' CHR ''-'' (remove2 CHR ''B'' CHR ''-'' t))
                     ` set (concat (a @ b @ c))
             \<and> ((\<forall>t \<in> set (concat (a @ b @ c)).
                     \<not> occurs2 CHR ''B'' CHR ''-'' (strip_bio_prefix t)
                   \<and> \<not> occurs2 CHR ''I'' CHR ''-'' (strip_bio_prefix t))
                  \<longrightarrow> set label_set = strip_bio_prefix ` set (concat (a @ b @ c)))))"
proof -
  let ?d = "(''<pad>'', 0) # (''O'', 1) # bio_pairs 2 label_set"
  let ?p = "\<lambda>t. remove2 CHR ''I'' CHR ''-'' (remove2 CHR ''B'' CHR ''-'' t)"
  have dist: "distinct label_set"
    using d label_set_of_sorted(2) [OF ls] by blast
  have srt: "sorted label_set" using ls by (rule label_set_of_sorted(1))
  have "add_labels [(''<pad>'', 0), (''O'', 1)] label_set
      = [(''<pad>'', 0), (''O'', 1)] @ bio_pairs (int (length [(''<pad>'', 0::int), (''O'', 1)])) label_set"
    using dist by (rule add_labels_fresh) simp
  then have al: "add_labels [(''<pad>'', 0), (''O'', 1)] label_set = ?d" by simp
  have md: "make_dict fs opt train_x train_y dev_y test_y =
      Inr (add_words [] ([''<oov>'', ''<pad>''] @ sorted_set (concat train_x)), ?d, invert_dict ?d)"
    unfolding make_dict_def ls by (simp add: Let_def al)
  have len: "int (length ?d) = 2 + 2 * int (card (set label_set))"
    using dist by (simp add: length_bio_pairs distinct_card)
  have dk: "distinct (map fst ?d)"
    using distinct_bio_keys [OF dist] by (auto simp: fst_bio_pairs)
  have dv: "distinct (map snd ?d)"
    using distinct_snd_bio_pairs [of 2 label_set] snd_bio_pairs_ge [of _ _ 2 label_set]
    by fastforce
  have inv: "\<forall>l i. map_of ?d l = Some i \<longleftrightarrow> map_of (invert_dict ?d) i = Some l"
    using invert_dict_inverse [OF dk dv] by blast
  have onfile: "opt_label_set_path opt \<noteq> [] \<longrightarrow>
          (\<exists>content. fs (opt_label_set_path opt) = Some content
             \<and> label_set = sort (split_on CHR 0x0A (strip content)))"
    using label_set_of_file [OF ls] by blast
  have ontags: "opt_label_set_path opt = [] \<longrightarrow>
          (\<exists>a b c. train_y = Some a \<and> dev_y = Some b \<and> test_y = Some c
             \<and> set label_set = ?p ` set (concat (a @ b @ c))
             \<and> ((\<forall>t \<in> set (concat (a @ b @ c)).
                     \<not> occurs2 CHR ''B'' CHR ''-'' (strip_bio_prefix t)
                   \<and> \<not> occurs2 CHR ''I'' CHR ''-'' (strip_bio_prefix t))
                  \<longrightarrow> set label_set = strip_bio_prefix ` set (concat (a @ b @ c))))"
  proof
    assume "opt_label_set_path opt = []"
    from label_set_of_tags [OF ls this] obtain a b c where
      y: "train_y = Some a" "dev_y = Some b" "test_y = Some c"
      and l: "label_set = sorted_set (purify (concat a) @ purify (concat b) @ purify (concat c))"
      by blast
    have img: "set label_set = ?p ` set (concat (a @ b @ c))"
      unfolding l by (auto simp: sorted_set_def purify_def)
    have pre: "set label_set = strip_bio_prefix ` set (concat (a @ b @ c))"
      if "\<forall>t \<in> set (concat (a @ b @ c)).
                     \<not> occurs2 CHR ''B'' CHR ''-'' (strip_bio_prefix t)
                   \<and> \<not> occurs2 CHR ''I'' CHR ''-'' (strip_bio_prefix t)"
    proof -
      have "?p t = strip_bio_prefix t" if "t \<in> set (concat (a @ b @ c))" for t
        using \<open>\<forall>t \<in> set (concat (a @ b @ c)). _\<close> that by (intro purify_tag) blast+
      then have "?p ` set (concat (a @ b @ c)) = strip_bio_prefix ` set (concat (a @ b @ c))"
        by (intro image_cong refl)
      with img show ?thesis by (simp only:)
    qed
    from y img pre show "\<exists>a b c. train_y = Some a \<and> dev_y = Some b \<and> test_y = Some c
             \<and> set label_set = ?p ` set (concat (a @ b @ c))
             \<and> ((\<forall>t \<in> set (concat (a @ b @ c)).
                     \<not> occurs2 CHR ''B'' CHR ''-'' (strip_bio_prefix t)
                   \<and> \<not> occurs2 CHR ''I'' CHR ''-'' (strip_bio_prefix t))
                  \<longrightarrow> set label_set = strip_bio_prefix ` set (concat (a @ b @ c)))"
      by blast
  qed
  show ?thesis
    apply (rule exI, rule exI, rule exI)
    apply (intro conjI)
           apply (rule md)
          apply (rule refl)
         apply (rule srt)
        apply (rule dist)
       apply (rule len)
      apply (rule inv)
     apply (rule onfile)
    apply (rule ontags)
    done
qed

text \<open>
  Claim C4 as stated fails on the base labels. A label file with a repeated line gives
  the base label twice: the second \<open>A\<close> overwrites both entries of the first with the
  current size of the dictionary, \<open>B-A\<close> and \<open>I-A\<close> end at the same id 4, so the two
  variants are not at adjacent ids and \<open>id2label\<close> does not invert \<open>label2id\<close>. The
  same happens with no line repeated, when two lines differ in the white space that the
  strip of the whole text removes at the end, a space or a no-break space. And a tag
  with \<open>B-\<close> inside it loses that too, not only its prefix: \<open>B-SUB-TYPE\<close> gives the base
  label \<open>SUTYPE\<close>.
\<close>

theorem make_dict_base_labels_not_as_claimed:
  "make_dict [''labels.txt'' \<mapsto> ''A'' @ [CHR 0x0A] @ ''A'' @ [CHR 0x0A]]
     \<lparr>opt_label_set_path = ''labels.txt'', opt_model = ''model'', opt_output = None,
      opt_batch_size = 128, opt_max_epoch = 100, opt_lr = 0.01, opt_lr_decay = 0\<rparr>
     [[''the'']] None None None
   = Inr ([(''<oov>'', 0), (''<pad>'', 1), (''the'', 2)],
          [(''<pad>'', 0), (''O'', 1), (''B-A'', 4), (''I-A'', 4)],
          [(0, ''<pad>''), (1, ''O''), (4, ''I-A'')])
   \<and> make_dict [''labels.txt'' \<mapsto> ''A'' @ [CHR 0x0A] @ ''A '' @ [CHR 0x0A]]
     \<lparr>opt_label_set_path = ''labels.txt'', opt_model = ''model'', opt_output = None,
      opt_batch_size = 128, opt_max_epoch = 100, opt_lr = 0.01, opt_lr_decay = 0\<rparr>
     [[''the'']] None None None
   = Inr ([(''<oov>'', 0), (''<pad>'', 1), (''the'', 2)],
          [(''<pad>'', 0), (''O'', 1), (''B-A'', 4), (''I-A'', 4)],
          [(0, ''<pad>''), (1, ''O''), (4, ''I-A'')])
   \<and> make_dict [''labels.txt'' \<mapsto> ''A'' @ [CHR 0x0A] @ ''A'' @ [CHR 0xA0]]
     \<lparr>opt_label_set_path = ''labels.txt'', opt_model = ''model'', opt_output = None,
      opt_batch_size = 128, opt_max_epoch = 100, opt_lr = 0.01, opt_lr_decay = 0\<rparr>
     [[''the'']] None None None
   = Inr ([(''<oov>'', 0), (''<pad>'', 1), (''the'', 2)],
          [(''<pad>'', 0), (''O'', 1), (''B-A'', 4), (''I-A'', 4)],
          [(0, ''<pad>''), (1, ''O''), (4, ''I-A'')])
   \<and> make_dict Map.empty
     \<lparr>opt_label_set_path = [], opt_model = ''model'', opt_output = None,
      opt_batch_size = 128, opt_max_epoch = 100, opt_lr = 0.01, opt_lr_decay = 0\<rparr>
     [[''the'']] (Some [[''B-SUB-TYPE'']]) (Some []) (Some [])
   = Inr ([(''<oov>'', 0), (''<pad>'', 1), (''the'', 2)],
          [(''<pad>'', 0), (''O'', 1), (''B-SUTYPE'', 2), (''I-SUTYPE'', 3)],
          [(0, ''<pad>''), (1, ''O''), (2, ''B-SUTYPE''), (3, ''I-SUTYPE'')])"
  by code_simp

text \<open>
  The scenario of the specification: the base set NOUN, VERB gives exactly the six
  entries, when it is collected from the tag sets of the three splits and when it is read
  from a label file of two lines.
\<close>

theorem make_dict_label2id_witness:
  "(\<exists>word2id id2label.
     make_dict Map.empty
       \<lparr>opt_label_set_path = [], opt_model = ''model'', opt_output = None,
        opt_batch_size = 128, opt_max_epoch = 100, opt_lr = 0.01, opt_lr_decay = 0\<rparr>
       [[''the'', ''cat'']]
       (Some [[''B-VERB'', ''I-VERB'']]) (Some [[''B-NOUN'', ''B-VERB'']]) (Some [[''I-NOUN'', ''B-NOUN'']])
     = Inr (word2id,
            [(''<pad>'', 0), (''O'', 1), (''B-NOUN'', 2), (''I-NOUN'', 3), (''B-VERB'', 4), (''I-VERB'', 5)],
            id2label))
   \<and> (\<exists>word2id id2label.
     make_dict [''labels.txt'' \<mapsto> ''VERB'' @ [CHR 0x0A] @ ''NOUN'' @ [CHR 0x0A]]
       \<lparr>opt_label_set_path = ''labels.txt'', opt_model = ''model'', opt_output = None,
        opt_batch_size = 128, opt_max_epoch = 100, opt_lr = 0.01, opt_lr_decay = 0\<rparr>
       [[''the'', ''cat'']] None None None
     = Inr (word2id,
            [(''<pad>'', 0), (''O'', 1), (''B-NOUN'', 2), (''I-NOUN'', 3), (''B-VERB'', 4), (''I-VERB'', 5)],
            id2label))"
proof -
  let ?opt = "\<lparr>opt_label_set_path = [], opt_model = ''model'', opt_output = None,
        opt_batch_size = 128, opt_max_epoch = 100, opt_lr = 0.01, opt_lr_decay = 0\<rparr>"
  let ?optf = "\<lparr>opt_label_set_path = ''labels.txt'', opt_model = ''model'', opt_output = None,
        opt_batch_size = 128, opt_max_epoch = 100, opt_lr = 0.01, opt_lr_decay = 0\<rparr>"
  let ?fs = "[''labels.txt'' \<mapsto> ''VERB'' @ [CHR 0x0A] @ ''NOUN'' @ [CHR 0x0A]]"
  have ls: "label_set_of Map.empty ?opt
       (Some [[''B-VERB'', ''I-VERB'']]) (Some [[''B-NOUN'', ''B-VERB'']]) (Some [[''I-NOUN'', ''B-NOUN'']])
      = Inr [''NOUN'', ''VERB'']"
    by code_simp
  have d: "opt_label_set_path ?opt \<noteq> [] \<Longrightarrow> distinct [''NOUN'', ''VERB'']" by simp
  have lsf: "label_set_of ?fs ?optf None None None = Inr [''NOUN'', ''VERB'']"
    by code_simp
  have df: "opt_label_set_path ?optf \<noteq> [] \<Longrightarrow> distinct [''NOUN'', ''VERB'']" by simp
  from make_dict_label2id [OF ls d, of "[[''the'', ''cat'']]"]
  have one: "\<exists>word2id id2label.
     make_dict Map.empty ?opt [[''the'', ''cat'']]
       (Some [[''B-VERB'', ''I-VERB'']]) (Some [[''B-NOUN'', ''B-VERB'']]) (Some [[''I-NOUN'', ''B-NOUN'']])
     = Inr (word2id,
            [(''<pad>'', 0), (''O'', 1), (''B-NOUN'', 2), (''I-NOUN'', 3), (''B-VERB'', 4), (''I-VERB'', 5)],
            id2label)" by auto
  from make_dict_label2id [OF lsf df, of "[[''the'', ''cat'']]"]
  have two: "\<exists>word2id id2label.
     make_dict ?fs ?optf [[''the'', ''cat'']] None None None
     = Inr (word2id,
            [(''<pad>'', 0), (''O'', 1), (''B-NOUN'', 2), (''I-NOUN'', 3), (''B-VERB'', 4), (''I-VERB'', 5)],
            id2label)" by auto
  from one two show ?thesis by (rule conjI)
qed


section \<open>Properties of ClassifyLayer.forward and eval_model\<close>

lemma argmax_from_first_max:
  assumes "all = pre @ vs" "length pre = i" "bi < i" "pre ! bi = bv"
    and "\<And>j. j < i \<Longrightarrow> pre ! j \<le> bv" and "\<And>j. j < bi \<Longrightarrow> pre ! j < bv"
  shows "argmax_from bi bv i vs < length all
       \<and> (\<forall>j<length all. all ! j \<le> all ! argmax_from bi bv i vs)
       \<and> (\<forall>j<argmax_from bi bv i vs. all ! j < all ! argmax_from bi bv i vs)"
  using assms
proof (induction vs arbitrary: pre bi bv i)
  case Nil
  then show ?case by auto
next
  case (Cons v vs)
  let ?pre = "pre @ [v]"
  have all: "all = ?pre @ vs" using Cons.prems(1) by simp
  have len: "length ?pre = Suc i" using Cons.prems(2) by simp
  show ?case
  proof (cases "bv < v")
    case True
    have "argmax_from i v (Suc i) vs < length all
       \<and> (\<forall>j<length all. all ! j \<le> all ! argmax_from i v (Suc i) vs)
       \<and> (\<forall>j<argmax_from i v (Suc i) vs. all ! j < all ! argmax_from i v (Suc i) vs)"
    proof (rule Cons.IH [OF all len])
      show "i < Suc i" by simp
      show "?pre ! i = v" using Cons.prems(2) by (simp add: nth_append)
      fix j
      show "?pre ! j \<le> v" if "j < Suc i"
        using that True Cons.prems(2) Cons.prems(5) [of j] by (cases "j = i") (auto simp: nth_append)
      show "?pre ! j < v" if "j < i"
        using that True Cons.prems(2) Cons.prems(5) [of j] by (auto simp: nth_append)
    qed
    with True show ?thesis by simp
  next
    case False
    have "argmax_from bi bv (Suc i) vs < length all
       \<and> (\<forall>j<length all. all ! j \<le> all ! argmax_from bi bv (Suc i) vs)
       \<and> (\<forall>j<argmax_from bi bv (Suc i) vs. all ! j < all ! argmax_from bi bv (Suc i) vs)"
    proof (rule Cons.IH [OF all len])
      show "bi < Suc i" using Cons.prems(3) by simp
      show "?pre ! bi = bv" using Cons.prems(2,3,4) by (simp add: nth_append)
      fix j
      show "?pre ! j \<le> bv" if "j < Suc i"
        using that False Cons.prems(2) Cons.prems(5) [of j] by (cases "j = i") (auto simp: nth_append)
      show "?pre ! j < bv" if "j < bi"
        using that Cons.prems(2,3) Cons.prems(6) [of j] by (auto simp: nth_append)
    qed
    with False show ?thesis by simp
  qed
qed

lemma argmax_first_max:
  assumes "argmax vs = Inr k"
  shows "0 \<le> k \<and> nat k < length vs \<and> (\<forall>j<length vs. vs ! j \<le> vs ! nat k)
       \<and> (\<forall>j<nat k. vs ! j < vs ! nat k)"
proof (cases vs)
  case Nil
  with assms show ?thesis by simp
next
  case (Cons v ws)
  with assms have k: "k = int (argmax_from 0 v 1 ws)" by simp
  have "argmax_from 0 v 1 ws < length vs
       \<and> (\<forall>j<length vs. vs ! j \<le> vs ! argmax_from 0 v 1 ws)
       \<and> (\<forall>j<argmax_from 0 v 1 ws. vs ! j < vs ! argmax_from 0 v 1 ws)"
    by (rule argmax_from_first_max [where pre = "[v]"]) (simp_all add: Cons)
  then show ?thesis by (simp add: k)
qed

lemma sequence_map_nth:
  assumes "sequence (map f xs) = Inr vs"
  shows "length vs = length xs" and "i < length xs \<Longrightarrow> f (xs ! i) = Inr (vs ! i)"
proof -
  from assms have eq: "map f xs = map Inr vs" by (simp add: sequence_Inr_iff)
  then show l: "length vs = length xs" by (metis length_map)
  assume "i < length xs"
  with eq l show "f (xs ! i) = Inr (vs ! i)" by (metis nth_map)
qed

lemma sequence_map_eq:
  assumes "sequence (map f xs) = Inr vs"
    and "\<And>x v. x \<in> set xs \<Longrightarrow> f x = Inr v \<Longrightarrow> v = g x"
  shows "vs = map g xs"
proof (rule nth_equalityI)
  show "length vs = length (map g xs)" using sequence_map_nth(1) [OF assms(1)] by simp
  fix i assume "i < length vs"
  then have i: "i < length xs" using sequence_map_nth(1) [OF assms(1)] by simp
  then have "f (xs ! i) = Inr (vs ! i)" by (rule sequence_map_nth(2) [OF assms(1)])
  with i have "vs ! i = g (xs ! i)" by (intro assms(2)) simp_all
  with i show "vs ! i = map g xs ! i" by simp
qed

lemma max_dim2_nth:
  assumes "max_dim2 t = Inr r" "b < length t" "p < length (t ! b)"
  shows "argmax (t ! b ! p) = Inr (r ! b ! p)"
proof -
  from assms(1) have s: "sequence (map (\<lambda>row. sequence (map argmax row)) t) = Inr r"
    by (simp add: max_dim2_def)
  have "sequence (map argmax (t ! b)) = Inr (r ! b)"
    using sequence_map_nth(2) [OF s assms(2)] .
  then show ?thesis using assms(3) by (rule sequence_map_nth(2))
qed

lemma max_dim2_length:
  assumes "max_dim2 t = Inr r" "b < length t"
  shows "length r = length t" and "length (r ! b) = length (t ! b)"
proof -
  from assms(1) have s: "sequence (map (\<lambda>row. sequence (map argmax row)) t) = Inr r"
    by (simp add: max_dim2_def)
  show "length r = length t" using s by (rule sequence_map_nth(1))
  have "sequence (map argmax (t ! b)) = Inr (r ! b)"
    using sequence_map_nth(2) [OF s assms(2)] .
  then show "length (r ! b) = length (t ! b)" by (rule sequence_map_nth(1))
qed

lemma ClassifyLayer_forward_pad_first:
  assumes pad: "map_of label2id label_pad = Some 0"
    and fw: "ClassifyLayer_forward logsoftmax criterion label2id label_pad False hidden y
              = Inr (tag_result, loss)"
    and b: "b < length hidden" and p: "p < length (hidden ! b)"
  shows "1 \<le> tag_result ! b ! p \<and> nat (tag_result ! b ! p) < length (hidden ! b ! p)
    \<and> (\<forall>j. 1 \<le> j \<and> j < length (hidden ! b ! p)
           \<longrightarrow> hidden ! b ! p ! j \<le> hidden ! b ! p ! nat (tag_result ! b ! p))
    \<and> loss = 0"
proof -
  let ?t = "map (map (drop 1)) hidden"
  from fw pad obtain r where r: "max_dim2 ?t = Inr r"
    and tr: "tag_result = map (map (\<lambda>i. i + 1)) r" and loss: "loss = 0"
    by (auto simp: ClassifyLayer_forward_def split: sum.splits)
  have b': "b < length ?t" and p': "p < length (?t ! b)" using b p by simp_all
  have am: "argmax (drop 1 (hidden ! b ! p)) = Inr (r ! b ! p)"
    using max_dim2_nth [OF r b' p'] b p by simp
  note props = argmax_first_max [OF am]
  have p1: "0 \<le> r ! b ! p" using props by blast
  have p2: "nat (r ! b ! p) < length (drop 1 (hidden ! b ! p))" using props by blast
  have p3: "drop 1 (hidden ! b ! p) ! j \<le> drop 1 (hidden ! b ! p) ! nat (r ! b ! p)"
    if "j < length (drop 1 (hidden ! b ! p))" for j
    using props that by blast
  have lr: "b < length r" "p < length (r ! b)"
    using max_dim2_length [OF r b'] b p by simp_all
  have k: "tag_result ! b ! p = r ! b ! p + 1" using lr by (simp add: tr)
  have n: "nat (r ! b ! p + 1) = Suc (nat (r ! b ! p))" using p1 by linarith
  have in_range: "Suc (nat (r ! b ! p)) < length (hidden ! b ! p)" using p2 by simp
  have val: "hidden ! b ! p ! Suc (nat (r ! b ! p)) = drop 1 (hidden ! b ! p) ! nat (r ! b ! p)"
    using in_range by simp
  have mx: "hidden ! b ! p ! j \<le> hidden ! b ! p ! Suc (nat (r ! b ! p))"
    if "1 \<le> j" "j < length (hidden ! b ! p)" for j
  proof -
    from that obtain j' where j': "j = Suc j'" by (cases j) simp_all
    with that have "j' < length (drop 1 (hidden ! b ! p))" by simp
    then have "drop 1 (hidden ! b ! p) ! j' \<le> drop 1 (hidden ! b ! p) ! nat (r ! b ! p)"
      by (rule p3)
    with that j' show ?thesis unfolding val by simp
  qed
  have "1 \<le> r ! b ! p + 1" using p1 by simp
  with in_range mx loss show ?thesis unfolding k n by blast
qed

text \<open>
  Claim C7, evaluated with the pad tag at id 2: the position scores the tags 0, 1, 2
  with 5, 1, 0, the largest score is at tag 0, and the prediction is tag 1, the arg-max
  with the 1 of line 226 added.
\<close>

theorem ClassifyLayer_forward_pad_not_first:
  "ClassifyLayer_forward id (\<lambda>scores y. 0) [(''O'', 0), (''B-X'', 1), (''<pad>'', 2)] ''<pad>'' False
     [[[5, 1, 0]]] [[0]] = Inr ([[1]], 0)"
  by code_simp

lemma render_sentence_lines:
  assumes "render_sentence id2label words trues preds = Inr ls"
  shows "ls = sentence_lines id2label words trues preds"
proof -
  let ?f = "\<lambda>(k, word, true_tag, predict_tag).
            case id2label_get id2label true_tag of
              Inl e \<Rightarrow> Inl e
            | Inr tt \<Rightarrow>
           (case id2label_get id2label predict_tag of
              Inl e \<Rightarrow> Inl e
            | Inr pt \<Rightarrow> Inr (format_line (k + 1) word tt pt))"
  let ?g = "\<lambda>(word, true_tag, predict_tag).
           word @ '' '' @ the (map_of id2label true_tag) @ '' '' @ the (map_of id2label predict_tag)"
  let ?zs = "zip words (zip trues preds)"
  from assms obtain ls0 where s: "sequence (map ?f (enumerate 0 ?zs)) = Inr ls0"
    and ls: "ls = ls0 @ [[]]"
    by (auto simp: render_sentence_def split: sum.splits)
  have "ls0 = map (\<lambda>q. ?g (snd q)) (enumerate 0 ?zs)"
    using s
  proof (rule sequence_map_eq)
    fix q v assume "?f q = Inr v"
    then show "v = ?g (snd q)"
      by (cases q) (auto simp: id2label_get_def format_line_def split: sum.splits option.splits)
  qed
  also have "\<dots> = map ?g (map snd (enumerate 0 ?zs))" by (simp only: map_map comp_def)
  also have "\<dots> = map ?g ?zs" by (simp only: map_snd_enumerate)
  finally show ?thesis by (simp add: ls sentence_lines_def)
qed

lemma render_batch_lines:
  assumes "render_batch env m id2label x y txt = Inr ls"
  shows "\<exists>output_data. env_forward_eval env m x y = Inr output_data
    \<and> ls = concat (map (\<lambda>bid. sentence_lines id2label (txt ! bid) (y ! bid) (output_data ! bid))
                     [0..<length x])"
proof -
  from assms obtain output_data lss where fw: "env_forward_eval env m x y = Inr output_data"
    and s: "sequence (map (\<lambda>bid.
              case py_index txt bid of Inl e \<Rightarrow> Inl e | Inr words \<Rightarrow>
              case py_index y bid of Inl e \<Rightarrow> Inl e | Inr trues \<Rightarrow>
              case py_index output_data bid of Inl e \<Rightarrow> Inl e | Inr preds \<Rightarrow>
                render_sentence id2label words trues preds)
            [0..<length x]) = Inr lss"
    and ls: "ls = concat lss"
    by (auto simp: render_batch_def split: sum.splits)
  have "lss = map (\<lambda>bid. sentence_lines id2label (txt ! bid) (y ! bid) (output_data ! bid))
                [0..<length x]"
    using s
  proof (rule sequence_map_eq)
    fix bid v
    assume "(case py_index txt bid of Inl e \<Rightarrow> Inl e | Inr words \<Rightarrow>
              case py_index y bid of Inl e \<Rightarrow> Inl e | Inr trues \<Rightarrow>
              case py_index output_data bid of Inl e \<Rightarrow> Inl e | Inr preds \<Rightarrow>
                render_sentence id2label words trues preds) = Inr v"
    then have "render_sentence id2label (txt ! bid) (y ! bid) (output_data ! bid) = Inr v"
      by (auto simp: py_index_def split: sum.splits if_splits)
    then show "v = sentence_lines id2label (txt ! bid) (y ! bid) (output_data ! bid)"
      by (rule render_sentence_lines)
  qed
  with fw ls show ?thesis by blast
qed

text \<open>
  Claim C8, as amended. When \<open>eval_model\<close> returns, what it did is: open the output file
  (the given path, or else the temporary one), write the lines, close the file, and only
  then run the scorer and remove the file; the scores returned are the scorer's on
  exactly these lines; and the lines are, batch after batch and row after row of the
  batch, one line per token in the column order word, gold tag, predicted tag, with no
  index column, followed by an empty line after every sentence.
\<close>

theorem eval_model_rendering:
  assumes "eval_model env m valid_x valid_y valid_lens valid_text id2label opt = Inr (prf, events)"
  shows "\<exists>path lines.
      events = [Open path] @ map Write lines @ [Close path, RunScorer path, Remove path]
    \<and> path = (case opt_output opt of Some p \<Rightarrow> p | None \<Rightarrow> env_tmp_path env)
    \<and> env_scorer env lines = Inr prf
    \<and> lines = concat (map (\<lambda>(x, y, lens, txt).
          concat (map (\<lambda>bid. sentence_lines id2label (txt ! bid) (y ! bid)
                                (projr (env_forward_eval env m x y) ! bid))
                      [0..<length x]))
        (zip valid_x (zip valid_y (zip valid_lens valid_text))))"
proof -
  let ?zs = "zip valid_x (zip valid_y (zip valid_lens valid_text))"
  let ?path = "case opt_output opt of Some p \<Rightarrow> p | None \<Rightarrow> env_tmp_path env"
  from assms obtain lss where
    s: "sequence (map (\<lambda>(x, y, lens, txt). render_batch env m id2label x y txt) ?zs) = Inr lss"
    and sc: "env_scorer env (concat lss) = Inr prf"
    and ev: "events = [Open ?path] @ map Write (concat lss)
                        @ [Close ?path, RunScorer ?path, Remove ?path]"
    by (auto simp: eval_model_def Let_def split: sum.splits)
  have "lss = map (\<lambda>(x, y, lens, txt).
          concat (map (\<lambda>bid. sentence_lines id2label (txt ! bid) (y ! bid)
                                (projr (env_forward_eval env m x y) ! bid))
                      [0..<length x])) ?zs"
    using s
  proof (rule sequence_map_eq)
    fix q v
    assume "(case q of (x, y, lens, txt) \<Rightarrow> render_batch env m id2label x y txt) = Inr v"
    then show "v = (case q of (x, y, lens, txt) \<Rightarrow>
          concat (map (\<lambda>bid. sentence_lines id2label (txt ! bid) (y ! bid)
                                (projr (env_forward_eval env m x y) ! bid))
                      [0..<length x]))"
      by (cases q) (auto dest!: render_batch_lines)
  qed
  with sc ev show ?thesis by blast
qed

text \<open>
  Claim C8 as stated fails on the index column: for the sentence \<open>the cat\<close> the file
  holds \<open>the O O\<close> and \<open>cat B-X B-X\<close>, three columns, and no line starts with the token
  index.
\<close>

theorem eval_model_no_index_column:
  "eval_model
     \<lparr>env_train_step = (\<lambda>lr m x y. Inr m), env_forward_eval = (\<lambda>m x y. Inr y),
      env_scorer = (\<lambda>ls. Inr (80, 70, 75)), env_tmp_path = ''tmp''\<rparr> (0::nat)
     [[[2, 3], [4, 1]]] [[[1, 2], [1, 0]]] [[2, 1]] [[[''the'', ''cat''], [''a'']]]
     [(0, ''<pad>''), (1, ''O''), (2, ''B-X'')]
     \<lparr>opt_label_set_path = [], opt_model = ''model'', opt_output = None,
      opt_batch_size = 128, opt_max_epoch = 100, opt_lr = 0.01, opt_lr_decay = 0\<rparr>
   = Inr ((80, 70, 75),
          [Open ''tmp'', Write ''the O O'', Write ''cat B-X B-X'', Write [],
           Write ''a O O'', Write [], Close ''tmp'', RunScorer ''tmp'', Remove ''tmp''])"
  by code_simp

theorem eval_model_rendering_witness:
  "eval_model
     \<lparr>env_train_step = (\<lambda>lr m x y. Inr m), env_forward_eval = (\<lambda>m x y. Inr y),
      env_scorer = (\<lambda>ls. Inr (80, 70, 75)), env_tmp_path = ''tmp''\<rparr> (0::nat)
     [[[2, 3]]] [[[1, 2]]] [[2]] [[[''the'', ''cat'']]]
     [(0, ''<pad>''), (1, ''O''), (2, ''B-X'')]
     \<lparr>opt_label_set_path = [], opt_model = ''model'', opt_output = Some ''out.txt'',
      opt_batch_size = 128, opt_max_epoch = 100, opt_lr = 0.01, opt_lr_decay = 0\<rparr>
   = Inr ((80, 70, 75),
          [Open ''out.txt'', Write ''the O O'', Write ''cat B-X B-X'', Write [],
           Close ''out.txt'', RunScorer ''out.txt'', Remove ''out.txt''])
   \<and> (\<exists>path lines.
        [Open ''out.txt'', Write ''the O O'', Write ''cat B-X B-X'', Write [],
           Close ''out.txt'', RunScorer ''out.txt'', Remove ''out.txt'']
          = [Open path] @ map Write lines @ [Close path, RunScorer path, Remove path]
        \<and> path = ''out.txt''
        \<and> lines = sentence_lines [(0, ''<pad>''), (1, ''O''), (2, ''B-X'')] [''the'', ''cat''] [1, 2] [1, 2]
        \<and> lines = [''the O O'', ''cat B-X B-X'', []])"
proof -
  let ?env = "\<lparr>env_train_step = (\<lambda>lr (m::nat) x y. Inr m), env_forward_eval = (\<lambda>m x y. Inr y),
      env_scorer = (\<lambda>ls. Inr (80, 70, 75)), env_tmp_path = ''tmp''\<rparr>"
  let ?opt = "\<lparr>opt_label_set_path = [], opt_model = ''model'', opt_output = Some ''out.txt'',
      opt_batch_size = 128, opt_max_epoch = 100, opt_lr = 0.01, opt_lr_decay = 0\<rparr>"
  have e: "eval_model ?env 0 [[[2, 3]]] [[[1, 2]]] [[2]] [[[''the'', ''cat'']]]
     [(0, ''<pad>''), (1, ''O''), (2, ''B-X'')] ?opt
   = Inr ((80, 70, 75),
          [Open ''out.txt'', Write ''the O O'', Write ''cat B-X B-X'', Write [],
           Close ''out.txt'', RunScorer ''out.txt'', Remove ''out.txt''])"
    by code_simp
  from eval_model_rendering [OF e] e show ?thesis by (auto simp: sentence_lines_def)
qed

section \<open>Properties of the training loop\<close>

lemma observers_append:
  "dev_f1s (a @ b) = dev_f1s a @ dev_f1s b"
  "saves (a @ b) = saves a @ saves b"
  "test_f1s (a @ b) = test_f1s a @ test_f1s b"
  "steps (a @ b) = steps a @ steps b"
  "dumps (a @ b) = dumps a @ dumps b"
  by (simp_all add: dev_f1s_def saves_def test_f1s_def steps_def dumps_def)

lemma observers_Nil:
  "dev_f1s [] = []" "saves [] = []" "test_f1s [] = []" "steps [] = []" "dumps [] = []"
  by (simp_all add: dev_f1s_def saves_def test_f1s_def steps_def dumps_def)

lemma observers_Cons:
  "dev_f1s (e # ev) = (case e of LogValid ep f \<Rightarrow> [f] | _ \<Rightarrow> []) @ dev_f1s ev"
  "saves (e # ev) = (case e of SaveModel p m \<Rightarrow> [(p, m)] | _ \<Rightarrow> []) @ saves ev"
  "test_f1s (e # ev) = (case e of LogTest ep p r f \<Rightarrow> [f] | _ \<Rightarrow> []) @ test_f1s ev"
  "steps (e # ev) = (case e of TrainStep x y \<Rightarrow> [(x, y)] | _ \<Rightarrow> []) @ steps ev"
  by (simp_all add: dev_f1s_def saves_def test_f1s_def steps_def)

lemma observers_Write:
  "dev_f1s (map Write ls) = []" "saves (map Write ls) = []" "test_f1s (map Write ls) = []"
  "steps (map Write ls) = []" "dumps (map Write ls) = []"
  by (induction ls) (simp_all add: dev_f1s_def saves_def test_f1s_def steps_def dumps_def)

lemma eval_model_Inr:
  assumes "eval_model env m vx vy vl vt id2label opt = Inr (prf, ev)"
  shows "\<exists>path lines. ev = [Open path] @ map Write lines @ [Close path, RunScorer path, Remove path]
           \<and> env_scorer env lines = Inr prf"
  using assms by (auto simp: eval_model_def Let_def split: sum.splits)

lemma eval_model_observers:
  assumes "eval_model env m vx vy vl vt id2label opt = Inr (prf, ev)"
  shows "dev_f1s ev = []" "saves ev = []" "test_f1s ev = []" "steps ev = []" "dumps ev = []"
proof -
  from eval_model_Inr [OF assms] obtain path lines where
    ev: "ev = [Open path] @ map Write lines @ [Close path, RunScorer path, Remove path]"
    by blast
  show "dev_f1s ev = []" "saves ev = []" "test_f1s ev = []" "steps ev = []"
    unfolding ev by (simp_all add: observers_append observers_Write observers_Cons observers_Nil)
  show "dumps ev = []"
    unfolding ev by (simp add: observers_append observers_Write) (simp add: dumps_def)
qed

lemma train_batches_observers:
  assumes "train_batches env lr bs epoch cnt m batches = Inr (m', ev)"
  shows "dev_f1s ev = [] \<and> saves ev = [] \<and> test_f1s ev = [] \<and> dumps ev = []
       \<and> steps ev = map (\<lambda>(x, y, lens). (x, y)) batches"
  using assms
proof (induction batches arbitrary: cnt m m' ev)
  case Nil
  then show ?case by (simp add: observers_Nil)
next
  case (Cons b batches)
  obtain x y lens where b: "b = (x, y, lens)" by (cases b)
  from Cons.prems obtain m1 m2 ev2 where
    r: "train_batches env lr bs epoch (cnt + 1) m1 batches = Inr (m2, ev2)"
    and ev: "ev = TrainStep x y
                # (if (int (cnt + 1) * bs) mod 1024 = 0 then [LogTrain epoch (cnt + 1)] else []) @ ev2"
    by (auto simp: b split: sum.splits if_splits)
  from Cons.IH [OF r] show ?case
    by (auto simp: ev b observers_Cons observers_append observers_Nil dumps_def)
qed

lemma epoch_order_mset:
  assumes sh: "shuffle_ok shuffle"
    and len: "length train_x \<le> length train_y" "length train_x \<le> length train_lens"
  shows "\<exists>ordered rng1. epoch_order shuffle rng train_x train_y train_lens = Inr (ordered, rng1)
      \<and> rng1 = snd (shuffle rng [0..<length train_x])
      \<and> mset ordered = mset (zip train_x (zip train_y train_lens))"
proof -
  define lst where "lst = fst (shuffle rng [0..<length train_x])"
  define rng1 where "rng1 = snd (shuffle rng [0..<length train_x])"
  have sp: "shuffle rng [0..<length train_x] = (lst, rng1)" by (simp add: lst_def rng1_def)
  have ms: "mset lst = mset [0..<length train_x]"
    using sh unfolding lst_def shuffle_ok_def by blast
  then have setl: "set lst = {0..<length train_x}" by (metis mset_eq_setD set_upt)
  have gx: "py_gather train_x lst = Inr (map (\<lambda>i. train_x ! i) lst)"
    by (rule py_gather_ok) (simp add: setl)
  have gy: "py_gather train_y lst = Inr (map (\<lambda>i. train_y ! i) lst)"
    using len by (intro py_gather_ok) (simp add: setl)
  have gl: "py_gather train_lens lst = Inr (map (\<lambda>i. train_lens ! i) lst)"
    using len by (intro py_gather_ok) (simp add: setl)
  let ?f = "\<lambda>i. (train_x ! i, train_y ! i, train_lens ! i)"
  have z: "zip (map (\<lambda>i. train_x ! i) lst) (zip (map (\<lambda>i. train_y ! i) lst) (map (\<lambda>i. train_lens ! i) lst))
      = map ?f lst"
    by (simp add: zip_map_map zip_same_conv_map)
  have "mset (map ?f lst) = mset (map ?f [0..<length train_x])"
    using ms by (rule mset_map_perm)
  moreover have "map ?f [0..<length train_x] = zip train_x (zip train_y train_lens)"
    using len by (intro nth_equalityI) simp_all
  ultimately have m: "mset (map ?f lst) = mset (zip train_x (zip train_y train_lens))"
    by (simp only:)
  have "epoch_order shuffle rng train_x train_y train_lens = Inr (map ?f lst, rng1)"
    unfolding epoch_order_def by (simp only: sp prod.case gx gy gl sum.case Let_def z)
  with m show ?thesis unfolding rng1_def by blast
qed

lemma train_model_step:
  assumes "train_model env shuffle rng lr epoch m train valid test ix2label best test_f1 opt
            = Inr (b', t', m', rng', ev)"
  shows "\<exists>f ls p r. env_scorer env ls = Inr (p, r, f)
      \<and> dev_f1s ev = [f] \<and> b' = max best f \<and> dumps ev = []
      \<and> (best < f \<longrightarrow> length (saves ev) = 1 \<and> test_f1s ev = [t'])
      \<and> (\<not> best < f \<longrightarrow> saves ev = [] \<and> test_f1s ev = [] \<and> t' = test_f1)"
proof -
  obtain train_x train_y train_lens where tr: "train = (train_x, train_y, train_lens)"
    by (cases train)
  obtain vx vy vl vt where va: "valid = (vx, vy, vl, vt)" by (cases valid)
  obtain tx ty tl tt where te: "test = (tx, ty, tl, tt)" by (cases test)
  from assms obtain ordered rng1 m1 ev_train dp dr f ev_dev where
    eo: "epoch_order shuffle rng train_x train_y train_lens = Inr (ordered, rng1)"
    and tb: "train_batches env lr (opt_batch_size opt) epoch 0 m ordered = Inr (m1, ev_train)"
    and dv: "eval_model env m1 vx vy vl vt ix2label opt = Inr ((dp, dr, f), ev_dev)"
    by (auto simp: train_model_def tr va te split: sum.splits prod.splits)
  from eval_model_Inr [OF dv] obtain ls where sc: "env_scorer env ls = Inr (dp, dr, f)" by blast
  note otb = train_batches_observers [OF tb]
  note odv = eval_model_observers [OF dv]
  show ?thesis
  proof (cases "best < f")
    case True
    with assms eo tb dv obtain tp trr ev_test where
      ts: "eval_model env m1 tx ty tl tt ix2label opt = Inr ((tp, trr, t'), ev_test)"
      and r: "b' = f"
        "ev = ev_train @ ev_dev @ [LogValid epoch f]
                    @ [SaveModel (path_join (opt_model opt) ''model.pl'') m1]
                    @ ev_test @ [LogNewRecord, LogTest epoch tp trr t']"
      by (auto simp: train_model_def tr va te split: sum.splits prod.splits)
    note ots = eval_model_observers [OF ts]
    have "dev_f1s ev = [f]" "saves ev = [(path_join (opt_model opt) ''model.pl'', m1)]"
        "test_f1s ev = [t']"
      unfolding r(2) using otb odv ots
      by (simp_all add: observers_append observers_Cons observers_Nil)
    moreover have "dumps ev = []"
      unfolding r(2) using otb odv ots by (simp add: observers_append) (simp add: dumps_def)
    ultimately show ?thesis using True r(1) sc by (intro exI [of _ f] exI conjI) auto
  next
    case False
    with assms eo tb dv have r: "b' = best" "t' = test_f1"
        "ev = ev_train @ ev_dev @ [LogValid epoch f]"
      by (auto simp: train_model_def tr va te split: sum.splits prod.splits)
    have "dev_f1s ev = [f]" "saves ev = []" "test_f1s ev = []"
      unfolding r(3) using otb odv
      by (simp_all add: observers_append observers_Cons observers_Nil)
    moreover have "dumps ev = []"
      unfolding r(3) using otb odv by (simp add: observers_append) (simp add: dumps_def)
    ultimately show ?thesis using False r(1,2) sc by (intro exI [of _ f] exI conjI) auto
  qed
qed

lemma epoch_loop_append:
  "epoch_loop env shuffle opt train valid test id2label (es1 @ es2) st =
    (case epoch_loop env shuffle opt train valid test id2label es1 st of
       Inl e \<Rightarrow> Inl e
     | Inr s \<Rightarrow> epoch_loop env shuffle opt train valid test id2label es2 s)"
  by (induction es1 arbitrary: st) (auto split: sum.splits prod.splits)

lemma epoch_loop_prefix:
  assumes "epoch_loop env shuffle opt train valid test id2label [0..<n] st0 = Inr st" "k \<le> n"
  shows "\<exists>s. epoch_loop env shuffle opt train valid test id2label [0..<k] st0 = Inr s"
proof -
  have "[0..<n] = [0..<k] @ [k..<n]" using assms(2) by (metis le0 upt_add_eq_append le_add_diff_inverse)
  with assms(1) show ?thesis
    by (auto simp: epoch_loop_append split: sum.splits)
qed

lemma epoch_loop_Suc:
  assumes "epoch_loop env shuffle opt train valid test id2label [0..<k] st0 = Inr s"
    and "epoch_loop env shuffle opt train valid test id2label [0..<Suc k] st0 = Inr s'"
  shows "\<exists>rng ev. train_model env shuffle (st_rng s) (st_lr s) k (st_model s) train valid test
            id2label (st_best_valid s) (st_test_result s) opt
          = Inr (st_best_valid s', st_test_result s', st_model s', rng, ev)
       \<and> st_trace s' = st_trace s @ [ev]"
proof -
  have "[0..<Suc k] = [0..<k] @ [k]" by simp
  with assms show ?thesis
    by (auto simp: epoch_loop_append split: sum.splits prod.splits)
qed

lemma epoch_loop_invariant:
  assumes "epoch_loop env shuffle opt train valid test id2label [0..<k] st0 = Inr s"
    and "st_trace st0 = []"
  shows "length (st_trace s) = k
    \<and> (\<forall>j<k. \<exists>g. dev_f1s (st_trace s ! j) = [g] \<and> g \<le> st_best_valid s)
    \<and> (st_best_valid s = st_best_valid st0 \<or> (\<exists>j<k. dev_f1s (st_trace s ! j) = [st_best_valid s]))"
  using assms(1)
proof (induction k arbitrary: s)
  case 0
  then show ?case using assms(2) by simp
next
  case (Suc k)
  from epoch_loop_prefix [OF Suc.prems, of k] obtain s0 where
    s0: "epoch_loop env shuffle opt train valid test id2label [0..<k] st0 = Inr s0" by auto
  note ih = Suc.IH [OF s0]
  from epoch_loop_Suc [OF s0 Suc.prems] obtain rng ev where
    tm: "train_model env shuffle (st_rng s0) (st_lr s0) k (st_model s0) train valid test
            id2label (st_best_valid s0) (st_test_result s0) opt
          = Inr (st_best_valid s, st_test_result s, st_model s, rng, ev)"
    and tr: "st_trace s = st_trace s0 @ [ev]" by blast
  from train_model_step [OF tm] obtain f where
    f: "dev_f1s ev = [f]" "st_best_valid s = max (st_best_valid s0) f" by blast
  have len: "length (st_trace s0) = k" using ih by blast
  have old: "st_trace s ! j = st_trace s0 ! j" if "j < k" for j
    using that len by (simp add: tr nth_append)
  have new: "st_trace s ! k = ev" using len by (simp add: tr nth_append)
  have i1: "length (st_trace s) = Suc k" using len by (simp add: tr)
  have i2: "\<exists>g. dev_f1s (st_trace s ! j) = [g] \<and> g \<le> st_best_valid s" if "j < Suc k" for j
  proof (cases "j = k")
    case True
    then show ?thesis using f new by auto
  next
    case False
    with that have j: "j < k" by simp
    with ih obtain g where "dev_f1s (st_trace s0 ! j) = [g]" "g \<le> st_best_valid s0" by blast
    then show ?thesis using old [OF j] f(2) by auto
  qed
  have i3: "st_best_valid s = st_best_valid st0 \<or> (\<exists>j<Suc k. dev_f1s (st_trace s ! j) = [st_best_valid s])"
  proof (cases "st_best_valid s0 < f")
    case True
    then have "st_best_valid s = f" using f(2) by simp
    then show ?thesis using f(1) new by auto
  next
    case False
    then have eq: "st_best_valid s = st_best_valid s0" using f(2) by simp
    from ih have "st_best_valid s0 = st_best_valid st0 \<or> (\<exists>j<k. dev_f1s (st_trace s0 ! j) = [st_best_valid s0])"
      by blast
    then show ?thesis
    proof
      assume "st_best_valid s0 = st_best_valid st0"
      then show ?thesis using eq by simp
    next
      assume "\<exists>j<k. dev_f1s (st_trace s0 ! j) = [st_best_valid s0]"
      then obtain j where "j < k" "dev_f1s (st_trace s0 ! j) = [st_best_valid s0]" by blast
      then have "j < Suc k" "dev_f1s (st_trace s ! j) = [st_best_valid s]"
        using old eq by simp_all
      then show ?thesis by blast
    qed
  qed
  from i1 i2 i3 show ?case by blast
qed

lemma train_model_eval:
  assumes tm: "train_model env shuffle rng lr epoch m train (vx, vy, vl, vt) (tx, ty, tlens, tt)
                 ix2label best test_f1 opt = Inr (b', t', m', rng', ev)"
  shows "\<exists>ev_train dp dr f ev_dev.
      eval_model env m' vx vy vl vt ix2label opt = Inr ((dp, dr, f), ev_dev)
    \<and> dev_f1s ev = [f]
    \<and> (best < f \<longrightarrow>
         (\<exists>tp trr ev_test.
            eval_model env m' tx ty tlens tt ix2label opt = Inr ((tp, trr, t'), ev_test)
          \<and> ev = ev_train @ ev_dev @ [LogValid epoch f]
                 @ [SaveModel (path_join (opt_model opt) ''model.pl'') m']
                 @ ev_test @ [LogNewRecord, LogTest epoch tp trr t']))
    \<and> (\<not> best < f \<longrightarrow> ev = ev_train @ ev_dev @ [LogValid epoch f])"
proof -
  obtain train_x train_y train_lens where tr: "train = (train_x, train_y, train_lens)"
    by (cases train)
  from tm obtain ordered rng1 m1 ev_train dp dr f ev_dev where
    eo: "epoch_order shuffle rng train_x train_y train_lens = Inr (ordered, rng1)"
    and tb: "train_batches env lr (opt_batch_size opt) epoch 0 m ordered = Inr (m1, ev_train)"
    and dv: "eval_model env m1 vx vy vl vt ix2label opt = Inr ((dp, dr, f), ev_dev)"
    by (auto simp: train_model_def tr split: sum.splits prod.splits)
  note otb = train_batches_observers [OF tb]
  note odv = eval_model_observers [OF dv]
  show ?thesis
  proof (cases "best < f")
    case True
    with tm eo tb dv obtain tp trr ev_test where
      ts: "eval_model env m1 tx ty tlens tt ix2label opt = Inr ((tp, trr, t'), ev_test)"
      and r: "m' = m1"
        "ev = ev_train @ ev_dev @ [LogValid epoch f]
                    @ [SaveModel (path_join (opt_model opt) ''model.pl'') m1]
                    @ ev_test @ [LogNewRecord, LogTest epoch tp trr t']"
      by (auto simp: train_model_def tr split: sum.splits prod.splits)
    note ots = eval_model_observers [OF ts]
    have d: "dev_f1s ev = [f]"
      unfolding r(2) using otb odv ots
      by (simp add: observers_append observers_Cons observers_Nil)
    show ?thesis
      apply (rule exI [of _ ev_train], rule exI [of _ dp], rule exI [of _ dr],
             rule exI [of _ f], rule exI [of _ ev_dev])
      apply (intro conjI impI)
         apply (simp only: r(1) dv)
        apply (rule d)
       apply (rule exI [of _ tp], rule exI [of _ trr], rule exI [of _ ev_test])
       apply (intro conjI)
        apply (simp only: r(1) ts)
       apply (simp only: r)
      using True apply simp
      done
  next
    case False
    with tm eo tb dv have r: "m' = m1" "ev = ev_train @ ev_dev @ [LogValid epoch f]"
      by (auto simp: train_model_def tr split: sum.splits prod.splits)
    have d: "dev_f1s ev = [f]"
      unfolding r(2) using otb odv
      by (simp add: observers_append observers_Cons observers_Nil)
    show ?thesis
      apply (rule exI [of _ ev_train], rule exI [of _ dp], rule exI [of _ dr],
             rule exI [of _ f], rule exI [of _ ev_dev])
      apply (intro conjI impI)
         apply (simp only: r(1) dv)
        apply (rule d)
      using False apply simp
      apply (rule r(2))
      done
  qed
qed


section \<open>The whole run: batches and artifacts\<close>

lemma gather_bound:
  assumes "py_gather ys lst = Inr zs" "set lst = {0..<n}"
  shows "n \<le> length ys"
proof (cases n)
  case 0
  then show ?thesis by simp
next
  case (Suc k)
  then have "k \<in> set lst" using assms(2) by simp
  with py_gather_Inr [OF assms(1)] have "k < length ys" by blast
  with Suc show ?thesis by simp
qed

lemma epoch_order_Inr:
  assumes eo: "epoch_order shuffle rng train_x train_y train_lens = Inr (ordered, rng1)"
    and sh: "shuffle_ok shuffle"
  shows "mset ordered = mset (zip train_x (zip train_y train_lens))"
    and "length train_x \<le> length train_y" and "length train_x \<le> length train_lens"
proof -
  define lst where "lst = fst (shuffle rng [0..<length train_x])"
  have "mset lst = mset [0..<length train_x]"
    using sh unfolding lst_def shuffle_ok_def by blast
  then have setl: "set lst = {0..<length train_x}" by (metis mset_eq_setD set_upt)
  from eo obtain gy gl where "py_gather train_y lst = Inr gy" "py_gather train_lens lst = Inr gl"
    by (auto simp: epoch_order_def lst_def split_def Let_def split: sum.splits)
  then show len: "length train_x \<le> length train_y" "length train_x \<le> length train_lens"
    using setl by (auto dest: gather_bound)
  from epoch_order_mset [OF sh len, of rng] eo
  show "mset ordered = mset (zip train_x (zip train_y train_lens))" by auto
qed

lemma train_model_events:
  assumes tm: "train_model env shuffle rng lr epoch m (train_x, train_y, train_lens) valid test
                 ix2label best test_f1 opt = Inr (b', t', m', rng', ev)"
  shows "dumps ev = []"
    and "saves ev = [] \<or> saves ev = [(path_join (opt_model opt) ''model.pl'', m')]"
    and "shuffle_ok shuffle \<Longrightarrow> mset (steps ev) = mset (zip train_x train_y)"
proof -
  obtain vx vy vl vt where va: "valid = (vx, vy, vl, vt)" by (cases valid)
  obtain tx ty tl tt where te: "test = (tx, ty, tl, tt)" by (cases test)
  from tm obtain ordered rng1 m1 ev_train dp dr f ev_dev where
    eo: "epoch_order shuffle rng train_x train_y train_lens = Inr (ordered, rng1)"
    and tb: "train_batches env lr (opt_batch_size opt) epoch 0 m ordered = Inr (m1, ev_train)"
    and dv: "eval_model env m1 vx vy vl vt ix2label opt = Inr ((dp, dr, f), ev_dev)"
    by (auto simp: train_model_def va te split: sum.splits prod.splits)
  note otb = train_batches_observers [OF tb]
  note odv = eval_model_observers [OF dv]
  have all3: "dumps ev = [] \<and> (saves ev = [] \<or> saves ev = [(path_join (opt_model opt) ''model.pl'', m')])
      \<and> steps ev = map (\<lambda>(x, y, lens). (x, y)) ordered"
  proof (cases "best < f")
    case True
    with tm eo tb dv obtain tp trr ev_test where
      ts: "eval_model env m1 tx ty tl tt ix2label opt = Inr ((tp, trr, t'), ev_test)"
      and r: "m' = m1"
        "ev = ev_train @ ev_dev @ [LogValid epoch f]
                    @ [SaveModel (path_join (opt_model opt) ''model.pl'') m1]
                    @ ev_test @ [LogNewRecord, LogTest epoch tp trr t']"
      by (auto simp: train_model_def va te split: sum.splits prod.splits)
    note ots = eval_model_observers [OF ts]
    have "saves ev = [(path_join (opt_model opt) ''model.pl'', m')]"
        "steps ev = map (\<lambda>(x, y, lens). (x, y)) ordered"
      unfolding r using otb odv ots
      by (simp_all add: observers_append observers_Cons observers_Nil)
    moreover have "dumps ev = []"
      unfolding r(2) using otb odv ots by (simp add: observers_append) (simp add: dumps_def)
    ultimately show ?thesis by blast
  next
    case False
    with tm eo tb dv have r: "ev = ev_train @ ev_dev @ [LogValid epoch f]"
      by (auto simp: train_model_def va te split: sum.splits prod.splits)
    have "saves ev = []" "steps ev = map (\<lambda>(x, y, lens). (x, y)) ordered"
      unfolding r using otb odv
      by (simp_all add: observers_append observers_Cons observers_Nil)
    moreover have "dumps ev = []"
      unfolding r using otb odv by (simp add: observers_append) (simp add: dumps_def)
    ultimately show ?thesis by blast
  qed
  from all3 show "dumps ev = []"
    and "saves ev = [] \<or> saves ev = [(path_join (opt_model opt) ''model.pl'', m')]"
    by blast+
  from all3 have st: "steps ev = map (\<lambda>(x, y, lens). (x, y)) ordered" by blast
  assume sh: "shuffle_ok shuffle"
  note o = epoch_order_Inr [OF eo sh]
  have "mset (map (\<lambda>(x, y, lens). (x, y)) ordered)
      = mset (map (\<lambda>(x, y, lens). (x, y)) (zip train_x (zip train_y train_lens)))"
    using o(1) by (rule mset_map_perm)
  moreover have "map (\<lambda>(x, y, lens). (x, y)) (zip train_x (zip train_y train_lens)) = zip train_x train_y"
    using o(2,3) by (intro nth_equalityI) simp_all
  ultimately show "mset (steps ev) = mset (zip train_x train_y)" by (simp only: st)
qed

lemma epoch_loop_each:
  assumes "epoch_loop env shuffle opt train valid test id2label es st0 = Inr st"
    and "\<And>rng lr epoch m best tf b' t' m' rng' ev.
          train_model env shuffle rng lr epoch m train valid test id2label best tf opt
            = Inr (b', t', m', rng', ev) \<Longrightarrow> P ev"
  shows "\<exists>evs. st_trace st = st_trace st0 @ evs \<and> length evs = length es \<and> (\<forall>ev \<in> set evs. P ev)"
  using assms(1)
proof (induction es arbitrary: st0)
  case Nil
  then show ?case by simp
next
  case (Cons epoch es)
  from Cons.prems obtain b' t' m' rng' ev where
    tm: "train_model env shuffle (st_rng st0) (st_lr st0) epoch (st_model st0) train valid test
            id2label (st_best_valid st0) (st_test_result st0) opt = Inr (b', t', m', rng', ev)"
    and rest: "epoch_loop env shuffle opt train valid test id2label es
           \<lparr>st_rng = rng',
            st_lr = (if opt_lr_decay opt > 0 then st_lr st0 * opt_lr_decay opt else st_lr st0),
            st_model = m', st_best_valid = b', st_test_result = t',
            st_trace = st_trace st0 @ [ev]\<rparr> = Inr st"
    by (auto split: sum.splits prod.splits)
  from Cons.IH [OF rest] obtain evs where
    "st_trace st = (st_trace st0 @ [ev]) @ evs" "length evs = length es" "\<forall>e \<in> set evs. P e"
    by auto
  moreover have "P ev" using tm by (rule assms(2))
  ultimately show ?case by (intro exI [of _ "ev # evs"]) simp
qed

lemma create_batches_unshuffled_rng:
  assumes "create_batches shuffle rng x y batch_size word2id label2id False False text = Inr (r, rng')"
  shows "rng' = rng"
  using assms
  by (auto simp: create_batches_def example_order_def Let_def
           split: sum.splits option.splits if_splits prod.splits)

lemma train_and_test_Inr:
  assumes "train_and_test env shuffle rng fs load_embedding Model makedirs_fails opt
             train_x train_y dev_x dev_y test_x test_y = Inr (events, st)"
  shows "\<exists>word2id label2id id2label tr_x tr_y tr_lens tr_text rng1 dv te st0.
      make_dict fs opt train_x (Some train_y) (Some dev_y) (Some test_y)
        = Inr (word2id, label2id, id2label)
    \<and> create_batches shuffle rng train_x train_y (opt_batch_size opt) word2id label2id
          True True (Some train_x) = Inr ((tr_x, tr_y, tr_lens, tr_text), rng1)
    \<and> st_trace st0 = [] \<and> st_best_valid st0 = - 100000000 \<and> st_rng st0 = rng1
    \<and> epoch_loop env shuffle opt (tr_x, tr_y, tr_lens) dv te id2label
          [0..<nat (opt_max_epoch opt)] st0 = Inr st
    \<and> events = [MakeDirs (opt_model opt),
                  DumpWord2id (path_join (opt_model opt) ''word2id.dict'') word2id,
                  DumpLabel2id (path_join (opt_model opt) ''label2id.dict'') label2id,
                  DumpConfig (path_join (opt_model opt) ''config.dict'') opt]"
proof -
  from assms obtain word2id label2id id2label where
    md: "make_dict fs opt train_x (Some train_y) (Some dev_y) (Some test_y)
        = Inr (word2id, label2id, id2label)"
    by (cases "make_dict fs opt train_x (Some train_y) (Some dev_y) (Some test_y)")
       (auto simp: train_and_test_def)
  from assms md obtain emb where le: "load_embedding word2id = Inr emb"
    by (cases "load_embedding word2id") (auto simp: train_and_test_def)
  from assms md le obtain tr_x tr_y tr_lens tr_text rng1 where
    cb1: "create_batches shuffle rng train_x train_y (opt_batch_size opt) word2id label2id
          True True (Some train_x) = Inr ((tr_x, tr_y, tr_lens, tr_text), rng1)"
    by (cases "create_batches shuffle rng train_x train_y (opt_batch_size opt) word2id label2id
          True True (Some train_x)") (auto simp: train_and_test_def)
  from assms md le cb1 obtain dv_x dv_y dv_lens dv_text rng2 where
    cb2: "create_batches shuffle rng1 dev_x dev_y (opt_batch_size opt) word2id label2id
          False False (Some dev_x) = Inr ((dv_x, dv_y, dv_lens, dv_text), rng2)"
    by (cases "create_batches shuffle rng1 dev_x dev_y (opt_batch_size opt) word2id label2id
          False False (Some dev_x)") (auto simp: train_and_test_def)
  from assms md le cb1 cb2 obtain te_x te_y te_lens te_text rng3 where
    cb3: "create_batches shuffle rng2 test_x test_y (opt_batch_size opt) word2id label2id
          False False (Some test_x) = Inr ((te_x, te_y, te_lens, te_text), rng3)"
    by (cases "create_batches shuffle rng2 test_x test_y (opt_batch_size opt) word2id label2id
          False False (Some test_x)") (auto simp: train_and_test_def)
  from assms md le cb1 cb2 cb3 obtain m where
    mo: "Model emb (length label2id) label2id = Inr m"
    by (cases "Model emb (length label2id) label2id") (auto simp: train_and_test_def)
  let ?st0 = "\<lparr>st_rng = rng3, st_lr = opt_lr opt, st_model = m,
                st_best_valid = - 100000000, st_test_result = - 100000000, st_trace = []\<rparr>"
  from assms md le cb1 cb2 cb3 mo have
    "epoch_loop env shuffle opt (tr_x, tr_y, tr_lens)
               (dv_x, dv_y, dv_lens, the dv_text) (te_x, te_y, te_lens, the te_text) id2label
               [0..<nat (opt_max_epoch opt)] ?st0 = Inr st
     \<and> events = [MakeDirs (opt_model opt),
                  DumpWord2id (path_join (opt_model opt) ''word2id.dict'') word2id,
                  DumpLabel2id (path_join (opt_model opt) ''label2id.dict'') label2id,
                  DumpConfig (path_join (opt_model opt) ''config.dict'') opt]"
    by (cases "epoch_loop env shuffle opt (tr_x, tr_y, tr_lens)
               (dv_x, dv_y, dv_lens, the dv_text) (te_x, te_y, te_lens, the te_text) id2label
               [0..<nat (opt_max_epoch opt)] ?st0")
       (auto simp: train_and_test_def split: if_splits)
  moreover have "st_trace ?st0 = []" "st_best_valid ?st0 = - 100000000" by simp_all
  moreover have "st_rng ?st0 = rng1"
    using create_batches_unshuffled_rng [OF cb2] create_batches_unshuffled_rng [OF cb3] by simp
  ultimately show ?thesis using md cb1 by blast
qed

lemma epoch_order_steps:
  assumes eo: "epoch_order shuffle rng train_x train_y train_lens = Inr (ordered, rng1)"
  shows "rng1 = snd (shuffle rng [0..<length train_x])"
    and "map (\<lambda>(x, y, lens). (x, y)) ordered
          = map (\<lambda>i. (train_x ! i, train_y ! i)) (fst (shuffle rng [0..<length train_x]))"
proof -
  define lst where "lst = fst (shuffle rng [0..<length train_x])"
  from eo obtain gx gy gl where
    g: "py_gather train_x lst = Inr gx" "py_gather train_y lst = Inr gy"
       "py_gather train_lens lst = Inr gl"
    and o: "ordered = zip gx (zip gy gl)"
    and r: "rng1 = snd (shuffle rng [0..<length train_x])"
    by (auto simp: epoch_order_def lst_def split_def Let_def split: sum.splits)
  show "rng1 = snd (shuffle rng [0..<length train_x])" by (rule r)
  have gx: "gx = map ((!) train_x) lst" and gy: "gy = map ((!) train_y) lst"
    and gl: "gl = map ((!) train_lens) lst"
    using py_gather_Inr [OF g(1)] py_gather_Inr [OF g(2)] py_gather_Inr [OF g(3)] by blast+
  have "map (\<lambda>(x, y, lens). (x, y)) ordered = map (\<lambda>i. (train_x ! i, train_y ! i)) lst"
    unfolding o gx gy gl by (intro nth_equalityI) simp_all
  then show "map (\<lambda>(x, y, lens). (x, y)) ordered
          = map (\<lambda>i. (train_x ! i, train_y ! i)) (fst (shuffle rng [0..<length train_x]))"
    by (simp only: lst_def)
qed

lemma train_model_order:
  assumes tm: "train_model env shuffle rng lr epoch m (train_x, train_y, train_lens) valid test
                 ix2label best test_f1 opt = Inr (b', t', m', rng', ev)"
  shows "rng' = snd (shuffle rng [0..<length train_x])"
    and "steps ev = map (\<lambda>i. (train_x ! i, train_y ! i)) (fst (shuffle rng [0..<length train_x]))"
proof -
  obtain vx vy vl vt where va: "valid = (vx, vy, vl, vt)" by (cases valid)
  obtain tx ty tl tt where te: "test = (tx, ty, tl, tt)" by (cases test)
  from tm obtain ordered m1 ev_train dp dr f ev_dev where
    eo: "epoch_order shuffle rng train_x train_y train_lens = Inr (ordered, rng')"
    and tb: "train_batches env lr (opt_batch_size opt) epoch 0 m ordered = Inr (m1, ev_train)"
    and dv: "eval_model env m1 vx vy vl vt ix2label opt = Inr ((dp, dr, f), ev_dev)"
    by (auto simp: train_model_def va te split: sum.splits prod.splits if_splits)
  note otb = train_batches_observers [OF tb]
  note odv = eval_model_observers [OF dv]
  show "rng' = snd (shuffle rng [0..<length train_x])" using eo by (rule epoch_order_steps(1))
  have "steps ev = map (\<lambda>(x, y, lens). (x, y)) ordered"
  proof (cases "best < f")
    case True
    with tm eo tb dv obtain tp trr ev_test where
      ts: "eval_model env m1 tx ty tl tt ix2label opt = Inr ((tp, trr, t'), ev_test)"
      and r: "ev = ev_train @ ev_dev @ [LogValid epoch f]
                    @ [SaveModel (path_join (opt_model opt) ''model.pl'') m1]
                    @ ev_test @ [LogNewRecord, LogTest epoch tp trr t']"
      by (auto simp: train_model_def va te split: sum.splits prod.splits)
    note ots = eval_model_observers [OF ts]
    show ?thesis unfolding r using otb odv ots
      by (simp add: observers_append observers_Cons observers_Nil)
  next
    case False
    with tm eo tb dv have r: "ev = ev_train @ ev_dev @ [LogValid epoch f]"
      by (auto simp: train_model_def va te split: sum.splits prod.splits)
    show ?thesis unfolding r using otb odv
      by (simp add: observers_append observers_Cons observers_Nil)
  qed
  then show "steps ev = map (\<lambda>i. (train_x ! i, train_y ! i)) (fst (shuffle rng [0..<length train_x]))"
    using epoch_order_steps(2) [OF eo] by (simp only:)
qed

lemma epoch_loop_Suc_rng:
  assumes "epoch_loop env shuffle opt train valid test id2label [0..<k] st0 = Inr s"
    and "epoch_loop env shuffle opt train valid test id2label [0..<Suc k] st0 = Inr s'"
  shows "\<exists>ev. train_model env shuffle (st_rng s) (st_lr s) k (st_model s) train valid test
            id2label (st_best_valid s) (st_test_result s) opt
          = Inr (st_best_valid s', st_test_result s', st_model s', st_rng s', ev)
       \<and> st_trace s' = st_trace s @ [ev]"
proof -
  have "[0..<Suc k] = [0..<k] @ [k]" by simp
  with assms show ?thesis
    by (auto simp: epoch_loop_append split: sum.splits prod.splits)
qed

lemma epoch_loop_rng:
  assumes "epoch_loop env shuffle opt (train_x, train_y, train_lens) valid test id2label [0..<k] st0
            = Inr s"
  shows "st_rng s = ((\<lambda>r. snd (shuffle r [0..<length train_x])) ^^ k) (st_rng st0)"
  using assms
proof (induction k arbitrary: s)
  case 0
  then show ?case by simp
next
  case (Suc k)
  from epoch_loop_prefix [OF Suc.prems, of k] obtain s0 where
    s0: "epoch_loop env shuffle opt (train_x, train_y, train_lens) valid test id2label [0..<k] st0
            = Inr s0" by auto
  from epoch_loop_Suc_rng [OF s0 Suc.prems] obtain ev where
    "train_model env shuffle (st_rng s0) (st_lr s0) k (st_model s0) (train_x, train_y, train_lens)
        valid test id2label (st_best_valid s0) (st_test_result s0) opt
          = Inr (st_best_valid s, st_test_result s, st_model s, st_rng s, ev)" by blast
  from train_model_order(1) [OF this] Suc.IH [OF s0] show ?case by simp
qed

lemma epoch_loop_epoch_steps:
  assumes run: "epoch_loop env shuffle opt (train_x, train_y, train_lens) valid test id2label
              [0..<n] st0 = Inr st"
    and t0: "st_trace st0 = []" and k: "k < n"
  shows "steps (st_trace st ! k)
      = map (\<lambda>i. (train_x ! i, train_y ! i))
          (fst (shuffle (((\<lambda>r. snd (shuffle r [0..<length train_x])) ^^ k) (st_rng st0))
                  [0..<length train_x]))"
proof -
  let ?tr = "(train_x, train_y, train_lens)"
  from epoch_loop_prefix [OF run, of k] k obtain s where
    s: "epoch_loop env shuffle opt ?tr valid test id2label [0..<k] st0 = Inr s" by auto
  from epoch_loop_prefix [OF run, of "Suc k"] k obtain s' where
    s': "epoch_loop env shuffle opt ?tr valid test id2label [0..<Suc k] st0 = Inr s'" by auto
  from epoch_loop_Suc_rng [OF s s'] obtain ev where
    tm: "train_model env shuffle (st_rng s) (st_lr s) k (st_model s) ?tr valid test
            id2label (st_best_valid s) (st_test_result s) opt
          = Inr (st_best_valid s', st_test_result s', st_model s', st_rng s', ev)"
    and tr: "st_trace s' = st_trace s @ [ev]" by blast
  have len: "length (st_trace s) = k" using epoch_loop_invariant [OF s t0] by blast
  have sp: "[0..<Suc k] @ [Suc k..<n] = [0..<n]"
    using k by (metis Suc_leI le0 upt_add_eq_append le_add_diff_inverse)
  have "epoch_loop env shuffle opt ?tr valid test id2label ([0..<Suc k] @ [Suc k..<n]) st0 = Inr st"
    using run by (simp only: sp)
  then have "epoch_loop env shuffle opt ?tr valid test id2label [Suc k..<n] s' = Inr st"
    by (simp only: epoch_loop_append s' sum.case)
  from epoch_loop_each [OF this, of "\<lambda>ev. True"] obtain evs where
    "st_trace st = st_trace s' @ evs" by auto
  then have "st_trace st ! k = ev" using len by (simp add: tr nth_append)
  with train_model_order(2) [OF tm] epoch_loop_rng [OF s] show ?thesis by simp
qed

text \<open>
  Claim C1. In a run of the epoch loop that starts from the best score \<open>-1e8\<close> with a
  scorer whose F1 is above that sentinel (an F1 is a percentage), take any epoch \<open>k\<close> of
  the run, the state \<open>s\<close> before it and the state \<open>s'\<close> after it. The epoch evaluates the
  validation set once, and its F1 \<open>f\<close> is what \<open>eval_model\<close> gives for the model trained
  in this epoch on the validation batches; the best validation F1 does not decrease and is
  the larger of the old best and \<open>f\<close>; the model parameters are saved in this epoch if
  and only if \<open>f\<close> is strictly above the validation F1 of every earlier epoch, and then
  saved once, to \<open>model.pl\<close>, as the model trained in this epoch; when they are saved,
  \<open>eval_model\<close> is run after the save for that model on the test batches, its events end
  the events of the epoch, its three scores are the ones logged and its F1 is the reported
  test result; when they are not saved, the test set is not evaluated and the reported
  test result is the one from before.
\<close>

theorem epoch_loop_best_checkpoint:
  assumes run: "epoch_loop env shuffle opt train (valid_x, valid_y, valid_lens, valid_text)
                  (test_x, test_y, test_lens, test_text) id2label [0..<n] st0 = Inr st"
    and b0: "st_best_valid st0 = - 100000000" and t0: "st_trace st0 = []"
    and pct: "\<forall>ls p r f. env_scorer env ls = Inr (p, r, f) \<longrightarrow> - 100000000 < f"
    and k: "k < n"
  shows "\<exists>s s' f.
      epoch_loop env shuffle opt train (valid_x, valid_y, valid_lens, valid_text)
        (test_x, test_y, test_lens, test_text) id2label [0..<k] st0 = Inr s
    \<and> epoch_loop env shuffle opt train (valid_x, valid_y, valid_lens, valid_text)
        (test_x, test_y, test_lens, test_text) id2label [0..<Suc k] st0 = Inr s'
    \<and> length (st_trace s') = Suc k
    \<and> (\<forall>j\<le>k. length (dev_f1s (st_trace s' ! j)) = 1)
    \<and> dev_f1s (st_trace s' ! k) = [f]
    \<and> (\<exists>p r ev. eval_model env (st_model s') valid_x valid_y valid_lens valid_text id2label opt
                  = Inr ((p, r, f), ev))
    \<and> st_best_valid s \<le> st_best_valid s'
    \<and> st_best_valid s' = max (st_best_valid s) f
    \<and> (saves (st_trace s' ! k) \<noteq> [] \<longleftrightarrow> (\<forall>j<k. hd (dev_f1s (st_trace s' ! j)) < f))
    \<and> (saves (st_trace s' ! k) \<noteq> [] \<longrightarrow>
          length (saves (st_trace s' ! k)) = 1 \<and> test_f1s (st_trace s' ! k) = [st_test_result s']
        \<and> saves (st_trace s' ! k) = [(path_join (opt_model opt) ''model.pl'', st_model s')]
        \<and> (\<exists>p r ev pre.
              eval_model env (st_model s') test_x test_y test_lens test_text id2label opt
                = Inr ((p, r, st_test_result s'), ev)
            \<and> st_trace s' ! k
                = pre @ [SaveModel (path_join (opt_model opt) ''model.pl'') (st_model s')]
                  @ ev @ [LogNewRecord, LogTest k p r (st_test_result s')]))
    \<and> (saves (st_trace s' ! k) = [] \<longrightarrow>
          test_f1s (st_trace s' ! k) = [] \<and> st_test_result s' = st_test_result s)"
proof -
  let ?va = "(valid_x, valid_y, valid_lens, valid_text)"
  let ?te = "(test_x, test_y, test_lens, test_text)"
  from epoch_loop_prefix [OF run, of k] k obtain s where
    s: "epoch_loop env shuffle opt train ?va ?te id2label [0..<k] st0 = Inr s" by auto
  from epoch_loop_prefix [OF run, of "Suc k"] k obtain s' where
    s': "epoch_loop env shuffle opt train ?va ?te id2label [0..<Suc k] st0 = Inr s'" by auto
  note inv = epoch_loop_invariant [OF s t0]
  note inv' = epoch_loop_invariant [OF s' t0]
  from epoch_loop_Suc [OF s s'] obtain rng ev where
    tm: "train_model env shuffle (st_rng s) (st_lr s) k (st_model s) train ?va ?te
            id2label (st_best_valid s) (st_test_result s) opt
          = Inr (st_best_valid s', st_test_result s', st_model s', rng, ev)"
    and tr: "st_trace s' = st_trace s @ [ev]" by blast
  from train_model_step [OF tm] obtain f ls p r where
    sc: "env_scorer env ls = Inr (p, r, f)"
    and f: "dev_f1s ev = [f]" "st_best_valid s' = max (st_best_valid s) f"
    and up: "st_best_valid s < f \<longrightarrow> length (saves ev) = 1 \<and> test_f1s ev = [st_test_result s']"
    and no: "\<not> st_best_valid s < f \<longrightarrow> saves ev = [] \<and> test_f1s ev = [] \<and> st_test_result s' = st_test_result s"
    by blast
  from train_model_eval [OF tm] obtain ev_train dp dr g ev_dev where
    dv: "eval_model env (st_model s') valid_x valid_y valid_lens valid_text id2label opt
          = Inr ((dp, dr, g), ev_dev)"
    and g: "dev_f1s ev = [g]"
    and ts: "st_best_valid s < g \<longrightarrow>
         (\<exists>tp trr ev_test.
            eval_model env (st_model s') test_x test_y test_lens test_text id2label opt
              = Inr ((tp, trr, st_test_result s'), ev_test)
          \<and> ev = ev_train @ ev_dev @ [LogValid k g]
                 @ [SaveModel (path_join (opt_model opt) ''model.pl'') (st_model s')]
                 @ ev_test @ [LogNewRecord, LogTest k tp trr (st_test_result s')])"
    by blast
  from f(1) g have gf: "g = f" by simp
  obtain tr_x tr_y tr_lens where trn: "train = (tr_x, tr_y, tr_lens)" by (cases train)
  have sv2: "saves ev = [] \<or> saves ev = [(path_join (opt_model opt) ''model.pl'', st_model s')]"
    using tm unfolding trn by (rule train_model_events(2))
  have lo: "- 100000000 < f" using pct sc by blast
  have len: "length (st_trace s) = k" using inv by blast
  have old: "st_trace s' ! j = st_trace s ! j" if "j < k" for j
    using that len by (simp add: tr nth_append)
  have new: "st_trace s' ! k = ev" using len by (simp add: tr nth_append)
  have c3: "length (st_trace s') = Suc k" using inv' by blast
  have c4: "\<forall>j\<le>k. length (dev_f1s (st_trace s' ! j)) = 1"
  proof (intro allI impI)
    fix j assume "j \<le> k"
    then have "j < Suc k" by simp
    with inv' obtain g where "dev_f1s (st_trace s' ! j) = [g]" by blast
    then show "length (dev_f1s (st_trace s' ! j)) = 1" by simp
  qed
  have c5: "dev_f1s (st_trace s' ! k) = [f]" using f(1) new by simp
  have c6: "st_best_valid s \<le> st_best_valid s'" using f(2) by simp
  have iff: "st_best_valid s < f \<longleftrightarrow> (\<forall>j<k. hd (dev_f1s (st_trace s' ! j)) < f)"
  proof
    assume a: "st_best_valid s < f"
    show "\<forall>j<k. hd (dev_f1s (st_trace s' ! j)) < f"
    proof (intro allI impI)
      fix j assume j: "j < k"
      with inv obtain g where "dev_f1s (st_trace s ! j) = [g]" "g \<le> st_best_valid s" by blast
      with a old [OF j] show "hd (dev_f1s (st_trace s' ! j)) < f" by simp
    qed
  next
    assume a: "\<forall>j<k. hd (dev_f1s (st_trace s' ! j)) < f"
    from inv have "st_best_valid s = st_best_valid st0 \<or> (\<exists>j<k. dev_f1s (st_trace s ! j) = [st_best_valid s])"
      by blast
    then show "st_best_valid s < f"
    proof
      assume "st_best_valid s = st_best_valid st0"
      with b0 lo show ?thesis by simp
    next
      assume "\<exists>j<k. dev_f1s (st_trace s ! j) = [st_best_valid s]"
      then obtain j where j: "j < k" "dev_f1s (st_trace s ! j) = [st_best_valid s]" by blast
      with a old [OF j(1)] show ?thesis by fastforce
    qed
  qed
  have sv: "saves (st_trace s' ! k) \<noteq> [] \<longleftrightarrow> st_best_valid s < f"
    using up no new by (cases "st_best_valid s < f") auto
  have c8: "saves (st_trace s' ! k) \<noteq> [] \<longleftrightarrow> (\<forall>j<k. hd (dev_f1s (st_trace s' ! j)) < f)"
    using sv iff by simp
  have c5b: "\<exists>p r ev. eval_model env (st_model s') valid_x valid_y valid_lens valid_text id2label opt
                  = Inr ((p, r, f), ev)"
    using dv gf by blast
  have c9: "saves (st_trace s' ! k) \<noteq> [] \<longrightarrow>
          length (saves (st_trace s' ! k)) = 1 \<and> test_f1s (st_trace s' ! k) = [st_test_result s']
        \<and> saves (st_trace s' ! k) = [(path_join (opt_model opt) ''model.pl'', st_model s')]
        \<and> (\<exists>p r ev pre.
              eval_model env (st_model s') test_x test_y test_lens test_text id2label opt
                = Inr ((p, r, st_test_result s'), ev)
            \<and> st_trace s' ! k
                = pre @ [SaveModel (path_join (opt_model opt) ''model.pl'') (st_model s')]
                  @ ev @ [LogNewRecord, LogTest k p r (st_test_result s')])"
  proof
    assume a: "saves (st_trace s' ! k) \<noteq> []"
    then have lt: "st_best_valid s < f" using sv by simp
    from a sv2 new have s1: "saves (st_trace s' ! k)
        = [(path_join (opt_model opt) ''model.pl'', st_model s')]" by simp
    from ts lt gf obtain tp trr ev_test where
      e1: "eval_model env (st_model s') test_x test_y test_lens test_text id2label opt
              = Inr ((tp, trr, st_test_result s'), ev_test)"
      and e2: "ev = ev_train @ ev_dev @ [LogValid k f]
                 @ [SaveModel (path_join (opt_model opt) ''model.pl'') (st_model s')]
                 @ ev_test @ [LogNewRecord, LogTest k tp trr (st_test_result s')]"
      by blast
    have e3: "st_trace s' ! k
        = (ev_train @ ev_dev @ [LogValid k f])
          @ [SaveModel (path_join (opt_model opt) ''model.pl'') (st_model s')]
          @ ev_test @ [LogNewRecord, LogTest k tp trr (st_test_result s')]"
      using e2 new by simp
    from e1 e3 have "\<exists>p r ev pre.
              eval_model env (st_model s') test_x test_y test_lens test_text id2label opt
                = Inr ((p, r, st_test_result s'), ev)
            \<and> st_trace s' ! k
                = pre @ [SaveModel (path_join (opt_model opt) ''model.pl'') (st_model s')]
                  @ ev @ [LogNewRecord, LogTest k p r (st_test_result s')]"
      by blast
    with up lt new s1 show "length (saves (st_trace s' ! k)) = 1
        \<and> test_f1s (st_trace s' ! k) = [st_test_result s']
        \<and> saves (st_trace s' ! k) = [(path_join (opt_model opt) ''model.pl'', st_model s')]
        \<and> (\<exists>p r ev pre.
              eval_model env (st_model s') test_x test_y test_lens test_text id2label opt
                = Inr ((p, r, st_test_result s'), ev)
            \<and> st_trace s' ! k
                = pre @ [SaveModel (path_join (opt_model opt) ''model.pl'') (st_model s')]
                  @ ev @ [LogNewRecord, LogTest k p r (st_test_result s')])"
      by simp
  qed
  have c10: "saves (st_trace s' ! k) = [] \<longrightarrow>
          test_f1s (st_trace s' ! k) = [] \<and> st_test_result s' = st_test_result s"
    using sv no new by auto
  show ?thesis
    apply (rule exI [of _ s], rule exI [of _ s'], rule exI [of _ f])
    apply (intro conjI)
              apply (rule s)
            apply (rule s')
           apply (rule c3)
          apply (rule c4)
         apply (rule c5)
         apply (rule c5b)
        apply (rule c6)
       apply (rule f(2))
      apply (rule c8)
     apply (rule c9)
    apply (rule c10)
    done
qed

theorem epoch_loop_best_checkpoint_witness:
  "\<exists>s1 s2 s3 ev.
      epoch_loop
        \<lparr>env_train_step = (\<lambda>lr m x y. Inr (Suc m)), env_forward_eval = (\<lambda>m x y. Inr [[int m]]),
         env_scorer = (\<lambda>ls. Inr (0, 0, if ls = [''w A A'', []] then 70
                                      else if ls = [''w A D'', []] then 68
                                      else if ls = [''v A A'', []] then 60
                                      else if ls = [''v A B'', []] then 65 else 72.5)),
         env_tmp_path = ''tmp''\<rparr>
        (\<lambda>r l. (l, r))
        \<lparr>opt_label_set_path = [], opt_model = ''model'', opt_output = None,
         opt_batch_size = 128, opt_max_epoch = 4, opt_lr = 0.01, opt_lr_decay = 0\<rparr>
        ([[[2]]], [[[1]]], [[1]]) ([[[2]]], [[[1]]], [[1]], [[[''w'']]]) ([[[2]]], [[[1]]], [[1]], [[[''v'']]])
        [(1, ''A''), (2, ''B''), (3, ''C''), (4, ''D'')] [0..<1]
        \<lparr>st_rng = (), st_lr = 0.01, st_model = 0, st_best_valid = - 100000000,
         st_test_result = - 100000000, st_trace = []\<rparr> = Inr s1
    \<and> epoch_loop
        \<lparr>env_train_step = (\<lambda>lr m x y. Inr (Suc m)), env_forward_eval = (\<lambda>m x y. Inr [[int m]]),
         env_scorer = (\<lambda>ls. Inr (0, 0, if ls = [''w A A'', []] then 70
                                      else if ls = [''w A D'', []] then 68
                                      else if ls = [''v A A'', []] then 60
                                      else if ls = [''v A B'', []] then 65 else 72.5)),
         env_tmp_path = ''tmp''\<rparr>
        (\<lambda>r l. (l, r))
        \<lparr>opt_label_set_path = [], opt_model = ''model'', opt_output = None,
         opt_batch_size = 128, opt_max_epoch = 4, opt_lr = 0.01, opt_lr_decay = 0\<rparr>
        ([[[2]]], [[[1]]], [[1]]) ([[[2]]], [[[1]]], [[1]], [[[''w'']]]) ([[[2]]], [[[1]]], [[1]], [[[''v'']]])
        [(1, ''A''), (2, ''B''), (3, ''C''), (4, ''D'')] [0..<2]
        \<lparr>st_rng = (), st_lr = 0.01, st_model = 0, st_best_valid = - 100000000,
         st_test_result = - 100000000, st_trace = []\<rparr> = Inr s2
    \<and> epoch_loop
        \<lparr>env_train_step = (\<lambda>lr m x y. Inr (Suc m)), env_forward_eval = (\<lambda>m x y. Inr [[int m]]),
         env_scorer = (\<lambda>ls. Inr (0, 0, if ls = [''w A A'', []] then 70
                                      else if ls = [''w A D'', []] then 68
                                      else if ls = [''v A A'', []] then 60
                                      else if ls = [''v A B'', []] then 65 else 72.5)),
         env_tmp_path = ''tmp''\<rparr>
        (\<lambda>r l. (l, r))
        \<lparr>opt_label_set_path = [], opt_model = ''model'', opt_output = None,
         opt_batch_size = 128, opt_max_epoch = 4, opt_lr = 0.01, opt_lr_decay = 0\<rparr>
        ([[[2]]], [[[1]]], [[1]]) ([[[2]]], [[[1]]], [[1]], [[[''w'']]]) ([[[2]]], [[[1]]], [[1]], [[[''v'']]])
        [(1, ''A''), (2, ''B''), (3, ''C''), (4, ''D'')] [0..<3]
        \<lparr>st_rng = (), st_lr = 0.01, st_model = 0, st_best_valid = - 100000000,
         st_test_result = - 100000000, st_trace = []\<rparr> = Inr s3
    \<and> dev_f1s (st_trace s2 ! 1) = [72.5]
    \<and> st_best_valid s1 \<le> st_best_valid s2
    \<and> saves (st_trace s2 ! 1) = [(''model/model.pl'', 2)]
    \<and> st_model s2 = 2
    \<and> eval_model
        \<lparr>env_train_step = (\<lambda>lr m x y. Inr (Suc m)), env_forward_eval = (\<lambda>m x y. Inr [[int m]]),
         env_scorer = (\<lambda>ls. Inr (0, 0, if ls = [''w A A'', []] then 70
                                      else if ls = [''w A D'', []] then 68
                                      else if ls = [''v A A'', []] then 60
                                      else if ls = [''v A B'', []] then 65 else 72.5)),
         env_tmp_path = ''tmp''\<rparr>
        2 [[[2]]] [[[1]]] [[1]] [[[''v'']]] [(1, ''A''), (2, ''B''), (3, ''C''), (4, ''D'')]
        \<lparr>opt_label_set_path = [], opt_model = ''model'', opt_output = None,
         opt_batch_size = 128, opt_max_epoch = 4, opt_lr = 0.01, opt_lr_decay = 0\<rparr>
          = Inr ((0, 0, 65), ev)
    \<and> test_f1s (st_trace s2 ! 1) = [65]
    \<and> st_test_result s2 = 65
    \<and> saves (st_trace s3 ! 2) = []
    \<and> test_f1s (st_trace s3 ! 2) = []
    \<and> st_test_result s3 = 65"
proof -
  define env :: "nat env" where "env =
        \<lparr>env_train_step = (\<lambda>lr m x y. Inr (Suc m)), env_forward_eval = (\<lambda>m x y. Inr [[int m]]),
         env_scorer = (\<lambda>ls. Inr (0, 0, if ls = [''w A A'', []] then 70
                                      else if ls = [''w A D'', []] then 68
                                      else if ls = [''v A A'', []] then 60
                                      else if ls = [''v A B'', []] then 65 else 72.5)),
         env_tmp_path = ''tmp''\<rparr>"
  define sh :: "unit shuffler" where "sh = (\<lambda>r l. (l, r))"
  define opt :: options where "opt =
        \<lparr>opt_label_set_path = [], opt_model = ''model'', opt_output = None,
         opt_batch_size = 128, opt_max_epoch = 4, opt_lr = 0.01, opt_lr_decay = 0\<rparr>"
  define tr :: "tensor list \<times> tensor list \<times> nat list list" where "tr = ([[[2]]], [[[1]]], [[1]])"
  define bx :: "tensor list" where "bx = [[[2]]]"
  define bys :: "tensor list" where "bys = [[[1]]]"
  define bl :: "nat list list" where "bl = [[1]]"
  define vt :: "string list list list" where "vt = [[[''w'']]]"
  define tt :: "string list list list" where "tt = [[[''v'']]]"
  define ids :: "(int \<times> string) list" where "ids = [(1, ''A''), (2, ''B''), (3, ''C''), (4, ''D'')]"
  define st0 :: "(nat, unit) loop_state" where "st0 =
        \<lparr>st_rng = (), st_lr = 0.01, st_model = 0, st_best_valid = - 100000000,
         st_test_result = - 100000000, st_trace = []\<rparr>"
  note defs = env_def sh_def opt_def tr_def bx_def bys_def bl_def vt_def tt_def ids_def st0_def
  have "\<not> isl (epoch_loop env sh opt tr (bx, bys, bl, vt) (bx, bys, bl, tt) ids [0..<4] st0)"
    unfolding defs by code_simp
  then obtain st where
    run: "epoch_loop env sh opt tr (bx, bys, bl, vt) (bx, bys, bl, tt) ids [0..<4] st0 = Inr st"
    by (cases "epoch_loop env sh opt tr (bx, bys, bl, vt) (bx, bys, bl, tt) ids [0..<4] st0") simp_all
  have e2: "(case epoch_loop env sh opt tr (bx, bys, bl, vt) (bx, bys, bl, tt) ids [0..<Suc 1] st0 of
              Inl e \<Rightarrow> None
            | Inr s \<Rightarrow> Some (st_test_result s, st_model s, saves (st_trace s ! 1),
                             dev_f1s (st_trace s ! 1)))
        = Some (65, 2, [(''model/model.pl'', 2)], [72.5])"
    unfolding defs by code_simp
  have e3: "(case epoch_loop env sh opt tr (bx, bys, bl, vt) (bx, bys, bl, tt) ids [0..<Suc 2] st0 of
              Inl e \<Rightarrow> None
            | Inr s \<Rightarrow> Some (saves (st_trace s ! 2)))
        = Some []"
    unfolding defs by code_simp
  have b0: "st_best_valid st0 = - 100000000" and t0: "st_trace st0 = []"
    by (simp_all add: st0_def)
  have pct: "\<forall>ls p r f. env_scorer env ls = Inr (p, r, f) \<longrightarrow> - 100000000 < f"
    by (auto simp: env_def)
  have k1: "(1::nat) < 4" and k2: "(2::nat) < 4" by simp_all
  from epoch_loop_best_checkpoint [OF run b0 t0 pct k1] obtain s1 s2 f where
    a1: "epoch_loop env sh opt tr (bx, bys, bl, vt) (bx, bys, bl, tt) ids [0..<1] st0 = Inr s1"
    and a2: "epoch_loop env sh opt tr (bx, bys, bl, vt) (bx, bys, bl, tt) ids [0..<Suc 1] st0 = Inr s2"
    and a3: "dev_f1s (st_trace s2 ! 1) = [f]"
    and a4: "st_best_valid s1 \<le> st_best_valid s2"
    and a5: "saves (st_trace s2 ! 1) \<noteq> [] \<longrightarrow>
          length (saves (st_trace s2 ! 1)) = 1 \<and> test_f1s (st_trace s2 ! 1) = [st_test_result s2]
        \<and> saves (st_trace s2 ! 1) = [(path_join (opt_model opt) ''model.pl'', st_model s2)]
        \<and> (\<exists>p r ev pre.
              eval_model env (st_model s2) bx bys bl tt ids opt = Inr ((p, r, st_test_result s2), ev)
            \<and> st_trace s2 ! 1
                = pre @ [SaveModel (path_join (opt_model opt) ''model.pl'') (st_model s2)]
                  @ ev @ [LogNewRecord, LogTest 1 p r (st_test_result s2)])"
    by (elim exE conjE) (rule that)
  from e2 [unfolded a2] have v2: "st_test_result s2 = 65" "st_model s2 = 2"
    "saves (st_trace s2 ! 1) = [(''model/model.pl'', 2)]" "dev_f1s (st_trace s2 ! 1) = [72.5]"
    by simp_all
  from a5 v2(3) have tf: "test_f1s (st_trace s2 ! 1) = [st_test_result s2]"
    and "\<exists>p r ev. eval_model env (st_model s2) bx bys bl tt ids opt
                = Inr ((p, r, st_test_result s2), ev)"
    by auto
  then obtain p r ev where
    ev: "eval_model env 2 bx bys bl tt ids opt = Inr ((p, r, 65), ev)"
    by (auto simp only: v2)
  from eval_model_Inr [OF ev] obtain ls where "env_scorer env ls = Inr (p, r, 65)" by blast
  then have "p = 0" "r = 0" by (auto simp: env_def)
  with ev have ev0: "eval_model env 2 bx bys bl tt ids opt = Inr ((0, 0, 65), ev)" by simp
  have tf65: "test_f1s (st_trace s2 ! 1) = [65]" using tf by (simp only: v2)
  from epoch_loop_best_checkpoint [OF run b0 t0 pct k2] obtain s2' s3 where
    d1: "epoch_loop env sh opt tr (bx, bys, bl, vt) (bx, bys, bl, tt) ids [0..<2] st0 = Inr s2'"
    and d2: "epoch_loop env sh opt tr (bx, bys, bl, vt) (bx, bys, bl, tt) ids [0..<Suc 2] st0 = Inr s3"
    and d3: "saves (st_trace s3 ! 2) = [] \<longrightarrow>
          test_f1s (st_trace s3 ! 2) = [] \<and> st_test_result s3 = st_test_result s2'"
    by (elim exE conjE) (rule that)
  have n12: "Suc 1 = 2" and n23: "Suc 2 = 3" by simp_all
  from a2 d1 have same: "s2' = s2" by (simp only: n12 sum.inject)
  from e3 [unfolded d2] have w3: "saves (st_trace s3 ! 2) = []" by simp
  with d3 have w4: "test_f1s (st_trace s3 ! 2) = []" and "st_test_result s3 = st_test_result s2'"
    by simp_all
  then have w5: "st_test_result s3 = 65" by (simp only: same v2)
  have a2': "epoch_loop env sh opt tr (bx, bys, bl, vt) (bx, bys, bl, tt) ids [0..<2] st0 = Inr s2"
    using a2 by (simp only: n12)
  have d2': "epoch_loop env sh opt tr (bx, bys, bl, vt) (bx, bys, bl, tt) ids [0..<3] st0 = Inr s3"
    using d2 by (simp only: n23)
  have "\<exists>s1 s2 s3 ev.
      epoch_loop env sh opt tr (bx, bys, bl, vt) (bx, bys, bl, tt) ids [0..<1] st0 = Inr s1
    \<and> epoch_loop env sh opt tr (bx, bys, bl, vt) (bx, bys, bl, tt) ids [0..<2] st0 = Inr s2
    \<and> epoch_loop env sh opt tr (bx, bys, bl, vt) (bx, bys, bl, tt) ids [0..<3] st0 = Inr s3
    \<and> dev_f1s (st_trace s2 ! 1) = [72.5]
    \<and> st_best_valid s1 \<le> st_best_valid s2
    \<and> saves (st_trace s2 ! 1) = [(''model/model.pl'', 2)]
    \<and> st_model s2 = 2
    \<and> eval_model env 2 bx bys bl tt ids opt = Inr ((0, 0, 65), ev)
    \<and> test_f1s (st_trace s2 ! 1) = [65]
    \<and> st_test_result s2 = 65
    \<and> saves (st_trace s3 ! 2) = []
    \<and> test_f1s (st_trace s3 ! 2) = []
    \<and> st_test_result s3 = 65"
    apply (rule exI [of _ s1], rule exI [of _ s2], rule exI [of _ s3], rule exI [of _ ev])
    apply (intro conjI)
                apply (rule a1)
               apply (rule a2')
              apply (rule d2')
             apply (rule v2(4))
            apply (rule a4)
           apply (rule v2(3))
          apply (rule v2(2))
         apply (rule ev0)
        apply (rule tf65)
       apply (rule v2(1))
      apply (rule w3)
     apply (rule w4)
    apply (rule w5)
    done
  then show ?thesis unfolding defs .
qed

text \<open>
  Claim C6, as amended. In a run of \<open>train_and_test\<close> that returns, the training set is
  made into batches once, by the one call of \<open>create_batches\<close> before the epoch loop, and
  in every epoch the optimisation steps are taken on exactly these batches, each once, in
  an order drawn anew: the steps of epoch \<open>k\<close> go through the batches in the order that
  the shuffler gives to the batch positions at the generator state of that epoch, which is
  the state left by \<open>create_batches\<close> advanced by one shuffle of the batch positions for
  every earlier epoch. The epochs reshuffle the order of the batches and never their
  composition.
\<close>

theorem train_and_test_batches_fixed:
  assumes run: "train_and_test env shuffle rng fs load_embedding Model makedirs_fails opt
             train_x train_y dev_x dev_y test_x test_y = Inr (events, st)"
    and sh: "shuffle_ok shuffle" and k: "k < nat (opt_max_epoch opt)"
  shows "\<exists>word2id label2id id2label batches_x batches_y batches_lens batches_text rng1.
      make_dict fs opt train_x (Some train_y) (Some dev_y) (Some test_y)
        = Inr (word2id, label2id, id2label)
    \<and> create_batches shuffle rng train_x train_y (opt_batch_size opt) word2id label2id
          True True (Some train_x) = Inr ((batches_x, batches_y, batches_lens, batches_text), rng1)
    \<and> length (st_trace st) = nat (opt_max_epoch opt)
    \<and> mset (steps (st_trace st ! k)) = mset (zip batches_x batches_y)
    \<and> steps (st_trace st ! k)
        = map (\<lambda>i. (batches_x ! i, batches_y ! i))
            (fst (shuffle (((\<lambda>r. snd (shuffle r [0..<length batches_x])) ^^ k) rng1)
                    [0..<length batches_x]))"
proof -
  from train_and_test_Inr [OF run] obtain word2id label2id id2label tr_x tr_y tr_lens tr_text
      rng1 dv te st0 where
    md: "make_dict fs opt train_x (Some train_y) (Some dev_y) (Some test_y)
        = Inr (word2id, label2id, id2label)"
    and cb: "create_batches shuffle rng train_x train_y (opt_batch_size opt) word2id label2id
          True True (Some train_x) = Inr ((tr_x, tr_y, tr_lens, tr_text), rng1)"
    and t0: "st_trace st0 = []" and r0: "st_rng st0 = rng1"
    and lp: "epoch_loop env shuffle opt (tr_x, tr_y, tr_lens) dv te id2label
          [0..<nat (opt_max_epoch opt)] st0 = Inr st"
    by blast
  have "\<exists>evs. st_trace st = st_trace st0 @ evs \<and> length evs = length [0..<nat (opt_max_epoch opt)]
      \<and> (\<forall>ev \<in> set evs. mset (steps ev) = mset (zip tr_x tr_y))"
    using lp by (rule epoch_loop_each) (rule train_model_events(3) [OF _ sh])
  then have len: "length (st_trace st) = nat (opt_max_epoch opt)"
    and each: "\<forall>ev \<in> set (st_trace st). mset (steps ev) = mset (zip tr_x tr_y)"
    using t0 by auto
  from len k have "st_trace st ! k \<in> set (st_trace st)" by simp
  with each have ms: "mset (steps (st_trace st ! k)) = mset (zip tr_x tr_y)" by blast
  have ord: "steps (st_trace st ! k)
        = map (\<lambda>i. (tr_x ! i, tr_y ! i))
            (fst (shuffle (((\<lambda>r. snd (shuffle r [0..<length tr_x])) ^^ k) rng1)
                    [0..<length tr_x]))"
    using epoch_loop_epoch_steps [OF lp t0 k] by (simp only: r0)
  show ?thesis
    apply (intro exI conjI)
        apply (rule md)
       apply (rule cb)
      apply (rule len)
     apply (rule ms)
    apply (rule ord)
    done
qed

theorem train_and_test_batches_fixed_witness:
  "\<exists>events st batches_x batches_y batches_lens batches_text rng1.
      train_and_test
        \<lparr>env_train_step = (\<lambda>lr m x y. Inr (Suc m)), env_forward_eval = (\<lambda>m x y. Inr y),
         env_scorer = (\<lambda>ls. Inr (80, 70, 75)), env_tmp_path = ''tmp''\<rparr>
        (\<lambda>r l. (rotate r l, Suc r)) (0::nat) Map.empty (\<lambda>w. Inr (0::nat)) (\<lambda>e n l. Inr e) False
        \<lparr>opt_label_set_path = [], opt_model = ''model'', opt_output = None,
         opt_batch_size = 2, opt_max_epoch = 2, opt_lr = 0.01, opt_lr_decay = 0\<rparr>
        [[''a''], [''b''], [''c''], [''d'']] [[''O''], [''O''], [''O''], [''O'']]
        [[''a'']] [[''O'']] [[''b'']] [[''O'']] = Inr (events, st)
    \<and> create_batches (\<lambda>r l. (rotate r l, Suc r)) (0::nat)
        [[''a''], [''b''], [''c''], [''d'']] [[''O''], [''O''], [''O''], [''O'']] 2
        [(''<oov>'', 0), (''<pad>'', 1), (''a'', 2), (''b'', 3), (''c'', 4), (''d'', 5)]
        [(''<pad>'', 0), (''O'', 1), (''B-O'', 2), (''I-O'', 3)]
        True True (Some [[''a''], [''b''], [''c''], [''d'']])
          = Inr ((batches_x, batches_y, batches_lens, batches_text), rng1)
    \<and> batches_x = [[[4], [5]], [[2], [3]]]
    \<and> length (st_trace st) = 2
    \<and> mset (steps (st_trace st ! 1)) = mset (zip batches_x batches_y)
    \<and> steps (st_trace st ! 1) = [([[2], [3]], [[1], [1]]), ([[4], [5]], [[1], [1]])]"
proof -
  define env :: "nat env" where "env =
        \<lparr>env_train_step = (\<lambda>lr m x y. Inr (Suc m)), env_forward_eval = (\<lambda>m x y. Inr y),
         env_scorer = (\<lambda>ls. Inr (80, 70, 75)), env_tmp_path = ''tmp''\<rparr>"
  define sh :: "nat shuffler" where "sh = (\<lambda>r l. (rotate r l, Suc r))"
  define fs :: "string \<rightharpoonup> string" where "fs = Map.empty"
  define le :: "dict \<Rightarrow> error + nat" where "le = (\<lambda>w. Inr 0)"
  define mo :: "nat \<Rightarrow> nat \<Rightarrow> dict \<Rightarrow> error + nat" where "mo = (\<lambda>e n l. Inr e)"
  define opt :: options where "opt =
        \<lparr>opt_label_set_path = [], opt_model = ''model'', opt_output = None,
         opt_batch_size = 2, opt_max_epoch = 2, opt_lr = 0.01, opt_lr_decay = 0\<rparr>"
  define tx :: "string list list" where "tx = [[''a''], [''b''], [''c''], [''d'']]"
  define ty :: "string list list" where "ty = [[''O''], [''O''], [''O''], [''O'']]"
  define dx :: "string list list" where "dx = [[''a'']]"
  define ex :: "string list list" where "ex = [[''b'']]"
  define oy :: "string list list" where "oy = [[''O'']]"
  define W :: dict where
    "W = [(''<oov>'', 0), (''<pad>'', 1), (''a'', 2), (''b'', 3), (''c'', 4), (''d'', 5)]"
  define L :: dict where "L = [(''<pad>'', 0), (''O'', 1), (''B-O'', 2), (''I-O'', 3)]"
  define BX :: "tensor list" where "BX = [[[4], [5]], [[2], [3]]]"
  define BY :: "tensor list" where "BY = [[[1], [1]], [[1], [1]]]"
  note defs = env_def sh_def fs_def le_def mo_def opt_def tx_def ty_def dx_def ex_def oy_def
    W_def L_def
  have "\<not> isl (train_and_test env sh 0 fs le mo False opt tx ty dx oy ex oy)"
    unfolding defs by code_simp
  then obtain events st where
    run: "train_and_test env sh 0 fs le mo False opt tx ty dx oy ex oy = Inr (events, st)"
    by (cases "train_and_test env sh 0 fs le mo False opt tx ty dx oy ex oy") auto
  have "mset (rotate r l) = mset l" for r and l :: "nat list"
  proof -
    define k where "k = r mod length l"
    have a: "mset (take k l @ drop k l) = mset l" by simp
    have b: "mset (rotate r l) = mset (drop k l) + mset (take k l)"
      by (simp add: rotate_drop_take k_def)
    have c: "mset (take k l @ drop k l) = mset (take k l) + mset (drop k l)"
      by (rule mset_append)
    from a b c show ?thesis by (metis add.commute)
  qed
  then have ok: "shuffle_ok sh" by (simp add: shuffle_ok_def sh_def)
  have bs: "opt_batch_size opt = 2" and ne: "nat (opt_max_epoch opt) = 2"
    by (simp_all add: opt_def)
  have k: "1 < nat (opt_max_epoch opt)" by (simp add: ne)
  have "(case make_dict fs opt tx (Some ty) (Some oy) (Some oy) of
           Inl e \<Rightarrow> None | Inr (w, l, i) \<Rightarrow> Some (w, l)) = Some (W, L)"
    unfolding defs by code_simp
  then have mdW: "make_dict fs opt tx (Some ty) (Some oy) (Some oy) = Inr (w, l, i) \<Longrightarrow> w = W \<and> l = L"
    for w l i by simp
  have cbv: "(case create_batches sh 0 tx ty 2 W L True True (Some tx) of
           Inl e \<Rightarrow> None | Inr ((bx, bys, r), g) \<Rightarrow> Some (bx, bys, g)) = Some (BX, BY, 2)"
    unfolding defs BX_def BY_def by code_simp
  have ordv: "map (\<lambda>i. (BX ! i, BY ! i))
            (fst (sh (((\<lambda>r. snd (sh r [0..<length BX])) ^^ Suc 0) 2) [0..<length BX]))
       = [([[2], [3]], [[1], [1]]), ([[4], [5]], [[1], [1]])]"
    unfolding sh_def BX_def BY_def by code_simp
  from train_and_test_batches_fixed [OF run ok k]
  obtain word2id label2id id2label batches_x batches_y batches_lens batches_text rng1 where
    c1: "make_dict fs opt tx (Some ty) (Some oy) (Some oy) = Inr (word2id, label2id, id2label)"
    and c2: "create_batches sh 0 tx ty 2 word2id label2id True True (Some tx)
          = Inr ((batches_x, batches_y, batches_lens, batches_text), rng1)"
    and c3: "length (st_trace st) = 2"
    and c4: "mset (steps (st_trace st ! 1)) = mset (zip batches_x batches_y)"
    and c5: "steps (st_trace st ! 1)
        = map (\<lambda>i. (batches_x ! i, batches_y ! i))
            (fst (sh (((\<lambda>r. snd (sh r [0..<length batches_x])) ^^ 1) rng1)
                    [0..<length batches_x]))"
    unfolding bs ne by (elim exE conjE) (rule that)
  from mdW [OF c1] have wl: "word2id = W" "label2id = L" by simp_all
  have c2': "create_batches sh 0 tx ty 2 W L True True (Some tx)
          = Inr ((batches_x, batches_y, batches_lens, batches_text), rng1)"
    using c2 by (simp only: wl)
  from cbv have bxy: "batches_x = BX" "batches_y = BY" "rng1 = 2"
    by (simp_all add: c2')
  have c6: "steps (st_trace st ! 1) = [([[2], [3]], [[1], [1]]), ([[4], [5]], [[1], [1]])]"
    using c5 ordv by (simp only: bxy One_nat_def)
  have c7: "batches_x = [[[4], [5]], [[2], [3]]]" by (simp only: bxy BX_def)
  have "\<exists>events st batches_x batches_y batches_lens batches_text rng1.
      train_and_test env sh 0 fs le mo False opt tx ty dx oy ex oy = Inr (events, st)
    \<and> create_batches sh 0 tx ty 2 W L True True (Some tx)
          = Inr ((batches_x, batches_y, batches_lens, batches_text), rng1)
    \<and> batches_x = [[[4], [5]], [[2], [3]]]
    \<and> length (st_trace st) = 2
    \<and> mset (steps (st_trace st ! 1)) = mset (zip batches_x batches_y)
    \<and> steps (st_trace st ! 1) = [([[2], [3]], [[1], [1]]), ([[4], [5]], [[1], [1]])]"
    apply (intro exI conjI)
         apply (rule run)
        apply (rule c2')
       apply (rule c7)
      apply (rule c3)
     apply (rule c4)
    apply (rule c6)
    done
  then show ?thesis unfolding defs .
qed

text \<open>
  Claim C6 as stated fails on the composition of the batches: four one-word sentences in
  batches of 2 are trained on as the same two batches in both epochs, only their order
  changing, whereas making the batches again with the generator as it stands after the
  first epoch would have put the sentences together differently.
\<close>

theorem train_and_test_no_rebucketing:
  "(case train_and_test
        \<lparr>env_train_step = (\<lambda>lr m x y. Inr (Suc m)), env_forward_eval = (\<lambda>m x y. Inr y),
         env_scorer = (\<lambda>ls. Inr (80, 70, 75)), env_tmp_path = ''tmp''\<rparr>
        (\<lambda>r l. (rotate r l, Suc r)) (0::nat) Map.empty (\<lambda>w. Inr (0::nat)) (\<lambda>e n l. Inr e) False
        \<lparr>opt_label_set_path = [], opt_model = ''model'', opt_output = None,
         opt_batch_size = 2, opt_max_epoch = 2, opt_lr = 0.01, opt_lr_decay = 0\<rparr>
        [[''a''], [''b''], [''c''], [''d'']] [[''O''], [''O''], [''O''], [''O'']]
        [[''a'']] [[''O'']] [[''b'']] [[''O'']] of
      Inl e \<Rightarrow> []
    | Inr (events, st) \<Rightarrow> map (\<lambda>ev. map fst (steps ev)) (st_trace st))
     = [[[[4], [5]], [[2], [3]]], [[[2], [3]], [[4], [5]]]]
   \<and> (case train_and_test
        \<lparr>env_train_step = (\<lambda>lr m x y. Inr (Suc m)), env_forward_eval = (\<lambda>m x y. Inr y),
         env_scorer = (\<lambda>ls. Inr (80, 70, 75)), env_tmp_path = ''tmp''\<rparr>
        (\<lambda>r l. (rotate r l, Suc r)) (0::nat) Map.empty (\<lambda>w. Inr (0::nat)) (\<lambda>e n l. Inr e) False
        \<lparr>opt_label_set_path = [], opt_model = ''model'', opt_output = None,
         opt_batch_size = 2, opt_max_epoch = 1, opt_lr = 0.01, opt_lr_decay = 0\<rparr>
        [[''a''], [''b''], [''c''], [''d'']] [[''O''], [''O''], [''O''], [''O'']]
        [[''a'']] [[''O'']] [[''b'']] [[''O'']] of
      Inl e \<Rightarrow> []
    | Inr (events, st) \<Rightarrow>
        (case create_batches (\<lambda>r l. (rotate r l, Suc r)) (st_rng st)
                [[''a''], [''b''], [''c''], [''d'']] [[''O''], [''O''], [''O''], [''O'']] 2
                [(''<oov>'', 0), (''<pad>'', 1), (''a'', 2), (''b'', 3), (''c'', 4), (''d'', 5)]
                [(''<pad>'', 0), (''O'', 1), (''B-O'', 2), (''I-O'', 3)]
                True True (Some [[''a''], [''b''], [''c''], [''d'']]) of
           Inl e \<Rightarrow> []
         | Inr ((batches_x, rest), rng') \<Rightarrow> batches_x))
     = [[[5], [2]], [[3], [4]]]"
  by code_simp

text \<open>
  Claim C9, as amended. In a run of \<open>train_and_test\<close> that returns, the directory is made
  and \<open>word2id\<close>, \<open>label2id\<close> and the configuration are written, each once and one after
  the other, at initialisation; the epochs write none of them again; the model
  parameters are written apart from them, to \<open>model.pl\<close> in the same directory, at most
  once in an epoch. Nothing ties the four writes into one step.
\<close>

theorem train_and_test_artifacts:
  assumes run: "train_and_test env shuffle rng fs load_embedding Model makedirs_fails opt
             train_x train_y dev_x dev_y test_x test_y = Inr (events, st)"
  shows "\<exists>word2id label2id id2label.
      make_dict fs opt train_x (Some train_y) (Some dev_y) (Some test_y)
        = Inr (word2id, label2id, id2label)
    \<and> events = [MakeDirs (opt_model opt),
                 DumpWord2id (path_join (opt_model opt) ''word2id.dict'') word2id,
                 DumpLabel2id (path_join (opt_model opt) ''label2id.dict'') label2id,
                 DumpConfig (path_join (opt_model opt) ''config.dict'') opt]
    \<and> length (st_trace st) = nat (opt_max_epoch opt)
    \<and> (\<forall>ev \<in> set (st_trace st).
          dumps ev = []
          \<and> (saves ev = [] \<or> (\<exists>m. saves ev = [(path_join (opt_model opt) ''model.pl'', m)])))"
proof -
  from train_and_test_Inr [OF run] obtain word2id label2id id2label tr_x tr_y tr_lens
      dv te st0 where
    md: "make_dict fs opt train_x (Some train_y) (Some dev_y) (Some test_y)
        = Inr (word2id, label2id, id2label)"
    and t0: "st_trace st0 = []"
    and lp: "epoch_loop env shuffle opt (tr_x, tr_y, tr_lens) dv te id2label
          [0..<nat (opt_max_epoch opt)] st0 = Inr st"
    and ev: "events = [MakeDirs (opt_model opt),
                 DumpWord2id (path_join (opt_model opt) ''word2id.dict'') word2id,
                 DumpLabel2id (path_join (opt_model opt) ''label2id.dict'') label2id,
                 DumpConfig (path_join (opt_model opt) ''config.dict'') opt]"
    by blast
  have "\<exists>evs. st_trace st = st_trace st0 @ evs \<and> length evs = length [0..<nat (opt_max_epoch opt)]
      \<and> (\<forall>ev \<in> set evs. dumps ev = []
            \<and> (saves ev = [] \<or> (\<exists>m. saves ev = [(path_join (opt_model opt) ''model.pl'', m)])))"
    using lp
  proof (rule epoch_loop_each)
    fix rng lr epoch m best tf b' t' m' rng' e
    assume "train_model env shuffle rng lr epoch m (tr_x, tr_y, tr_lens) dv te id2label best tf opt
              = Inr (b', t', m', rng', e)"
    from train_model_events(1,2) [OF this]
    show "dumps e = [] \<and> (saves e = [] \<or> (\<exists>m. saves e = [(path_join (opt_model opt) ''model.pl'', m)]))"
      by blast
  qed
  then have "length (st_trace st) = nat (opt_max_epoch opt)"
    and "\<forall>ev \<in> set (st_trace st). dumps ev = []
            \<and> (saves ev = [] \<or> (\<exists>m. saves ev = [(path_join (opt_model opt) ''model.pl'', m)]))"
    using t0 by auto
  with md ev show ?thesis by blast
qed

theorem train_and_test_artifacts_witness:
  "\<exists>events st word2id label2id id2label.
      train_and_test
        \<lparr>env_train_step = (\<lambda>lr m x y. Inr (Suc m)), env_forward_eval = (\<lambda>m x y. Inr y),
         env_scorer = (\<lambda>ls. Inr (80, 70, 75)), env_tmp_path = ''tmp''\<rparr>
        (\<lambda>r l. (rotate r l, Suc r)) (0::nat) Map.empty (\<lambda>w. Inr (0::nat)) (\<lambda>e n l. Inr e) False
        \<lparr>opt_label_set_path = [], opt_model = ''model'', opt_output = None,
         opt_batch_size = 2, opt_max_epoch = 1, opt_lr = 0.01, opt_lr_decay = 0\<rparr>
        [[''a'']] [[''O'']] [[''a'']] [[''O'']] [[''a'']] [[''O'']] = Inr (events, st)
    \<and> make_dict Map.empty
        \<lparr>opt_label_set_path = [], opt_model = ''model'', opt_output = None,
         opt_batch_size = 2, opt_max_epoch = 1, opt_lr = 0.01, opt_lr_decay = 0\<rparr>
        [[''a'']] (Some [[''O'']]) (Some [[''O'']]) (Some [[''O'']])
          = Inr (word2id, label2id, id2label)
    \<and> events = [MakeDirs ''model'',
                 DumpWord2id (path_join ''model'' ''word2id.dict'') word2id,
                 DumpLabel2id (path_join ''model'' ''label2id.dict'') label2id,
                 DumpConfig (path_join ''model'' ''config.dict'')
                   \<lparr>opt_label_set_path = [], opt_model = ''model'', opt_output = None,
                    opt_batch_size = 2, opt_max_epoch = 1, opt_lr = 0.01, opt_lr_decay = 0\<rparr>]
    \<and> length (st_trace st) = 1
    \<and> dumps (st_trace st ! 0) = []
    \<and> length (saves (st_trace st ! 0)) \<le> 1"
proof -
  define env :: "nat env" where "env =
        \<lparr>env_train_step = (\<lambda>lr m x y. Inr (Suc m)), env_forward_eval = (\<lambda>m x y. Inr y),
         env_scorer = (\<lambda>ls. Inr (80, 70, 75)), env_tmp_path = ''tmp''\<rparr>"
  define sh :: "nat shuffler" where "sh = (\<lambda>r l. (rotate r l, Suc r))"
  define fs :: "string \<rightharpoonup> string" where "fs = Map.empty"
  define le :: "dict \<Rightarrow> error + nat" where "le = (\<lambda>w. Inr 0)"
  define mo :: "nat \<Rightarrow> nat \<Rightarrow> dict \<Rightarrow> error + nat" where "mo = (\<lambda>e n l. Inr e)"
  define opt :: options where "opt =
        \<lparr>opt_label_set_path = [], opt_model = ''model'', opt_output = None,
         opt_batch_size = 2, opt_max_epoch = 1, opt_lr = 0.01, opt_lr_decay = 0\<rparr>"
  define tx :: "string list list" where "tx = [[''a'']]"
  define ty :: "string list list" where "ty = [[''O'']]"
  define md :: string where "md = ''model''"
  note defs = env_def sh_def fs_def le_def mo_def opt_def tx_def ty_def md_def
  have "\<not> isl (train_and_test env sh 0 fs le mo False opt tx ty tx ty tx ty)"
    unfolding defs by code_simp
  then obtain events st where
    run: "train_and_test env sh 0 fs le mo False opt tx ty tx ty tx ty = Inr (events, st)"
    by (cases "train_and_test env sh 0 fs le mo False opt tx ty tx ty tx ty") auto
  have om: "opt_model opt = md" and ne: "nat (opt_max_epoch opt) = 1"
    by (simp_all add: opt_def md_def)
  from train_and_test_artifacts [OF run]
  obtain word2id label2id id2label where
    c1: "make_dict fs opt tx (Some ty) (Some ty) (Some ty) = Inr (word2id, label2id, id2label)"
    and c2: "events = [MakeDirs md,
                 DumpWord2id (path_join md ''word2id.dict'') word2id,
                 DumpLabel2id (path_join md ''label2id.dict'') label2id,
                 DumpConfig (path_join md ''config.dict'') opt]"
    and c3: "length (st_trace st) = 1"
    and c4: "\<forall>ev \<in> set (st_trace st).
          dumps ev = []
          \<and> (saves ev = [] \<or> (\<exists>m. saves ev = [(path_join md ''model.pl'', m)]))"
    unfolding om ne by (elim exE conjE) (rule that)
  from c3 have "st_trace st ! 0 \<in> set (st_trace st)" by simp
  with c4 have c5: "dumps (st_trace st ! 0) = []"
    and "saves (st_trace st ! 0) = []
          \<or> (\<exists>m. saves (st_trace st ! 0) = [(path_join md ''model.pl'', m)])"
    by blast+
  then have c6: "length (saves (st_trace st ! 0)) \<le> 1" by auto
  have "\<exists>events st word2id label2id id2label.
      train_and_test env sh 0 fs le mo False opt tx ty tx ty tx ty = Inr (events, st)
    \<and> make_dict fs opt tx (Some ty) (Some ty) (Some ty) = Inr (word2id, label2id, id2label)
    \<and> events = [MakeDirs md,
                 DumpWord2id (path_join md ''word2id.dict'') word2id,
                 DumpLabel2id (path_join md ''label2id.dict'') label2id,
                 DumpConfig (path_join md ''config.dict'') opt]
    \<and> length (st_trace st) = 1
    \<and> dumps (st_trace st ! 0) = []
    \<and> length (saves (st_trace st ! 0)) \<le> 1"
    apply (intro exI conjI)
         apply (rule run)
        apply (rule c1)
       apply (rule c2)
      apply (rule c3)
     apply (rule c5)
    apply (rule c6)
    done
  then show ?thesis unfolding defs .
qed

text \<open>
  Claim C9 as stated fails on the tie between the configuration and the parameters: a run of
  no epoch returns having written the configuration and no parameters, and in a run of one
  epoch the configuration is written before the first training step and the parameters
  only after the first evaluation.
\<close>

theorem train_and_test_config_without_model:
  "(case train_and_test
        \<lparr>env_train_step = (\<lambda>lr m x y. Inr (Suc m)), env_forward_eval = (\<lambda>m x y. Inr y),
         env_scorer = (\<lambda>ls. Inr (80, 70, 75)), env_tmp_path = ''tmp''\<rparr>
        (\<lambda>r l. (rotate r l, Suc r)) (0::nat) Map.empty (\<lambda>w. Inr (0::nat)) (\<lambda>e n l. Inr e) False
        \<lparr>opt_label_set_path = [], opt_model = ''model'', opt_output = None,
         opt_batch_size = 2, opt_max_epoch = 0, opt_lr = 0.01, opt_lr_decay = 0\<rparr>
        [[''a'']] [[''O'']] [[''a'']] [[''O'']] [[''a'']] [[''O'']] of
      Inl e \<Rightarrow> None
    | Inr (events, st) \<Rightarrow> Some (events, saves (concat (st_trace st))))
     = Some ([MakeDirs ''model'',
              DumpWord2id ''model/word2id.dict'' [(''<oov>'', 0), (''<pad>'', 1), (''a'', 2)],
              DumpLabel2id ''model/label2id.dict''
                [(''<pad>'', 0), (''O'', 1), (''B-O'', 2), (''I-O'', 3)],
              DumpConfig ''model/config.dict''
                \<lparr>opt_label_set_path = [], opt_model = ''model'', opt_output = None,
                 opt_batch_size = 2, opt_max_epoch = 0, opt_lr = 0.01, opt_lr_decay = 0\<rparr>], [])
   \<and> (case train_and_test
        \<lparr>env_train_step = (\<lambda>lr m x y. Inr (Suc m)), env_forward_eval = (\<lambda>m x y. Inr y),
         env_scorer = (\<lambda>ls. Inr (80, 70, 75)), env_tmp_path = ''tmp''\<rparr>
        (\<lambda>r l. (rotate r l, Suc r)) (0::nat) Map.empty (\<lambda>w. Inr (0::nat)) (\<lambda>e n l. Inr e) False
        \<lparr>opt_label_set_path = [], opt_model = ''model'', opt_output = None,
         opt_batch_size = 2, opt_max_epoch = 1, opt_lr = 0.01, opt_lr_decay = 0\<rparr>
        [[''a'']] [[''O'']] [[''a'']] [[''O'']] [[''a'']] [[''O'']] of
      Inl e \<Rightarrow> None
    | Inr (events, st) \<Rightarrow> Some (events @ concat (st_trace st)))
     = Some [MakeDirs ''model'',
              DumpWord2id ''model/word2id.dict'' [(''<oov>'', 0), (''<pad>'', 1), (''a'', 2)],
              DumpLabel2id ''model/label2id.dict''
                [(''<pad>'', 0), (''O'', 1), (''B-O'', 2), (''I-O'', 3)],
              DumpConfig ''model/config.dict''
                \<lparr>opt_label_set_path = [], opt_model = ''model'', opt_output = None,
                 opt_batch_size = 2, opt_max_epoch = 1, opt_lr = 0.01, opt_lr_decay = 0\<rparr>,
              TrainStep [[2]] [[1]],
              Open ''tmp'', Write ''a O O'', Write [], Close ''tmp'', RunScorer ''tmp'',
              Remove ''tmp'', LogValid 0 75, SaveModel ''model/model.pl'' 1,
              Open ''tmp'', Write ''a O O'', Write [], Close ''tmp'', RunScorer ''tmp'',
              Remove ''tmp'', LogNewRecord, LogTest 0 80 70 75]"
  by code_simp

end
